(* ===== verification/Prelude.thy ===== *)
theory Prelude
  imports Complex_Main "HOL-Library.Char_ord" "HOL-Library.List_Lexorder"
begin

text \<open>
  Shared vocabulary of the development: the exceptions of the Python program as one
  datatype, results as the sum of an exception and a value, Python dictionaries as
  association lists in insertion order, and the string operations of the standard library
  the program uses.  Strings are lists of characters; case folding, digits and white space
  are those of the ASCII range, which is what the identifiers, dates, numbers and SQL
  fragments of the program are made of.
\<close>

named_theorems res_simps \<open>equations of the result type\<close>
named_theorems dict_simps \<open>equations of Python dictionaries\<close>
named_theorems str_simps \<open>equations of the string library\<close>
named_theorems evals \<open>definitions the simplifier unfolds to evaluate closed terms\<close>

section \<open>Exceptions and results\<close>

text \<open>
  The exception classes the package declares, the builtin ones its code can run into, and
  two for what the outside world raises: \<open>External\<close> is an \<open>Exception\<close> of Spark, JDBC or
  the secret store, \<open>Interrupted\<close> a \<open>BaseException\<close> that is not an \<open>Exception\<close>
  (an interrupt, an interpreter exit).  The argument is the offending value.
\<close>

datatype pyerr =
    WatermarkError string
  | DurationParseError string
  | SqlBuildError string
  | ControlSchemaError string
  | ControlStateError string string
  | ExtractionError string
  | LoadError string
  | DependencyError "string list"
  | BundleError string
  | ChannelParseError string
  | ConfigMergeError string
  | ConfigResolutionError string
  | ConfigLoadError string
  | ConfigValidationError "string list"
  | PyValueError string
  | PyTypeError string
  | PyKeyError string
  | IndexError
  | AssertionError
  | OverflowError
  | InvalidOperation
  | External string
  | Interrupted string

type_synonym 'a res = "pyerr + 'a"

text \<open>Sequencing: the first exception wins, as a raise leaves the function body.\<close>

fun bindE :: "'e + 'a \<Rightarrow> ('a \<Rightarrow> 'e + 'b) \<Rightarrow> 'e + 'b" where
  "bindE (Inl e) f = Inl e"
| "bindE (Inr a) f = f a"

text \<open>A comprehension whose element expression may raise.\<close>

fun mapE :: "('a \<Rightarrow> 'e + 'b) \<Rightarrow> 'a list \<Rightarrow> 'e + 'b list" where
  "mapE f [] = Inr []"
| "mapE f (x # xs) = bindE (f x) (\<lambda>y. bindE (mapE f xs) (\<lambda>ys. Inr (y # ys)))"

definition is_ok :: "'e + 'a \<Rightarrow> bool" where
  "is_ok r = (case r of Inl _ \<Rightarrow> False | Inr _ \<Rightarrow> True)"

lemma is_ok_simps [simp, res_simps]: "\<not> is_ok (Inl e)" "is_ok (Inr a)"
  by (simp_all add: is_ok_def)

lemma bindE_Inr_iff [res_simps]: "bindE r f = Inr b \<longleftrightarrow> (\<exists>a. r = Inr a \<and> f a = Inr b)"
  by (cases r) auto

lemma bindE_Inl_iff [res_simps]:
  "bindE r f = Inl e \<longleftrightarrow> r = Inl e \<or> (\<exists>a. r = Inr a \<and> f a = Inl e)"
  by (cases r) auto

lemma bindE_assoc: "bindE (bindE r f) g = bindE r (\<lambda>a. bindE (f a) g)"
  by (cases r) auto

lemma mapE_Inr_length: "mapE f xs = Inr ys \<Longrightarrow> length ys = length xs"
  by (induction xs arbitrary: ys) (auto simp: bindE_Inr_iff)

lemma mapE_Inr_iff: "mapE f xs = Inr ys \<longleftrightarrow> list_all2 (\<lambda>x y. f x = Inr y) xs ys"
  by (induction xs arbitrary: ys) (auto simp: bindE_Inr_iff list_all2_Cons1)

lemma mapE_id: "mapE f xs = Inr ys \<Longrightarrow> (\<And>x y. f x = Inr y \<Longrightarrow> y = x) \<Longrightarrow> ys = xs"
  by (induction xs arbitrary: ys) (auto simp: bindE_Inr_iff)

lemma mapE_ok_iff: "is_ok (mapE f xs) \<longleftrightarrow> (\<forall>x\<in>set xs. is_ok (f x))"
proof (induction xs)
  case (Cons x xs)
  then show ?case by (cases "f x"; cases "mapE f xs") auto
qed simp

lemma is_ok_bindE: "is_ok (bindE r f) \<longleftrightarrow> (\<exists>x. r = Inr x \<and> is_ok (f x))"
  by (cases r) simp_all

lemma is_ok_iff: "is_ok r \<longleftrightarrow> (\<exists>x. r = Inr x)"
  by (cases r) simp_all

lemma bindE_ok_total: "(\<And>a. is_ok (f a)) \<Longrightarrow> is_ok (bindE r f) = is_ok r"
  by (cases r) simp_all

lemma is_ok_bind_Inr: "is_ok (bindE r (\<lambda>x. Inr (f x))) = is_ok r"
  by (rule bindE_ok_total) simp

lemma list_all2_right: "list_all2 P xs ys \<Longrightarrow> y \<in> set ys \<Longrightarrow> \<exists>x \<in> set xs. P x y"
  by (induction rule: list_all2_induct) auto

section \<open>Dictionaries\<close>

text \<open>
  A Python dict keeps insertion order; an update of a present key keeps its place.  A
  dictionary is an association list without repeated keys (\<open>dict_ok\<close>).
\<close>

type_synonym ('k, 'v) dict = "('k \<times> 'v) list"

definition dict_get :: "('k, 'v) dict \<Rightarrow> 'k \<Rightarrow> 'v option" where
  "dict_get d k = map_of d k"

fun dict_set :: "('k, 'v) dict \<Rightarrow> 'k \<Rightarrow> 'v \<Rightarrow> ('k, 'v) dict" where
  "dict_set [] k v = [(k, v)]"
| "dict_set ((k', v') # d) k v = (if k' = k then (k, v) # d else (k', v') # dict_set d k v)"

definition dict_setdefault :: "('k, 'v) dict \<Rightarrow> 'k \<Rightarrow> 'v \<Rightarrow> ('k, 'v) dict" where
  "dict_setdefault d k v = (case dict_get d k of None \<Rightarrow> dict_set d k v | Some _ \<Rightarrow> d)"

definition dict_update :: "('k, 'v) dict \<Rightarrow> ('k, 'v) dict \<Rightarrow> ('k, 'v) dict" where
  "dict_update d e = foldl (\<lambda>acc kv. dict_set acc (fst kv) (snd kv)) d e"

definition dict_keys :: "('k, 'v) dict \<Rightarrow> 'k list" where
  "dict_keys d = map fst d"

definition dict_ok :: "('k, 'v) dict \<Rightarrow> bool" where
  "dict_ok d = distinct (map fst d)"

lemma dict_get_Nil [simp, dict_simps]: "dict_get [] k = None"
  by (simp add: dict_get_def)

lemma dict_get_Cons [simp, dict_simps]:
  "dict_get ((k', v) # d) k = (if k' = k then Some v else dict_get d k)"
  by (simp add: dict_get_def)

lemma dict_get_set [simp, dict_simps]:
  "dict_get (dict_set d k v) k' = (if k' = k then Some v else dict_get d k')"
  by (induction d) (auto simp: dict_get_def)

lemma dict_get_append [dict_simps]:
  "dict_get (d @ e) k = (case dict_get d k of None \<Rightarrow> dict_get e k | Some v \<Rightarrow> Some v)"
  by (induction d) auto

lemma dict_get_None_iff: "dict_get d k = None \<longleftrightarrow> k \<notin> set (dict_keys d)"
  by (auto simp: dict_get_def dict_keys_def map_of_eq_None_iff)

lemma dict_keys_set:
  "dict_keys (dict_set d k v) = (if k \<in> set (dict_keys d) then dict_keys d else dict_keys d @ [k])"
  by (induction d k v rule: dict_set.induct) (auto simp: dict_keys_def rev_image_eqI)

lemma dict_set_fresh: "k \<notin> set (dict_keys d) \<Longrightarrow> dict_set d k v = d @ [(k, v)]"
  by (induction d k v rule: dict_set.induct) (auto simp: dict_keys_def)

lemma dict_ok_set [simp]: "dict_ok d \<Longrightarrow> dict_ok (dict_set d k v)"
  using dict_keys_set [of d k v] by (cases "k \<in> set (dict_keys d)") (simp_all add: dict_ok_def dict_keys_def)

lemma dict_ok_Nil [simp]: "dict_ok []"
  by (simp add: dict_ok_def)

lemma dict_get_mem: "dict_get d k = Some v \<Longrightarrow> (k, v) \<in> set d"
  by (simp add: dict_get_def map_of_SomeD)

lemma dict_get_map: "dict_get (map (\<lambda>(k, v). (k, f v)) d) k = map_option f (dict_get d k)"
  by (induction d) auto

lemma dict_update_Nil [simp]: "dict_update d [] = d"
  by (simp add: dict_update_def)

lemma dict_update_Cons [simp]: "dict_update d ((k, v) # e) = dict_update (dict_set d k v) e"
  by (simp add: dict_update_def)

section \<open>Strings\<close>

definition chr_code :: "char \<Rightarrow> nat" where
  "chr_code c = of_char c"

definition is_digit :: "char \<Rightarrow> bool" where
  "is_digit c = (48 \<le> chr_code c \<and> chr_code c \<le> 57)"

definition is_upper :: "char \<Rightarrow> bool" where
  "is_upper c = (65 \<le> chr_code c \<and> chr_code c \<le> 90)"

definition is_lower :: "char \<Rightarrow> bool" where
  "is_lower c = (97 \<le> chr_code c \<and> chr_code c \<le> 122)"

definition is_alpha :: "char \<Rightarrow> bool" where
  "is_alpha c = (is_upper c \<or> is_lower c)"

text \<open>\<open>str.strip()\<close> removes these: tab to carriage return, the separators 28 to 31, blank.\<close>

definition is_space :: "char \<Rightarrow> bool" where
  "is_space c = (chr_code c \<in> {9, 10, 11, 12, 13, 28, 29, 30, 31, 32})"

definition newline :: char where
  "newline = CHR 0x0A"

definition quote :: char where
  "quote = CHR 0x27"

definition dquote :: char where
  "dquote = CHR 0x22"

definition upper_char :: "char \<Rightarrow> char" where
  "upper_char c = (if is_lower c then char_of (chr_code c - 32) else c)"

definition lower_char :: "char \<Rightarrow> char" where
  "lower_char c = (if is_upper c then char_of (chr_code c + 32) else c)"

definition str_upper :: "string \<Rightarrow> string" where
  "str_upper s = map upper_char s"

definition str_lower :: "string \<Rightarrow> string" where
  "str_lower s = map lower_char s"

definition lstrip :: "(char \<Rightarrow> bool) \<Rightarrow> string \<Rightarrow> string" where
  "lstrip p s = dropWhile p s"

definition rstrip :: "(char \<Rightarrow> bool) \<Rightarrow> string \<Rightarrow> string" where
  "rstrip p s = rev (dropWhile p (rev s))"

definition str_strip :: "string \<Rightarrow> string" where
  "str_strip s = rstrip is_space (lstrip is_space s)"

text \<open>\<open>sep.join(parts)\<close>.\<close>

fun join :: "string \<Rightarrow> string list \<Rightarrow> string" where
  "join sep [] = []"
| "join sep [x] = x"
| "join sep (x # y # ys) = x @ sep @ join sep (y # ys)"

text \<open>Replacement of one character by a string, the use the program makes of \<open>str.replace\<close>.\<close>

definition replace_char :: "char \<Rightarrow> string \<Rightarrow> string \<Rightarrow> string" where
  "replace_char c r s = concat (map (\<lambda>x. if x = c then r else [x]) s)"

text \<open>\<open>text.split(sep, 1)\<close> for one separator character, when it occurs.\<close>

fun split_once :: "char \<Rightarrow> string \<Rightarrow> (string \<times> string) option" where
  "split_once c [] = None"
| "split_once c (x # xs) =
     (if x = c then Some ([], xs)
      else map_option (\<lambda>(a, b). (x # a, b)) (split_once c xs))"

text \<open>\<open>text.split(c)\<close> for one separator character.\<close>

fun split_all :: "char \<Rightarrow> string \<Rightarrow> string list" where
  "split_all c [] = [[]]"
| "split_all c (x # xs) =
     (if x = c then [] # split_all c xs
      else (case split_all c xs of [] \<Rightarrow> [[x]] | p # ps \<Rightarrow> (x # p) # ps))"

fun starts_with :: "string \<Rightarrow> string \<Rightarrow> bool" where
  "starts_with s [] = True"
| "starts_with [] (_ # _) = False"
| "starts_with (x # xs) (p # ps) = (x = p \<and> starts_with xs ps)"

text \<open>\<open>sub in s\<close>.\<close>

fun contains_str :: "string \<Rightarrow> string \<Rightarrow> bool" where
  "contains_str [] p = (p = [])"
| "contains_str (x # xs) p = (starts_with (x # xs) p \<or> contains_str xs p)"

text \<open>
  The anchor \<open>$\<close> of Python's \<open>re\<close> (without \<open>MULTILINE\<close>) matches at the end of the text
  and also just before a newline that ends it; \<open>re_dollar P\<close> is the language of a pattern
  \<open>^P$\<close>.
\<close>

definition re_dollar :: "(string \<Rightarrow> bool) \<Rightarrow> string \<Rightarrow> bool" where
  "re_dollar P s = (P s \<or> (s \<noteq> [] \<and> last s = newline \<and> P (butlast s)))"

subsection \<open>Decimal digits\<close>

definition digit_char :: "nat \<Rightarrow> char" where
  "digit_char d = char_of (48 + d)"

definition digit_val :: "char \<Rightarrow> nat" where
  "digit_val c = chr_code c - 48"

fun str_nat :: "nat \<Rightarrow> string" where
  "str_nat n = (if n < 10 then [digit_char n] else str_nat (n div 10) @ [digit_char (n mod 10)])"

declare str_nat.simps [simp del]

definition str_int :: "int \<Rightarrow> string" where
  "str_int i = (if i < 0 then CHR ''-'' # str_nat (nat (- i)) else str_nat (nat i))"

definition nat_of_digits :: "string \<Rightarrow> nat" where
  "nat_of_digits ds = foldl (\<lambda>acc c. 10 * acc + digit_val c) 0 ds"

text \<open>Zero padding on the left, as in \<open>strftime\<close> fields.\<close>

definition zpad :: "nat \<Rightarrow> nat \<Rightarrow> string" where
  "zpad w n = (let s = str_nat n in replicate (w - length s) (CHR ''0'') @ s)"

lemma chr_code_digit_char [simp]: "d < 10 \<Longrightarrow> chr_code (digit_char d) = 48 + d"
  by (simp add: chr_code_def digit_char_def)

lemma is_digit_digit_char [simp]: "d < 10 \<Longrightarrow> is_digit (digit_char d)"
  by (simp add: is_digit_def)

lemma digit_val_digit_char [simp]: "d < 10 \<Longrightarrow> digit_val (digit_char d) = d"
  by (simp add: digit_val_def)

lemma digit_char_val: "is_digit c \<Longrightarrow> digit_char (digit_val c) = c"
  by (simp add: is_digit_def digit_val_def digit_char_def chr_code_def)

lemma nat_of_digits_Nil [simp]: "nat_of_digits [] = 0"
  by (simp add: nat_of_digits_def)

lemma nat_of_digits_snoc [simp]: "nat_of_digits (ds @ [c]) = 10 * nat_of_digits ds + digit_val c"
  by (simp add: nat_of_digits_def)

lemma nat_of_digits_str_nat [simp]: "nat_of_digits (str_nat n) = n"
proof (induction n rule: str_nat.induct)
  case (1 n)
  show ?case
  proof (cases "n < 10")
    case True
    then have "str_nat n = [] @ [digit_char n]" by (simp add: str_nat.simps [of n])
    with True show ?thesis by (simp only: nat_of_digits_snoc) simp
  next
    case False
    with 1 show ?thesis by (simp add: str_nat.simps [of n])
  qed
qed

lemma str_nat_nonempty [simp]: "str_nat n \<noteq> []"
  by (subst str_nat.simps) simp

lemma str_nat_digits [simp]: "list_all is_digit (str_nat n)"
proof (induction n rule: str_nat.induct)
  case (1 n)
  then show ?case by (cases "n < 10") (simp_all add: str_nat.simps [of n])
qed

lemma str_nat_all_digits: "c \<in> set (str_nat n) \<Longrightarrow> is_digit c"
  using str_nat_digits [of n] by (simp add: list_all_iff)

lemma str_nat_hd_digit: "is_digit (hd (str_nat n))"
  using str_nat_digits [of n] by (cases "str_nat n") auto

lemma nat_of_digits_replicate0 [simp]:
  "nat_of_digits (replicate k (CHR ''0'') @ ds) = nat_of_digits ds"
proof -
  have "foldl (\<lambda>acc c. 10 * acc + digit_val c) 0 (replicate k (CHR ''0'')) = 0"
    by (induction k) (simp_all add: digit_val_def chr_code_def)
  then show ?thesis by (simp add: nat_of_digits_def)
qed

lemma nat_of_digits_zpad [simp]: "nat_of_digits (zpad w n) = n"
  by (simp add: zpad_def Let_def)

lemma zpad_digits [simp]: "list_all is_digit (zpad w n)"
proof -
  have "is_digit (CHR ''0'')" by (simp add: is_digit_def chr_code_def)
  then show ?thesis by (auto simp: zpad_def Let_def list_all_iff dest: str_nat_all_digits)
qed

lemma length_str_nat_le: "n < 10 ^ w \<Longrightarrow> 0 < w \<Longrightarrow> length (str_nat n) \<le> w"
proof (induction n arbitrary: w rule: str_nat.induct)
  case (1 n)
  show ?case
  proof (cases "n < 10")
    case True
    with 1(3) show ?thesis by (simp add: str_nat.simps [of n])
  next
    case False
    obtain v where w: "w = Suc v" using 1(3) by (cases w) auto
    have v: "0 < v" using False 1(2) w by (cases v) auto
    have "n div 10 < 10 ^ v" using 1(2) w by (simp add: less_mult_imp_div_less mult.commute)
    with 1(1) [OF False, of v] v False w show ?thesis by (simp add: str_nat.simps [of n])
  qed
qed

lemma length_zpad [simp]: "n < 10 ^ w \<Longrightarrow> 0 < w \<Longrightarrow> length (zpad w n) = w"
  using length_str_nat_le [of n w] by (simp add: zpad_def Let_def)

subsection \<open>Facts about strings\<close>

lemma join_singleton [simp]: "join sep [x] = x"
  by simp

lemma join_Cons: "xs \<noteq> [] \<Longrightarrow> join sep (x # xs) = x @ sep @ join sep xs"
  by (cases xs) auto

lemma set_join: "c \<in> set (join sep xs) \<Longrightarrow> c \<in> set sep \<or> (\<exists>x\<in>set xs. c \<in> set x)"
  by (induction sep xs rule: join.induct) auto

lemma replace_char_absent [simp]: "c \<notin> set s \<Longrightarrow> replace_char c r s = s"
  by (induction s) (auto simp: replace_char_def)

lemma starts_with_append [simp]: "starts_with (p @ s) p"
  by (induction p) auto

lemma starts_with_iff: "starts_with s p \<longleftrightarrow> (\<exists>t. s = p @ t)"
  by (induction s p rule: starts_with.induct) auto

lemma split_once_append: "c \<notin> set a \<Longrightarrow> split_once c (a @ c # b) = Some (a, b)"
  by (induction a) auto

lemma split_once_Some: "split_once c s = Some (a, b) \<longleftrightarrow> s = a @ c # b \<and> c \<notin> set a"
  by (induction s arbitrary: a b) (auto simp: Cons_eq_append_conv)

lemma split_once_None: "split_once c s = None \<longleftrightarrow> c \<notin> set s"
  by (induction s) auto

lemma split_all_nonempty [simp]: "split_all c s \<noteq> []"
  by (induction s) (auto split: list.splits)

lemma split_all_absent [simp]: "c \<notin> set s \<Longrightarrow> split_all c s = [s]"
  by (induction s) auto

lemma split_all_append: "c \<notin> set a \<Longrightarrow> split_all c (a @ c # b) = a # split_all c b"
  by (induction a) auto

lemma chr_code_lt: "chr_code c < 256"
  using nat_of_char_less_256 [of c] by (simp add: chr_code_def)

lemma chr_code_char_of [simp]: "n < 256 \<Longrightarrow> chr_code (char_of n) = n"
  by (simp add: chr_code_def)

lemma upper_char_idem [simp]: "upper_char (upper_char c) = upper_char c"
  by (auto simp: upper_char_def is_lower_def)

lemma lower_char_idem [simp]: "lower_char (lower_char c) = lower_char c"
  by (auto simp: lower_char_def is_upper_def)

lemma upper_lower_char [simp]: "upper_char (lower_char c) = upper_char c"
  by (auto simp: upper_char_def lower_char_def is_upper_def is_lower_def chr_code_def)

lemma str_upper_idem [simp]: "str_upper (str_upper s) = str_upper s"
  by (simp add: str_upper_def)

lemma str_lower_idem [simp]: "str_lower (str_lower s) = str_lower s"
  by (simp add: str_lower_def)

lemma str_upper_lower [simp]: "str_upper (str_lower s) = str_upper s"
  by (simp add: str_upper_def str_lower_def)

lemma str_upper_Nil_iff [simp]: "str_upper s = [] \<longleftrightarrow> s = []"
  by (simp add: str_upper_def)

text \<open>A string without white space at its ends is its own \<open>strip\<close>.\<close>

lemma str_strip_id:
  assumes "s = [] \<or> (\<not> is_space (hd s) \<and> \<not> is_space (last s))"
  shows "str_strip s = s"
proof (cases s)
  case (Cons a t)
  with assms have "dropWhile is_space s = s" by simp
  moreover have "\<not> is_space (hd (rev s))" using Cons assms by (metis hd_rev list.distinct(1))
  then have "dropWhile is_space (rev s) = rev s"
    by (cases "rev s") simp_all
  ultimately show ?thesis by (simp add: str_strip_def rstrip_def lstrip_def)
qed (simp add: str_strip_def rstrip_def lstrip_def)

lemma digit_not_space [simp]: "is_digit c \<Longrightarrow> \<not> is_space c"
  by (auto simp: is_digit_def is_space_def)

subsection \<open>Evaluation\<close>

text \<open>
  Closed terms are evaluated by the simplifier with the collection \<open>evals\<close>: the character
  classes reduce to comparisons of numerals, the digit characters to a table.
\<close>

lemma digit_char_table:
  "digit_char 0 = CHR ''0''" "digit_char (Suc 0) = CHR ''1''" "digit_char 1 = CHR ''1''"
  "digit_char 2 = CHR ''2''" "digit_char 3 = CHR ''3''" "digit_char 4 = CHR ''4''"
  "digit_char 5 = CHR ''5''" "digit_char 6 = CHR ''6''" "digit_char 7 = CHR ''7''"
  "digit_char 8 = CHR ''8''" "digit_char 9 = CHR ''9''"
  by code_simp+

lemma letter_code_table:
  "char_of (65::nat) = CHR ''A''" "char_of (66::nat) = CHR ''B''" "char_of (67::nat) = CHR ''C''"
  "char_of (68::nat) = CHR ''D''" "char_of (69::nat) = CHR ''E''" "char_of (70::nat) = CHR ''F''"
  "char_of (71::nat) = CHR ''G''" "char_of (72::nat) = CHR ''H''" "char_of (73::nat) = CHR ''I''"
  "char_of (74::nat) = CHR ''J''" "char_of (75::nat) = CHR ''K''" "char_of (76::nat) = CHR ''L''"
  "char_of (77::nat) = CHR ''M''" "char_of (78::nat) = CHR ''N''" "char_of (79::nat) = CHR ''O''"
  "char_of (80::nat) = CHR ''P''" "char_of (81::nat) = CHR ''Q''" "char_of (82::nat) = CHR ''R''"
  "char_of (83::nat) = CHR ''S''" "char_of (84::nat) = CHR ''T''" "char_of (85::nat) = CHR ''U''"
  "char_of (86::nat) = CHR ''V''" "char_of (87::nat) = CHR ''W''" "char_of (88::nat) = CHR ''X''"
  "char_of (89::nat) = CHR ''Y''" "char_of (90::nat) = CHR ''Z''"
  "char_of (97::nat) = CHR ''a''" "char_of (98::nat) = CHR ''b''" "char_of (99::nat) = CHR ''c''"
  "char_of (100::nat) = CHR ''d''" "char_of (101::nat) = CHR ''e''" "char_of (102::nat) = CHR ''f''"
  "char_of (103::nat) = CHR ''g''" "char_of (104::nat) = CHR ''h''" "char_of (105::nat) = CHR ''i''"
  "char_of (106::nat) = CHR ''j''" "char_of (107::nat) = CHR ''k''" "char_of (108::nat) = CHR ''l''"
  "char_of (109::nat) = CHR ''m''" "char_of (110::nat) = CHR ''n''" "char_of (111::nat) = CHR ''o''"
  "char_of (112::nat) = CHR ''p''" "char_of (113::nat) = CHR ''q''" "char_of (114::nat) = CHR ''r''"
  "char_of (115::nat) = CHR ''s''" "char_of (116::nat) = CHR ''t''" "char_of (117::nat) = CHR ''u''"
  "char_of (118::nat) = CHR ''v''" "char_of (119::nat) = CHR ''w''" "char_of (120::nat) = CHR ''x''"
  "char_of (121::nat) = CHR ''y''" "char_of (122::nat) = CHR ''z''"
  by code_simp+

declare digit_char_table [evals] letter_code_table [evals]
declare chr_code_def [evals] is_digit_def [evals] is_upper_def [evals] is_lower_def [evals]
  is_alpha_def [evals] is_space_def [evals] newline_def [evals] quote_def [evals]
  dquote_def [evals] upper_char_def [evals] lower_char_def [evals] str_upper_def [evals]
  str_lower_def [evals] lstrip_def [evals] rstrip_def [evals] str_strip_def [evals]
  replace_char_def [evals] re_dollar_def [evals] digit_val_def [evals] str_nat.simps [evals]
  str_int_def [evals] nat_of_digits_def [evals] zpad_def [evals]

subsection \<open>Sorting\<close>

text \<open>
  \<open>sorted(set(...))\<close> over strings: in code point order, without repetitions.
\<close>

definition sorted_set :: "'a::linorder list \<Rightarrow> 'a list" where
  "sorted_set xs = sort (remdups xs)"

declare sorted_set_def [evals]

lemma set_sorted_set [simp]: "set (sorted_set xs) = set xs"
  by (simp add: sorted_set_def)

lemma sorted_sorted_set [simp]: "sorted (sorted_set xs)"
  by (simp add: sorted_set_def)

lemma distinct_sorted_set [simp]: "distinct (sorted_set xs)"
  by (simp add: sorted_set_def)

end
