(* ===== verification/PyTime.thy ===== *)
theory PyTime
  imports Prelude
begin

text \<open>
  The part of Python's \<open>datetime\<close> module the program relies on: calendar dates and naive
  timestamps with their order, the proleptic Gregorian ordinal, subtraction of a time span
  (in microseconds) with the \<open>OverflowError\<close> outside the years 1 to 9999, \<open>strftime\<close> for
  the two canonical formats and \<open>strptime\<close> for the three accepted ones.
\<close>

section \<open>Dates and timestamps\<close>

datatype pdate = PDate (d_year: nat) (d_month: nat) (d_day: nat)

datatype pdatetime =
  PDatetime (dt_date: pdate) (dt_hour: nat) (dt_minute: nat) (dt_second: nat) (dt_micro: nat)

definition is_leap :: "nat \<Rightarrow> bool" where
  "is_leap y = (y mod 4 = 0 \<and> (y mod 100 \<noteq> 0 \<or> y mod 400 = 0))"

definition days_in_month :: "nat \<Rightarrow> nat \<Rightarrow> nat" where
  "days_in_month y m =
     (if m = 2 then (if is_leap y then 29 else 28)
      else if m \<in> {4, 6, 9, 11} then 30 else 31)"

definition valid_date :: "pdate \<Rightarrow> bool" where
  "valid_date d =
     (1 \<le> d_year d \<and> d_year d \<le> 9999 \<and> 1 \<le> d_month d \<and> d_month d \<le> 12 \<and>
      1 \<le> d_day d \<and> d_day d \<le> days_in_month (d_year d) (d_month d))"

definition valid_datetime :: "pdatetime \<Rightarrow> bool" where
  "valid_datetime t =
     (valid_date (dt_date t) \<and> dt_hour t < 24 \<and> dt_minute t < 60 \<and> dt_second t < 60 \<and>
      dt_micro t < 1000000)"

text \<open>The comparison of the C implementation: field by field, most significant first.\<close>

definition date_key :: "pdate \<Rightarrow> nat list" where
  "date_key d = [d_year d, d_month d, d_day d]"

definition datetime_key :: "pdatetime \<Rightarrow> nat list" where
  "datetime_key t =
     date_key (dt_date t) @ [dt_hour t, dt_minute t, dt_second t, dt_micro t]"

lemma date_key_inj [simp]: "date_key a = date_key b \<longleftrightarrow> a = b"
  by (cases a; cases b) (auto simp: date_key_def)

lemma datetime_key_inj [simp]: "datetime_key a = datetime_key b \<longleftrightarrow> a = b"
  by (cases a; cases b) (auto simp: datetime_key_def)

instantiation pdate :: linorder
begin

definition less_eq_pdate :: "pdate \<Rightarrow> pdate \<Rightarrow> bool" where
  "a \<le> b \<longleftrightarrow> date_key a \<le> date_key b"

definition less_pdate :: "pdate \<Rightarrow> pdate \<Rightarrow> bool" where
  "a < b \<longleftrightarrow> date_key a < date_key b"

instance
  by standard (auto simp: less_eq_pdate_def less_pdate_def dest: antisym)

end

instantiation pdatetime :: linorder
begin

definition less_eq_pdatetime :: "pdatetime \<Rightarrow> pdatetime \<Rightarrow> bool" where
  "a \<le> b \<longleftrightarrow> datetime_key a \<le> datetime_key b"

definition less_pdatetime :: "pdatetime \<Rightarrow> pdatetime \<Rightarrow> bool" where
  "a < b \<longleftrightarrow> datetime_key a < datetime_key b"

instance
  by standard (auto simp: less_eq_pdatetime_def less_pdatetime_def dest: antisym)

end

section \<open>Ordinals\<close>

definition days_before_year :: "nat \<Rightarrow> nat" where
  "days_before_year y =
     (let p = y - 1 in p * 365 + p div 4 - p div 100 + p div 400)"

definition days_before_month :: "nat \<Rightarrow> nat \<Rightarrow> nat" where
  "days_before_month y m = sum_list (map (days_in_month y) [1..<m])"

definition toordinal :: "pdate \<Rightarrow> nat" where
  "toordinal d = days_before_year (d_year d) + days_before_month (d_year d) (d_month d) + d_day d"

text \<open>The inverse, by search downwards from an upper estimate.\<close>

fun find_year :: "nat \<Rightarrow> nat \<Rightarrow> nat" where
  "find_year 0 n = 0"
| "find_year (Suc y) n = (if y = 0 \<or> days_before_year (Suc y) < n then Suc y else find_year y n)"

fun find_month :: "nat \<Rightarrow> nat \<Rightarrow> nat \<Rightarrow> nat" where
  "find_month y 0 r = 0"
| "find_month y (Suc m) r =
     (if m = 0 \<or> days_before_month y (Suc m) < r then Suc m else find_month y m r)"

definition fromordinal :: "nat \<Rightarrow> pdate" where
  "fromordinal n =
     (let y = find_year (n div 365 + 1) n;
          r = n - days_before_year y;
          m = find_month y 12 r
      in PDate y m (r - days_before_month y m))"

definition max_ordinal :: nat where
  "max_ordinal = 3652059"

text \<open>A timestamp as microseconds since the (fictitious) ordinal 0.\<close>

definition us_per_day :: int where
  "us_per_day = 86400000000"

definition time_us :: "pdatetime \<Rightarrow> nat" where
  "time_us t =
     ((dt_hour t * 60 + dt_minute t) * 60 + dt_second t) * 1000000 + dt_micro t"

definition datetime_us :: "pdatetime \<Rightarrow> int" where
  "datetime_us t = int (toordinal (dt_date t)) * us_per_day + int (time_us t)"

definition of_time_us :: "pdate \<Rightarrow> nat \<Rightarrow> pdatetime" where
  "of_time_us d u =
     PDatetime d (u div 3600000000) (u div 60000000 mod 60) (u div 1000000 mod 60)
       (u mod 1000000)"

text \<open>\<open>datetime - timedelta\<close>, the span in microseconds.\<close>

definition datetime_sub :: "pdatetime \<Rightarrow> int \<Rightarrow> pdatetime res" where
  "datetime_sub t delta =
     (let u = datetime_us t - delta; o' = u div us_per_day in
      if 1 \<le> o' \<and> o' \<le> int max_ordinal
      then Inr (of_time_us (fromordinal (nat o')) (nat (u mod us_per_day)))
      else Inl OverflowError)"

definition midnight :: "pdate \<Rightarrow> pdatetime" where
  "midnight d = PDatetime d 0 0 0 0"

subsection \<open>Correctness of the ordinals\<close>

lemma days_before_year_1 [simp]: "days_before_year (Suc 0) = 0"
  by (simp add: days_before_year_def)

lemma days_before_year_Suc:
  assumes "1 \<le> y"
  shows "days_before_year (Suc y) = days_before_year y + (if is_leap y then 366 else 365)"
proof -
  obtain p where y: "y = Suc p" using assms by (cases y) auto
  define a b c where abc: "a = p div 4" "b = p div 100" "c = p div 400"
  have le: "b \<le> a" unfolding abc by (simp add: div_le_mono2)
  have dv: "Suc p div 4 = (if Suc p mod 4 = 0 then Suc a else a)"
    "Suc p div 100 = (if Suc p mod 100 = 0 then Suc b else b)"
    "Suc p div 400 = (if Suc p mod 400 = 0 then Suc c else c)"
    by (simp_all add: abc div_Suc)
  have "(100::nat) dvd 400" "(4::nat) dvd 100" by simp_all
  then have md: "Suc p mod 400 = 0 \<Longrightarrow> Suc p mod 100 = 0" "Suc p mod 100 = 0 \<Longrightarrow> Suc p mod 4 = 0"
    by (metis dvd_eq_mod_eq_0 dvd_trans)+
  have l: "days_before_year (Suc y) = Suc p * 365 + Suc p div 4 - Suc p div 100 + Suc p div 400"
    by (simp only: days_before_year_def Let_def y diff_Suc_1)
  have r: "days_before_year y = p * 365 + a - b + c"
    by (simp only: days_before_year_def Let_def y diff_Suc_1 abc)
  show ?thesis
    unfolding l r dv is_leap_def unfolding y using le md
    by (cases "Suc p mod 4 = 0"; cases "Suc p mod 100 = 0"; cases "Suc p mod 400 = 0") simp_all
qed

lemma days_before_year_mono: "1 \<le> y \<Longrightarrow> y \<le> z \<Longrightarrow> days_before_year y \<le> days_before_year z"
proof (induction z)
  case (Suc z)
  then show ?case by (cases "y = Suc z") (auto simp: days_before_year_Suc)
qed simp

lemma days_before_month_Suc:
  "1 \<le> m \<Longrightarrow> days_before_month y (Suc m) = days_before_month y m + days_in_month y m"
  by (simp add: days_before_month_def)

lemma days_before_month_1 [simp]: "days_before_month y (Suc 0) = 0"
  by (simp add: days_before_month_def)

lemma days_before_month_mono: "m \<le> k \<Longrightarrow> days_before_month y m \<le> days_before_month y k"
proof (induction k)
  case (Suc k)
  then show ?case by (cases "m = Suc k") (auto simp: days_before_month_def)
qed simp

lemma days_before_month_13:
  "days_before_month y 13 = (if is_leap y then 366 else 365)"
proof -
  have "[1..<13] = [1, 2, 3, 4, 5, 6, 7, 8, 9, 10, 11, 12 :: nat]" by (simp add: upt_rec)
  then show ?thesis by (simp add: days_before_month_def days_in_month_def)
qed

lemma day_of_year_le:
  assumes "1 \<le> m" "m \<le> 12" "d \<le> days_in_month y m"
  shows "days_before_month y m + d \<le> (if is_leap y then 366 else 365)"
proof -
  have "days_before_month y m + d \<le> days_before_month y (Suc m)"
    using assms by (simp add: days_before_month_Suc)
  also have "\<dots> \<le> days_before_month y 13"
    using assms by (intro days_before_month_mono) simp
  finally show ?thesis by (simp add: days_before_month_13)
qed

lemma toordinal_year_bounds:
  assumes "valid_date d"
  shows "days_before_year (d_year d) < toordinal d"
    "toordinal d \<le> days_before_year (Suc (d_year d))"
  using assms day_of_year_le [of "d_month d" "d_day d" "d_year d"]
  by (auto simp: valid_date_def toordinal_def days_before_year_Suc)

lemma find_year_eq:
  assumes "1 \<le> y" "y \<le> k" "days_before_year y < n" "n \<le> days_before_year (Suc y)"
  shows "find_year k n = y"
  using assms(2)
proof (induction k)
  case (Suc k)
  show ?case
  proof (cases "y = Suc k")
    case False
    with Suc.prems have "y \<le> k" by simp
    with assms have "n \<le> days_before_year (Suc k)"
      using days_before_year_mono [of "Suc y" "Suc k"] by simp
    with \<open>y \<le> k\<close> assms(1) Suc.IH show ?thesis by auto
  qed (use assms in auto)
qed (use assms in auto)

lemma find_month_eq:
  assumes "1 \<le> m" "m \<le> k" "days_before_month y m < r" "r \<le> days_before_month y (Suc m)"
  shows "find_month y k r = m"
  using assms(2)
proof (induction k)
  case (Suc k)
  show ?case
  proof (cases "m = Suc k")
    case False
    with Suc.prems have "m \<le> k" by simp
    with assms have "r \<le> days_before_month y (Suc k)"
      using days_before_month_mono [of "Suc m" "Suc k" y] by simp
    with \<open>m \<le> k\<close> assms(1) Suc.IH show ?thesis by auto
  qed (use assms in auto)
qed (use assms in auto)

lemma year_le_ordinal_estimate:
  assumes "1 \<le> y" "days_before_year y < n"
  shows "y \<le> n div 365 + 1"
proof -
  have "(y - 1) div 100 \<le> (y - 1) div 4" by (simp add: div_le_mono2)
  then have "(y - 1) * 365 \<le> days_before_year y"
    unfolding days_before_year_def Let_def by linarith
  with assms(2) have "(y - 1) * 365 \<le> n" by simp
  then have "y - 1 \<le> n div 365" by (simp add: less_eq_div_iff_mult_less_eq)
  then show ?thesis by simp
qed

lemma fromordinal_toordinal:
  assumes "valid_date d"
  shows "fromordinal (toordinal d) = d"
proof -
  obtain y m k where d: "d = PDate y m k" by (cases d)
  note b = toordinal_year_bounds [OF assms, unfolded d]
  have v: "1 \<le> y" "1 \<le> m" "m \<le> 12" "1 \<le> k" "k \<le> days_in_month y m"
    using assms by (auto simp: valid_date_def d)
  have "find_year (toordinal d div 365 + 1) (toordinal d) = y"
    using b v(1) unfolding d by (intro find_year_eq year_le_ordinal_estimate) auto
  moreover have "find_month y 12 (days_before_month y m + k) = m"
    using v by (intro find_month_eq) (auto simp: days_before_month_Suc)
  moreover have "toordinal d - days_before_year y = days_before_month y m + k"
    by (simp add: d toordinal_def)
  ultimately show ?thesis by (simp add: fromordinal_def Let_def d)
qed

lemma find_year_bounds:
  "1 \<le> k \<Longrightarrow> 1 \<le> n \<Longrightarrow> n \<le> days_before_year (Suc k) \<Longrightarrow>
   1 \<le> find_year k n \<and> find_year k n \<le> k \<and> days_before_year (find_year k n) < n \<and>
   n \<le> days_before_year (Suc (find_year k n))"
proof (induction k)
  case (Suc k)
  then show ?case by (cases "k = 0") (auto simp: not_less)
qed simp

lemma find_month_bounds:
  "1 \<le> k \<Longrightarrow> 1 \<le> r \<Longrightarrow> r \<le> days_before_month y (Suc k) \<Longrightarrow>
   1 \<le> find_month y k r \<and> find_month y k r \<le> k \<and> days_before_month y (find_month y k r) < r \<and>
   r \<le> days_before_month y (Suc (find_month y k r))"
proof (induction k)
  case (Suc k)
  then show ?case by (cases "k = 0") (auto simp: not_less)
qed simp

lemma days_before_year_10000: "days_before_year 10000 = max_ordinal"
  by (simp add: days_before_year_def max_ordinal_def)

lemma fromordinal_correct:
  assumes "1 \<le> n" "n \<le> max_ordinal"
  shows "valid_date (fromordinal n) \<and> toordinal (fromordinal n) = n"
proof -
  define k where "k = n div 365 + 1"
  define y where "y = find_year k n"
  define r where "r = n - days_before_year y"
  define m where "m = find_month y 12 r"
  have "n \<le> k * 365" unfolding k_def using dividend_less_times_div [of 365 n] by simp
  moreover have "k * 365 \<le> days_before_year (Suc k)"
    using div_le_mono2 [of 4 100 k] unfolding days_before_year_def Let_def by simp
  ultimately have y: "1 \<le> y" "days_before_year y < n" "n \<le> days_before_year (Suc y)"
    unfolding y_def using find_year_bounds [of k n] assms(1) by (auto simp: k_def)
  have "y \<le> 9999"
  proof (rule ccontr)
    assume "\<not> y \<le> 9999"
    then have "days_before_year 10000 \<le> days_before_year y"
      by (intro days_before_year_mono) auto
    with y(2) assms(2) show False by (simp add: days_before_year_10000)
  qed
  have r: "1 \<le> r" "r \<le> days_before_month y (Suc 12)"
    using y by (auto simp: r_def days_before_year_Suc days_before_month_13)
  have m: "1 \<le> m" "m \<le> 12" "days_before_month y m < r" "r \<le> days_before_month y (Suc m)"
    unfolding m_def using find_month_bounds [OF _ r] by auto
  have f: "fromordinal n = PDate y m (r - days_before_month y m)"
    by (simp add: fromordinal_def Let_def y_def r_def m_def k_def)
  show ?thesis
    using y r m \<open>y \<le> 9999\<close>
    by (auto simp: f valid_date_def toordinal_def days_before_month_Suc r_def)
qed

lemma toordinal_ge_1: "valid_date d \<Longrightarrow> 1 \<le> toordinal d"
  by (simp add: valid_date_def toordinal_def)

lemma toordinal_le_max: "valid_date d \<Longrightarrow> toordinal d \<le> max_ordinal"
  using toordinal_year_bounds(2) [of d] days_before_year_mono [of "Suc (d_year d)" 10000]
  by (simp add: valid_date_def days_before_year_10000)

lemma toordinal_less:
  assumes "valid_date a" "valid_date b" "a < b"
  shows "toordinal a < toordinal b"
proof -
  obtain y m d y' m' d' where ab: "a = PDate y m d" "b = PDate y' m' d'"
    by (cases a; cases b)
  consider "y < y'" | "y = y'" "m < m'" | "y = y'" "m = m'" "d < d'"
    using assms(3) by (auto simp: ab less_pdate_def date_key_def)
  then show ?thesis
  proof cases
    case 1
    have "days_before_year (Suc y) \<le> days_before_year y'"
      using 1 by (intro days_before_year_mono) auto
    with toordinal_year_bounds [OF assms(1)] toordinal_year_bounds [OF assms(2)] ab
    show ?thesis by simp
  next
    case 2
    have "days_before_month y (Suc m) \<le> days_before_month y m'"
      using 2 by (intro days_before_month_mono) auto
    with 2 assms(1,2) show ?thesis
      by (simp add: ab toordinal_def valid_date_def days_before_month_Suc)
  qed (simp add: ab toordinal_def)
qed

lemma toordinal_less_iff:
  "valid_date a \<Longrightarrow> valid_date b \<Longrightarrow> toordinal a < toordinal b \<longleftrightarrow> a < b"
  by (metis toordinal_less linorder_less_linear order_less_asym)

subsection \<open>Microseconds\<close>

lemma time_us_lt: "valid_datetime t \<Longrightarrow> int (time_us t) < us_per_day"
  by (simp add: valid_datetime_def time_us_def us_per_day_def)

lemma of_time_us_time_us:
  assumes "valid_datetime t"
  shows "of_time_us (dt_date t) (time_us t) = t"
proof -
  obtain d h mi s u where t: "t = PDatetime d h mi s u" by (cases t)
  have v: "h < 24" "mi < 60" "s < 60" "u < 1000000"
    using assms by (auto simp: valid_datetime_def t)
  have a: "time_us t = u + 1000000 * (s + 60 * (mi + 60 * h))"
    by (simp add: time_us_def t)
  have q1: "time_us t div 1000000 = s + 60 * (mi + 60 * h)"
    unfolding a using v by simp
  have q2: "time_us t mod 1000000 = u"
    unfolding a using v by (simp only: mod_mult_self2 mod_less)
  have c: "n div 60000000 = n div 1000000 div 60" "n div 3600000000 = n div 1000000 div 60 div 60"
    for n :: nat
    by (simp_all add: div_mult2_eq [symmetric])
  have e: "(x + 60 * z) div 60 = z" "(x + 60 * z) mod 60 = x" if "x < 60" for x z :: nat
    using that by (simp, simp only: mod_mult_self2 mod_less)
  show ?thesis
    unfolding of_time_us_def c q1 q2 e [OF v(3)] e [OF v(2)] by (simp add: t)
qed

lemma time_us_of_time_us:
  assumes "int u < us_per_day"
  shows "time_us (of_time_us d u) = u"
proof -
  have c: "u div 60000000 = u div 1000000 div 60" "u div 3600000000 = u div 1000000 div 60 div 60"
    by (simp_all add: div_mult2_eq [symmetric])
  define q where "q = u div 1000000"
  have "(q div 60 div 60 * 60 + q div 60 mod 60) * 60 + q mod 60 = q"
    by (simp add: div_mult_mod_eq)
  then have "time_us (of_time_us d u) = q * 1000000 + u mod 1000000"
    by (simp add: time_us_def of_time_us_def c q_def)
  then show ?thesis by (simp add: q_def div_mult_mod_eq)
qed

lemma valid_of_time_us:
  assumes "valid_date d" "int u < us_per_day"
  shows "valid_datetime (of_time_us d u)"
proof -
  have "u < 24 * 3600000000" using assms(2) by (simp add: us_per_day_def)
  then have "u div 3600000000 < 24" by (simp add: less_mult_imp_div_less)
  then show ?thesis using assms(1) by (simp add: valid_datetime_def of_time_us_def)
qed

lemma datetime_us_less_iff:
  assumes "valid_datetime a" "valid_datetime b"
  shows "datetime_us a < datetime_us b \<longleftrightarrow> a < b"
proof -
  have key: "datetime_us s < datetime_us t"
    if "valid_datetime s" "valid_datetime t" "s < t" for s t
  proof -
    obtain d h mi x u d' h' mi' x' u' where st: "s = PDatetime d h mi x u" "t = PDatetime d' h' mi' x' u'"
      by (cases s; cases t)
    have dv: "valid_date d" "valid_date d'" using that by (auto simp: st valid_datetime_def)
    show ?thesis
    proof (cases "d = d'")
      case True
      with that show ?thesis
        by (auto simp: st less_pdatetime_def datetime_key_def datetime_us_def time_us_def
            valid_datetime_def date_key_def)
    next
      case False
      with that(3) have "d < d'"
        by (auto simp: st less_pdatetime_def less_pdate_def datetime_key_def date_key_def
            split: if_splits intro: pdate.expand)
      then have "int (toordinal d) + 1 \<le> int (toordinal d')"
        using toordinal_less [OF dv] by simp
      then have "(int (toordinal d) + 1) * us_per_day \<le> int (toordinal d') * us_per_day"
        by (rule mult_right_mono) (simp add: us_per_day_def)
      with time_us_lt [OF that(1)] show ?thesis
        by (simp add: st datetime_us_def distrib_right)
    qed
  qed
  show ?thesis
    using key [OF assms] key [OF assms(2,1)] by (metis linorder_less_linear order_less_asym)
qed

text \<open>Subtraction is exact: the result is a valid timestamp, that many microseconds earlier.\<close>

lemma datetime_sub_exact:
  assumes "valid_datetime t" "datetime_sub t delta = Inr s"
  shows "valid_datetime s \<and> datetime_us s = datetime_us t - delta"
proof -
  define u where "u = datetime_us t - delta"
  define n where "n = u div us_per_day"
  have n: "1 \<le> n" "n \<le> int max_ordinal"
    and s: "s = of_time_us (fromordinal (nat n)) (nat (u mod us_per_day))"
    using assms(2) by (auto simp: datetime_sub_def Let_def u_def n_def split: if_splits)
  have pos: "0 < us_per_day" by (simp add: us_per_day_def)
  have m: "int (nat (u mod us_per_day)) < us_per_day" "0 \<le> u mod us_per_day"
    using pos by simp_all
  have f: "valid_date (fromordinal (nat n))" "toordinal (fromordinal (nat n)) = nat n"
    using fromordinal_correct [of "nat n"] n by auto
  have "valid_datetime s" unfolding s by (rule valid_of_time_us [OF f(1) m(1)])
  moreover have "datetime_us s = n * us_per_day + u mod us_per_day"
    using n m by (simp add: s datetime_us_def time_us_of_time_us) (simp add: of_time_us_def f(2))
  ultimately show ?thesis by (simp add: n_def u_def)
qed

lemma datetime_sub_zero:
  assumes "valid_datetime t"
  shows "datetime_sub t 0 = Inr t"
proof -
  have v: "valid_date (dt_date t)" using assms by (simp add: valid_datetime_def)
  have pos: "0 < us_per_day" by (simp add: us_per_day_def)
  have d: "datetime_us t div us_per_day = int (toordinal (dt_date t))"
    "datetime_us t mod us_per_day = int (time_us t)"
    using time_us_lt [OF assms] pos by (simp_all add: datetime_us_def)
  show ?thesis
    using toordinal_ge_1 [OF v] toordinal_le_max [OF v] of_time_us_time_us [OF assms]
    by (simp add: datetime_sub_def Let_def d fromordinal_toordinal [OF v])
qed

section \<open>Formatting and parsing\<close>

text \<open>\<open>strftime("%Y-%m-%d")\<close> and \<open>strftime("%Y-%m-%d %H:%M:%S.%f")\<close>.\<close>

definition format_date :: "pdate \<Rightarrow> string" where
  "format_date d = zpad 4 (d_year d) @ ''-'' @ zpad 2 (d_month d) @ ''-'' @ zpad 2 (d_day d)"

definition format_hms :: "pdatetime \<Rightarrow> string" where
  "format_hms t = zpad 2 (dt_hour t) @ '':'' @ zpad 2 (dt_minute t) @ '':'' @ zpad 2 (dt_second t)"

definition format_timestamp :: "pdatetime \<Rightarrow> string" where
  "format_timestamp t =
     format_date (dt_date t) @ '' '' @ format_hms t @ ''.'' @ zpad 6 (dt_micro t)"

text \<open>\<open>str(datetime)\<close>: the fraction only when there is one.\<close>

definition str_datetime :: "pdatetime \<Rightarrow> string" where
  "str_datetime t =
     format_date (dt_date t) @ '' '' @ format_hms t @
     (if dt_micro t = 0 then [] else ''.'' @ zpad 6 (dt_micro t))"

text \<open>
  The fields of \<open>strptime\<close>: up to \<open>w\<close> digits with a value in range.  The day of the month
  may also be a blank and a digit.  Seconds 60 and 61 pass the pattern of \<open>strptime\<close> and
  are then refused by the constructor of \<open>datetime\<close>, so they are out of range here.
\<close>

definition num_field :: "nat \<Rightarrow> nat \<Rightarrow> nat \<Rightarrow> string \<Rightarrow> nat option" where
  "num_field w lo hi s =
     (let v = nat_of_digits s in
      if s \<noteq> [] \<and> length s \<le> w \<and> list_all is_digit s \<and> lo \<le> v \<and> v \<le> hi then Some v else None)"

definition year_field :: "string \<Rightarrow> nat option" where
  "year_field s = (if length s = 4 then num_field 4 1 9999 s else None)"

definition day_field :: "string \<Rightarrow> nat option" where
  "day_field s =
     (case s of
        c # t \<Rightarrow> if c = CHR '' '' then num_field 1 1 9 t else num_field 2 1 31 s
      | [] \<Rightarrow> None)"

definition span_digits :: "string \<Rightarrow> string \<times> string" where
  "span_digits s = (takeWhile is_digit s, dropWhile is_digit s)"

definition span_day :: "string \<Rightarrow> string \<times> string" where
  "span_day s =
     (case s of
        a # b # t \<Rightarrow> if a = CHR '' '' then ([a, b], t) else span_digits s
      | _ \<Rightarrow> span_digits s)"

text \<open>The part \<open>%Y-%m-%d\<close> shared by the three formats, with the unread rest.\<close>

definition strptime_date_prefix :: "string \<Rightarrow> (pdate \<times> string) option" where
  "strptime_date_prefix s =
     Option.bind (split_once (CHR ''-'') s) (\<lambda>(ys, r1).
     Option.bind (split_once (CHR ''-'') r1) (\<lambda>(ms, r2).
     let (ds, rest) = span_day r2 in
     Option.bind (year_field ys) (\<lambda>y.
     Option.bind (num_field 2 1 12 ms) (\<lambda>m.
     Option.bind (day_field ds) (\<lambda>d.
     if valid_date (PDate y m d) then Some (PDate y m d, rest) else None)))))"

definition strptime_date :: "string \<Rightarrow> pdatetime option" where
  "strptime_date s =
     Option.bind (strptime_date_prefix s) (\<lambda>(d, rest).
     if rest = [] then Some (midnight d) else None)"

text \<open>\<open>%H:%M:%S\<close> after at least one white space character.\<close>

definition strptime_time :: "string \<Rightarrow> (nat \<times> nat \<times> nat \<times> string) option" where
  "strptime_time s =
     (case s of
        [] \<Rightarrow> None
      | c # _ \<Rightarrow>
          if \<not> is_space c then None
          else
            Option.bind (split_once (CHR '':'') (dropWhile is_space s)) (\<lambda>(hs, r1).
            Option.bind (split_once (CHR '':'') r1) (\<lambda>(ms, r2).
            let (ss, rest) = span_digits r2 in
            Option.bind (num_field 2 0 23 hs) (\<lambda>h.
            Option.bind (num_field 2 0 59 ms) (\<lambda>m.
            Option.bind (num_field 2 0 59 ss) (\<lambda>x. Some (h, m, x, rest)))))))"

definition strptime_seconds :: "string \<Rightarrow> pdatetime option" where
  "strptime_seconds s =
     Option.bind (strptime_date_prefix s) (\<lambda>(d, r).
     Option.bind (strptime_time r) (\<lambda>(h, m, x, rest).
     if rest = [] then Some (PDatetime d h m x 0) else None))"

text \<open>\<open>%f\<close>: one to six digits, read as a fraction (zeros are appended).\<close>

definition micro_field :: "string \<Rightarrow> nat option" where
  "micro_field s =
     (if s \<noteq> [] \<and> length s \<le> 6 \<and> list_all is_digit s
      then Some (nat_of_digits (s @ replicate (6 - length s) (CHR ''0''))) else None)"

definition strptime_fraction :: "string \<Rightarrow> nat option" where
  "strptime_fraction s =
     (case s of c # f \<Rightarrow> if c = CHR ''.'' then micro_field f else None | [] \<Rightarrow> None)"

definition strptime_micros :: "string \<Rightarrow> pdatetime option" where
  "strptime_micros s =
     Option.bind (strptime_date_prefix s) (\<lambda>(d, r).
     Option.bind (strptime_time r) (\<lambda>(h, m, x, rest).
     Option.bind (strptime_fraction rest) (\<lambda>u. Some (PDatetime d h m x u))))"

subsection \<open>Round trips\<close>

lemma num_field_zpad:
  "n < 10 ^ w \<Longrightarrow> 0 < w \<Longrightarrow> lo \<le> n \<Longrightarrow> n \<le> hi \<Longrightarrow> num_field w lo hi (zpad w n) = Some n"
proof -
  assume a: "n < 10 ^ w" "0 < w" "lo \<le> n" "n \<le> hi"
  then have "length (zpad w n) = w" by simp
  moreover from this a(2) have "zpad w n \<noteq> []" by auto
  ultimately show ?thesis using a by (simp add: num_field_def)
qed

lemma digit_neq [simp]:
  "\<not> is_digit (CHR ''-'')" "\<not> is_digit (CHR '' '')" "\<not> is_digit (CHR '':'')"
  "\<not> is_digit (CHR ''.'')" "\<not> is_digit (CHR ''T'')"
  by (simp_all add: is_digit_def chr_code_def)

lemma zpad_all_digits: "c \<in> set (zpad w n) \<Longrightarrow> is_digit c"
  using zpad_digits [of w n] by (simp add: list_all_iff)

lemma not_in_zpad [simp]: "\<not> is_digit c \<Longrightarrow> c \<notin> set (zpad w n)"
  using zpad_all_digits by blast

lemma span_digits_zpad:
  "rest = [] \<or> \<not> is_digit (hd rest) \<Longrightarrow> span_digits (zpad w n @ rest) = (zpad w n, rest)"
proof -
  assume r: "rest = [] \<or> \<not> is_digit (hd rest)"
  have "takeWhile is_digit rest = []" "dropWhile is_digit rest = rest"
    using r by (cases rest; simp)+
  then show ?thesis
    using zpad_all_digits [of _ w n]
    by (simp add: span_digits_def takeWhile_append dropWhile_append)
qed

lemma zpad_2_cases:
  assumes "n < 100"
  obtains a b where "zpad 2 n = [a, b]" "is_digit a" "is_digit b"
proof -
  have "length (zpad 2 n) = 2" using assms by simp
  then obtain a b where ab: "zpad 2 n = [a, b]"
    by (auto simp: numeral_2_eq_2 length_Suc_conv)
  then have "is_digit a" "is_digit b" using zpad_all_digits [of _ 2 n] by auto
  with ab that show ?thesis by blast
qed

lemma span_day_zpad:
  assumes "n < 100" "rest = [] \<or> \<not> is_digit (hd rest)"
  shows "span_day (zpad 2 n @ rest) = (zpad 2 n, rest)"
proof -
  obtain a b where ab: "zpad 2 n = [a, b]" "is_digit a" "is_digit b"
    by (rule zpad_2_cases [OF assms(1)])
  then have "span_day (zpad 2 n @ rest) = span_digits (zpad 2 n @ rest)"
    by (auto simp: span_day_def)
  then show ?thesis using span_digits_zpad [OF assms(2)] by simp
qed

lemma day_field_zpad: "1 \<le> n \<Longrightarrow> n \<le> 31 \<Longrightarrow> day_field (zpad 2 n) = Some n"
proof -
  assume n: "1 \<le> n" "n \<le> 31"
  then have "n < 100" by simp
  then obtain a b where ab: "zpad 2 n = [a, b]" "is_digit a" "is_digit b"
    by (rule zpad_2_cases)
  then have "day_field (zpad 2 n) = num_field 2 1 31 (zpad 2 n)"
    by (auto simp: day_field_def)
  with n show ?thesis by (simp add: num_field_zpad)
qed

lemma days_in_month_le: "days_in_month y m \<le> 31"
  by (simp add: days_in_month_def)

lemma valid_date_bounds:
  "valid_date d \<Longrightarrow> d_year d < 10 ^ 4 \<and> d_month d < 10 ^ 2 \<and> d_day d < 10 ^ 2 \<and> d_day d \<le> 31"
  using days_in_month_le [of "d_year d" "d_month d"] by (simp add: valid_date_def)

lemma strptime_prefix_format_date:
  assumes "valid_date d" "rest = [] \<or> \<not> is_digit (hd rest)"
  shows "strptime_date_prefix (format_date d @ rest) = Some (d, rest)"
proof -
  note b = valid_date_bounds [OF assms(1)]
  have y: "year_field (zpad 4 (d_year d)) = Some (d_year d)"
    using b assms(1) by (simp add: year_field_def num_field_zpad valid_date_def)
  have m: "num_field 2 1 12 (zpad 2 (d_month d)) = Some (d_month d)"
    using b assms(1) by (simp add: num_field_zpad valid_date_def)
  have k: "day_field (zpad 2 (d_day d)) = Some (d_day d)"
    using b assms(1) by (simp add: day_field_zpad valid_date_def)
  have "span_day (zpad 2 (d_day d) @ rest) = (zpad 2 (d_day d), rest)"
    using b assms(2) by (intro span_day_zpad) auto
  then show ?thesis
    using y m k assms(1)
    by (simp add: strptime_date_prefix_def format_date_def split_once_append)
qed

lemma strptime_date_format_date: "valid_date d \<Longrightarrow> strptime_date (format_date d) = Some (midnight d)"
  using strptime_prefix_format_date [of d "[]"] by (simp add: strptime_date_def)

lemma strptime_time_format_hms:
  assumes "valid_datetime t" "rest = [] \<or> \<not> is_digit (hd rest)"
  shows "strptime_time (CHR '' '' # format_hms t @ rest) =
    Some (dt_hour t, dt_minute t, dt_second t, rest)"
proof -
  have v: "dt_hour t < 24" "dt_minute t < 60" "dt_second t < 60"
    using assms(1) by (auto simp: valid_datetime_def)
  have sp: "is_space (CHR '' '')" by (simp add: is_space_def chr_code_def)
  have h: "dt_hour t < 100" using v by simp
  obtain a b where ab: "zpad 2 (dt_hour t) = [a, b]" "is_digit a" "is_digit b"
    by (rule zpad_2_cases [OF h])
  have drop: "dropWhile is_space (CHR '' '' # format_hms t @ rest) = format_hms t @ rest"
    using ab sp by (simp add: format_hms_def)
  have f: "num_field 2 0 23 (zpad 2 (dt_hour t)) = Some (dt_hour t)"
    "num_field 2 0 59 (zpad 2 (dt_minute t)) = Some (dt_minute t)"
    "num_field 2 0 59 (zpad 2 (dt_second t)) = Some (dt_second t)"
    using v by (simp_all add: num_field_zpad)
  show ?thesis
    unfolding strptime_time_def list.case drop
    using f span_digits_zpad [OF assms(2), of 2 "dt_second t"] sp
    by (simp add: format_hms_def split_once_append)
qed

lemma micro_field_zpad: "n < 1000000 \<Longrightarrow> micro_field (zpad 6 n) = Some n"
proof -
  assume n: "n < 1000000"
  then have l: "length (zpad 6 n) = 6" by simp
  then have "zpad 6 n \<noteq> []" by auto
  with l show ?thesis by (simp add: micro_field_def)
qed

lemma strptime_micros_format_timestamp:
  assumes "valid_datetime t"
  shows "strptime_micros (format_timestamp t) = Some t"
proof -
  have d: "valid_date (dt_date t)" using assms by (simp add: valid_datetime_def)
  have u: "micro_field (zpad 6 (dt_micro t)) = Some (dt_micro t)"
    using assms by (intro micro_field_zpad) (simp add: valid_datetime_def)
  have s: "strptime_time (CHR '' '' # format_hms t @ CHR ''.'' # zpad 6 (dt_micro t)) =
      Some (dt_hour t, dt_minute t, dt_second t, CHR ''.'' # zpad 6 (dt_micro t))"
    by (rule strptime_time_format_hms [OF assms]) simp
  have p: "strptime_date_prefix (format_timestamp t) =
      Some (dt_date t, CHR '' '' # format_hms t @ CHR ''.'' # zpad 6 (dt_micro t))"
    using strptime_prefix_format_date [OF d, of "CHR '' '' # format_hms t @ CHR ''.'' # zpad 6 (dt_micro t)"]
    by (simp add: format_timestamp_def)
  show ?thesis by (simp add: strptime_micros_def strptime_fraction_def p s u)
qed

lemma strptime_date_prefix_valid:
  "strptime_date_prefix s = Some (d, r) \<Longrightarrow> valid_date d"
  by (auto simp: strptime_date_prefix_def bind_eq_Some_conv Let_def split_beta split: if_splits)

lemma nat_of_digits_lt: "list_all is_digit s \<Longrightarrow> nat_of_digits s < 10 ^ length s"
proof (induction s rule: rev_induct)
  case (snoc c s)
  have "digit_val c < 10" using snoc.prems by (auto simp: is_digit_def digit_val_def)
  with snoc show ?case by simp
qed simp

lemma micro_field_lt:
  assumes "micro_field s = Some n"
  shows "n < 1000000"
proof -
  let ?z = "s @ replicate (6 - length s) (CHR ''0'')"
  have s: "length s \<le> 6" "list_all is_digit s" "n = nat_of_digits ?z"
    using assms by (auto simp: micro_field_def split: if_splits)
  have "is_digit (CHR ''0'')" by (simp add: is_digit_def chr_code_def)
  with s(2) have "list_all is_digit ?z" by (auto simp: list_all_iff)
  then have "n < 10 ^ length ?z" unfolding s(3) by (rule nat_of_digits_lt)
  with s(1) show ?thesis by simp
qed

lemma strptime_fraction_lt: "strptime_fraction s = Some u \<Longrightarrow> u < 1000000"
  by (auto simp: strptime_fraction_def dest: micro_field_lt split: list.splits if_splits)

lemma strptime_time_bounds:
  "strptime_time s = Some (h, m, x, r) \<Longrightarrow> h < 24 \<and> m < 60 \<and> x < 60"
  by (cases s) (auto simp: strptime_time_def bind_eq_Some_conv Let_def split_beta num_field_def
      split: if_splits)

lemma valid_midnight: "valid_date d \<Longrightarrow> valid_datetime (midnight d)"
  by (simp add: valid_datetime_def midnight_def)

lemma strptime_micros_valid: "strptime_micros s = Some t \<Longrightarrow> valid_datetime t"
proof -
  assume "strptime_micros s = Some t"
  then obtain d r h m x f u where p: "strptime_date_prefix s = Some (d, r)"
    and h: "strptime_time r = Some (h, m, x, f)" and u: "strptime_fraction f = Some u"
    and t: "t = PDatetime d h m x u"
    by (auto simp: strptime_micros_def bind_eq_Some_conv)
  from strptime_date_prefix_valid [OF p] strptime_time_bounds [OF h] strptime_fraction_lt [OF u]
  show ?thesis by (simp add: t valid_datetime_def)
qed

lemma strptime_seconds_valid: "strptime_seconds s = Some t \<Longrightarrow> valid_datetime t"
proof -
  assume "strptime_seconds s = Some t"
  then obtain d r h m x where p: "strptime_date_prefix s = Some (d, r)"
    and h: "strptime_time r = Some (h, m, x, [])" and t: "t = PDatetime d h m x 0"
    by (auto simp: strptime_seconds_def bind_eq_Some_conv split: if_splits)
  from strptime_date_prefix_valid [OF p] strptime_time_bounds [OF h]
  show ?thesis by (simp add: t valid_datetime_def)
qed

lemma strptime_date_valid: "strptime_date s = Some t \<Longrightarrow> valid_datetime t"
  by (auto simp: strptime_date_def bind_eq_Some_conv valid_midnight
      dest: strptime_date_prefix_valid split: if_splits)

lemmas strptime_valid = strptime_micros_valid strptime_seconds_valid strptime_date_valid

declare is_leap_def [evals] days_in_month_def [evals] valid_date_def [evals] valid_datetime_def
  [evals] date_key_def [evals] datetime_key_def [evals] less_eq_pdatetime_def [evals]
  less_pdatetime_def [evals] days_before_year_def [evals] days_before_month_def [evals]
  toordinal_def [evals] fromordinal_def [evals] max_ordinal_def [evals] us_per_day_def
  [evals] time_us_def [evals] datetime_us_def [evals] of_time_us_def [evals]
  datetime_sub_def [evals] midnight_def [evals] format_date_def [evals] format_hms_def
  [evals] format_timestamp_def [evals] str_datetime_def [evals] num_field_def [evals]
  year_field_def [evals] day_field_def [evals] span_digits_def [evals] span_day_def [evals]
  strptime_date_prefix_def [evals] strptime_date_def [evals] strptime_time_def [evals]
  strptime_seconds_def [evals] micro_field_def [evals] strptime_fraction_def [evals]
  strptime_micros_def [evals]

end
