(* ===== verification/PyValues.thy ===== *)
theory PyValues
  imports PyTime
begin

text \<open>
  The dynamically typed scalars that reach the program from YAML, from the command line and
  from JDBC, with \<open>str()\<close>, truth value and, for \<open>decimal.Decimal\<close>, construction from
  text, conversion to text and comparison.  A float carries its exact value and its
  \<open>repr\<close>, which is what \<open>str()\<close> prints.
\<close>

section \<open>Decimals\<close>

text \<open>
  A finite decimal is a sign, a coefficient and an exponent; the other two constructors are
  the infinities and the (quiet or signalling) NaNs with their diagnostic digits.  The
  limits of the decimal context on exponents are not modelled.
\<close>

datatype pdecimal =
    DFin bool nat int
  | DInf bool
  | DNaN bool bool string

text \<open>An optional sign, as in the regular expression of the \<open>decimal\<close> module.\<close>

definition take_sign :: "string \<Rightarrow> bool \<times> string" where
  "take_sign s =
     (case s of
        c # t \<Rightarrow> if c = CHR ''-'' then (True, t) else if c = CHR ''+'' then (False, t) else (False, s)
      | [] \<Rightarrow> (False, []))"

definition parse_exponent :: "string \<Rightarrow> int option" where
  "parse_exponent s =
     (case s of
        [] \<Rightarrow> Some 0
      | c # t \<Rightarrow>
          if c = CHR ''e'' \<or> c = CHR ''E''
          then (let (neg, ds) = take_sign t in
                if ds \<noteq> [] \<and> list_all is_digit ds
                then Some (if neg then - int (nat_of_digits ds) else int (nat_of_digits ds))
                else None)
          else None)"

text \<open>Integer digits, an optional point with fraction digits, an optional exponent.\<close>

definition parse_number :: "string \<Rightarrow> (nat \<times> int) option" where
  "parse_number s =
     (let (ip, r) = span_digits s;
          (fp, r') = (case r of c # t \<Rightarrow> if c = CHR ''.'' then span_digits t else ([], r)
                              | [] \<Rightarrow> ([], []))
      in if ip = [] \<and> fp = [] then None
         else map_option (\<lambda>e. (nat_of_digits (ip @ fp), e - int (length fp))) (parse_exponent r'))"

definition parse_special :: "bool \<Rightarrow> string \<Rightarrow> pdecimal option" where
  "parse_special neg s =
     (let l = str_lower s;
          nan = (\<lambda>sig ds. if list_all is_digit ds
                          then Some (DNaN neg sig (dropWhile (\<lambda>c. c = CHR ''0'') ds)) else None)
      in if l = ''inf'' \<or> l = ''infinity'' then Some (DInf neg)
         else if starts_with l ''nan'' then nan False (drop 3 l)
         else if starts_with l ''snan'' then nan True (drop 4 l)
         else None)"

text \<open>\<open>Decimal(text)\<close>; \<open>None\<close> is \<open>InvalidOperation\<close>.\<close>

definition dec_parse :: "string \<Rightarrow> pdecimal option" where
  "dec_parse text =
     (let (neg, body) = take_sign (filter (\<lambda>c. c \<noteq> CHR ''_'') (str_strip text)) in
      case parse_number body of
        Some (c, e) \<Rightarrow> Some (DFin neg c e)
      | None \<Rightarrow> parse_special neg body)"

text \<open>\<open>str(Decimal)\<close>: plain notation for small exponents, scientific notation otherwise.\<close>

definition str_exponent :: "int \<Rightarrow> string" where
  "str_exponent e = ''E'' @ (if e < 0 then str_int e else ''+'' @ str_int e)"

definition str_coefficient :: "nat \<Rightarrow> int \<Rightarrow> string" where
  "str_coefficient c e =
     (let i = str_nat c;
          left = e + int (length i);
          dot = (if e \<le> 0 \<and> - 6 < left then left else 1)
      in (if dot \<le> 0 then ''0.'' @ replicate (nat (- dot)) (CHR ''0'') @ i
          else if int (length i) \<le> dot then i @ replicate (nat (dot - int (length i))) (CHR ''0'')
          else take (nat dot) i @ ''.'' @ drop (nat dot) i) @
         (if left = dot then [] else str_exponent (left - dot)))"

fun dec_str :: "pdecimal \<Rightarrow> string" where
  "dec_str (DFin s c e) = (if s then ''-'' else []) @ str_coefficient c e"
| "dec_str (DInf s) = (if s then ''-'' else []) @ ''Infinity''"
| "dec_str (DNaN s sig ds) = (if s then ''-'' else []) @ (if sig then ''sNaN'' else ''NaN'') @ ds"

fun is_nan :: "pdecimal \<Rightarrow> bool" where
  "is_nan (DNaN _ _ _) = True"
| "is_nan _ = False"

definition dec_val :: "bool \<Rightarrow> nat \<Rightarrow> int \<Rightarrow> rat" where
  "dec_val s c e =
     (if s then -1 else 1) * of_nat c * (if 0 \<le> e then 10 ^ nat e else 1 / 10 ^ nat (- e))"

text \<open>\<open>a < b\<close> for decimals that are not NaN.\<close>

fun dec_less :: "pdecimal \<Rightarrow> pdecimal \<Rightarrow> bool" where
  "dec_less (DFin s c e) (DFin s' c' e') = (dec_val s c e < dec_val s' c' e')"
| "dec_less (DInf s) (DInf s') = (s \<and> \<not> s')"
| "dec_less (DInf s) (DFin _ _ _) = s"
| "dec_less (DFin _ _ _) (DInf s') = (\<not> s')"
| "dec_less _ _ = False"

text \<open>\<open>a > b\<close>: a NaN on either side raises \<open>InvalidOperation\<close>.\<close>

definition dec_gt :: "pdecimal \<Rightarrow> pdecimal \<Rightarrow> bool res" where
  "dec_gt a b = (if is_nan a \<or> is_nan b then Inl InvalidOperation else Inr (dec_less b a))"

lemma dec_less_irrefl [simp]: "\<not> dec_less a a"
  by (cases a) auto

lemma dec_less_trans: "dec_less a b \<Longrightarrow> dec_less b c \<Longrightarrow> dec_less a c"
  by (cases a; cases b; cases c) auto

subsection \<open>Text and back\<close>

lemma take_sign_digit: "s = [] \<or> is_digit (hd s) \<Longrightarrow> take_sign s = (False, s)"
  by (auto simp: take_sign_def is_digit_def chr_code_def split: list.splits)

lemma take_sign_minus [simp]: "take_sign (CHR ''-'' # s) = (True, s)"
  by (simp add: take_sign_def)

lemma take_sign_plus [simp]: "take_sign (CHR ''+'' # s) = (False, s)"
  by (simp add: take_sign_def)

lemma parse_exponent_str: "parse_exponent (str_exponent e) = Some e"
  by (simp add: str_exponent_def parse_exponent_def str_int_def)

lemma span_digits_append:
  "list_all is_digit a \<Longrightarrow> b = [] \<or> \<not> is_digit (hd b) \<Longrightarrow> span_digits (a @ b) = (a, b)"
proof -
  assume a: "list_all is_digit a" and b: "b = [] \<or> \<not> is_digit (hd b)"
  have "takeWhile is_digit b = []" "dropWhile is_digit b = b"
    using b by (cases b; simp)+
  with a show ?thesis
    by (simp add: span_digits_def takeWhile_append dropWhile_append list_all_iff)
qed

definition exp_tail :: "string \<Rightarrow> int \<Rightarrow> bool" where
  "exp_tail x e = ((x = [] \<and> e = 0) \<or> x = str_exponent e)"

lemma exp_tail_parse: "exp_tail x e \<Longrightarrow> parse_exponent x = Some e"
  by (auto simp: exp_tail_def parse_exponent_str) (simp add: parse_exponent_def)

lemma exp_tail_hd: "exp_tail x e \<Longrightarrow> x = [] \<or> \<not> is_digit (hd x) \<and> hd x \<noteq> CHR ''.''"
  by (auto simp: exp_tail_def str_exponent_def is_digit_def chr_code_def)

lemma parse_number_int:
  assumes "list_all is_digit ip" "ip \<noteq> []" "exp_tail x e"
  shows "parse_number (ip @ x) = Some (nat_of_digits ip, e)"
proof -
  have "span_digits (ip @ x) = (ip, x)"
    using assms exp_tail_hd by (blast intro: span_digits_append)
  moreover have "(case x of c # t \<Rightarrow> if c = CHR ''.'' then span_digits t else ([], x)
      | [] \<Rightarrow> ([], [])) = ([], x)"
    using exp_tail_hd [OF assms(3)] by (cases x) auto
  ultimately show ?thesis
    using assms exp_tail_parse [OF assms(3)] by (simp add: parse_number_def)
qed

lemma parse_number_frac:
  assumes "list_all is_digit ip" "ip \<noteq> []" "list_all is_digit fp" "exp_tail x e"
  shows "parse_number (ip @ CHR ''.'' # fp @ x) =
    Some (nat_of_digits (ip @ fp), e - int (length fp))"
proof -
  have "span_digits (ip @ CHR ''.'' # fp @ x) = (ip, CHR ''.'' # fp @ x)"
    using assms by (intro span_digits_append) auto
  moreover have "span_digits (fp @ x) = (fp, x)"
    using assms exp_tail_hd by (blast intro: span_digits_append)
  ultimately show ?thesis
    using assms exp_tail_parse [OF assms(4)] by (simp add: parse_number_def)
qed

lemma parse_number_coefficient: "parse_number (str_coefficient c e) = Some (c, e)"
proof -
  define i where "i = str_nat c"
  define left where "left = e + int (length i)"
  define dot where "dot = (if e \<le> 0 \<and> - 6 < left then left else 1)"
  define x where "x = (if left = dot then [] else str_exponent (left - dot))"
  have i: "list_all is_digit i" "i \<noteq> []" "nat_of_digits i = c" by (simp_all add: i_def)
  have x: "exp_tail x (left - dot)" by (simp add: exp_tail_def x_def)
  have z: "list_all is_digit (replicate n (CHR ''0''))" for n
    by (simp add: list_all_iff is_digit_def chr_code_def)
  have s: "str_coefficient c e =
      (if dot \<le> 0 then ''0.'' @ replicate (nat (- dot)) (CHR ''0'') @ i
       else if int (length i) \<le> dot then i @ replicate (nat (dot - int (length i))) (CHR ''0'')
       else take (nat dot) i @ ''.'' @ drop (nat dot) i) @ x"
    by (simp add: str_coefficient_def Let_def i_def left_def dot_def x_def)
  consider (small) "dot \<le> 0" | (whole) "0 < dot" "int (length i) \<le> dot"
    | (point) "0 < dot" "dot < int (length i)" by linarith
  then show ?thesis
  proof cases
    case small
    then have left: "left = dot" by (auto simp: dot_def split: if_splits)
    have "parse_number (''0'' @ CHR ''.'' # (replicate (nat (- dot)) (CHR ''0'') @ i) @ x) =
        Some (nat_of_digits (''0'' @ replicate (nat (- dot)) (CHR ''0'') @ i),
          left - dot - int (length (replicate (nat (- dot)) (CHR ''0'') @ i)))"
      using i x z by (intro parse_number_frac) (simp_all add: is_digit_def chr_code_def)
    moreover have "nat_of_digits (''0'' @ replicate (nat (- dot)) (CHR ''0'') @ i) = c"
      using nat_of_digits_replicate0 [of "Suc (nat (- dot))" i] i(3) by simp
    moreover have "left - dot - int (length (replicate (nat (- dot)) (CHR ''0'') @ i)) = e"
      using small left by (simp add: left_def)
    ultimately show ?thesis using small by (simp add: s)
  next
    case whole
    have "dot = int (length i) \<and> left - dot = e"
    proof (cases "e \<le> 0 \<and> - 6 < left")
      case True
      with whole show ?thesis by (auto simp: dot_def left_def)
    next
      case False
      then have "dot = 1" by (auto simp: dot_def)
      moreover have "1 \<le> int (length i)" using i(2) by (cases i) auto
      ultimately show ?thesis using whole by (simp add: left_def)
    qed
    then have "str_coefficient c e = i @ x" "left - dot = e" using whole by (simp_all add: s)
    then show ?thesis using parse_number_int [OF i(1,2) x] i(3) by simp
  next
    case point
    have t: "list_all is_digit (take (nat dot) i)" "list_all is_digit (drop (nat dot) i)"
      using i(1) by (auto simp: list_all_iff dest: in_set_takeD in_set_dropD)
    have "take (nat dot) i \<noteq> []" using point i(2) by auto
    from parse_number_frac [OF t(1) this t(2) x]
    have "parse_number (take (nat dot) i @ CHR ''.'' # drop (nat dot) i @ x) =
      Some (c, left - dot - int (length (drop (nat dot) i)))"
      by (simp only: append_take_drop_id i(3))
    moreover have "left - dot - int (length (drop (nat dot) i)) = e"
      using point by (simp add: left_def)
    ultimately show ?thesis using point by (simp add: s)
  qed
qed

definition num_char :: "char \<Rightarrow> bool" where
  "num_char k = (is_digit k \<or> k \<in> {CHR ''.'', CHR ''E'', CHR ''-'', CHR ''+''})"

lemma num_char_str_nat: "list_all num_char (str_nat n)"
  using str_nat_digits [of n] by (auto simp: list_all_iff num_char_def)

lemma num_char_marks [simp]:
  "num_char (CHR ''.'')" "num_char (CHR ''E'')" "num_char (CHR ''-'')" "num_char (CHR ''+'')"
  "num_char (CHR ''0'')"
  by (simp_all add: num_char_def is_digit_def chr_code_def)

lemma num_char_parts:
  "list_all num_char s \<Longrightarrow> list_all num_char (take n s)"
  "list_all num_char s \<Longrightarrow> list_all num_char (drop n s)"
  by (auto simp: list_all_iff dest: in_set_takeD in_set_dropD)

lemma str_exponent_chars: "list_all num_char (str_exponent e)"
  by (simp add: str_exponent_def str_int_def num_char_str_nat)

lemma str_coefficient_chars: "list_all num_char (str_coefficient c e)"
proof -
  have "list_all num_char (replicate n (CHR ''0''))" for n by (simp add: list_all_iff)
  then show ?thesis
    by (simp add: str_coefficient_def Let_def num_char_str_nat num_char_parts str_exponent_chars)
qed

lemma str_coefficient_hd: "str_coefficient c e \<noteq> [] \<and> is_digit (hd (str_coefficient c e))"
proof -
  have "is_digit (CHR ''0'')" by (simp add: is_digit_def chr_code_def)
  moreover have "hd (take (nat k) (str_nat c)) = hd (str_nat c)" if "0 < k" for k
    using that by (cases "str_nat c"; cases "nat k") auto
  ultimately show ?thesis
    using str_nat_hd_digit [of c] by (auto simp: str_coefficient_def Let_def hd_append)
qed

lemma strip_number_text:
  assumes "list_all num_char s"
  shows "filter (\<lambda>c. c \<noteq> CHR ''_'') (str_strip s) = s"
proof -
  have "\<not> is_space k \<and> k \<noteq> CHR ''_''" if "k \<in> set s" for k
    using assms that
    by (auto simp: list_all_iff num_char_def is_digit_def is_space_def chr_code_def)
  then have "str_strip s = s" "filter (\<lambda>c. c \<noteq> CHR ''_'') s = s"
    by (auto intro!: str_strip_id simp: filter_id_conv)
  then show ?thesis by simp
qed

lemma dec_parse_str_finite: "dec_parse (dec_str (DFin s c e)) = Some (DFin s c e)"
proof -
  have "filter (\<lambda>c. c \<noteq> CHR ''_'') (str_strip (dec_str (DFin s c e))) = dec_str (DFin s c e)"
    by (rule strip_number_text) (simp add: str_coefficient_chars)
  moreover have "take_sign (str_coefficient c e) = (False, str_coefficient c e)"
    using str_coefficient_hd [of c e] by (simp add: take_sign_digit)
  ultimately show ?thesis
    by (simp add: dec_parse_def parse_number_coefficient)
qed

lemma dec_str_int: "dec_str (DFin (n < 0) (nat \<bar>n\<bar>) 0) = str_int n"
  by (simp add: str_coefficient_def Let_def str_int_def)

lemma dec_parse_str_int: "dec_parse (str_int n) = Some (DFin (n < 0) (nat \<bar>n\<bar>) 0)"
  using dec_parse_str_finite [of "n < 0" "nat \<bar>n\<bar>" 0] by (simp only: dec_str_int)

text \<open>
  Every decimal that parsing can return is printed to a text that parses to it again: for a
  NaN the diagnostic digits have no leading zero.
\<close>

fun wf_dec :: "pdecimal \<Rightarrow> bool" where
  "wf_dec (DNaN _ _ ds) = (list_all is_digit ds \<and> (ds = [] \<or> hd ds \<noteq> CHR ''0''))"
| "wf_dec _ = True"

lemma dec_parse_wf: "dec_parse s = Some d \<Longrightarrow> wf_dec d"
proof -
  have nan: "wf_dec d" if "parse_special neg body = Some d" for neg body
  proof -
    let ?z = "\<lambda>c. c = CHR ''0''"
    have ds: "list_all is_digit (dropWhile ?z ds)" if "list_all is_digit ds" for ds
      using that by (induction ds) auto
    have hd: "dropWhile ?z ds = [] \<or> hd (dropWhile ?z ds) \<noteq> CHR ''0''" for ds
      by (induction ds) auto
    show ?thesis
      using that ds hd by (auto simp: parse_special_def Let_def split: if_splits)
  qed
  assume "dec_parse s = Some d"
  then show ?thesis
    by (auto simp: dec_parse_def Let_def split_beta intro: nan split: option.splits prod.splits)
qed

lemma lower_digit [simp]: "is_digit c \<Longrightarrow> lower_char c = c"
  by (auto simp: lower_char_def is_digit_def is_upper_def)

lemma str_lower_digits: "list_all is_digit ds \<Longrightarrow> str_lower ds = ds"
  by (induction ds) (auto simp: str_lower_def)

lemma digit_list_plain:
  assumes "list_all is_digit ds"
  shows "\<forall>k\<in>set ds. \<not> is_space k \<and> k \<noteq> CHR ''_''"
proof -
  have "\<not> is_digit (CHR ''_'')" by (simp add: is_digit_def chr_code_def)
  moreover have "is_digit k" if "k \<in> set ds" for k
    using assms that by (simp add: list_all_iff)
  ultimately show ?thesis using digit_not_space by metis
qed

lemma strip_plain:
  assumes "\<forall>k\<in>set s. \<not> is_space k \<and> k \<noteq> CHR ''_''"
  shows "filter (\<lambda>c. c \<noteq> CHR ''_'') (str_strip s) = s"
proof -
  have "str_strip s = s"
    by (rule str_strip_id) (metis assms hd_in_set last_in_set)
  moreover have "filter (\<lambda>c. c \<noteq> CHR ''_'') s = s"
    unfolding filter_id_conv using assms by blast
  ultimately show ?thesis by simp
qed

lemma dropWhile_zero: "ds = [] \<or> hd ds \<noteq> CHR ''0'' \<Longrightarrow> dropWhile (\<lambda>c. c = CHR ''0'') ds = ds"
  by (cases ds) auto

lemma parse_number_letter: "\<not> is_digit c \<Longrightarrow> c \<noteq> CHR ''.'' \<Longrightarrow> parse_number (c # s) = None"
  by (simp add: parse_number_def span_digits_def)

lemma special_text:
  "str_lower ''Infinity'' = ''infinity''" "str_lower ''NaN'' = ''nan''" "str_lower ''sNaN'' = ''snan''"
  by code_simp+

lemma str_lower_append: "str_lower (a @ b) = str_lower a @ str_lower b"
  by (simp add: str_lower_def)

lemma dec_parse_special:
  assumes "parse_number body = None" "parse_special s body = Some d"
    "\<forall>k\<in>set body. \<not> is_space k \<and> k \<noteq> CHR ''_''"
    "take_sign body = (False, body)"
  shows "dec_parse ((if s then ''-'' else []) @ body) = Some d"
proof -
  have "\<not> is_space (CHR ''-'')" by (simp add: is_space_def chr_code_def)
  then have "filter (\<lambda>c. c \<noteq> CHR ''_'') (str_strip ((if s then ''-'' else []) @ body)) =
      (if s then ''-'' else []) @ body"
    using assms(3) by (intro strip_plain) auto
  with assms show ?thesis by (cases s) (simp_all add: dec_parse_def)
qed

lemma dec_parse_str: "wf_dec d \<Longrightarrow> dec_parse (dec_str d) = Some d"
proof (cases d)
  case (DInf s)
  have "dec_parse ((if s then ''-'' else []) @ ''Infinity'') = Some (DInf s)"
    by (rule dec_parse_special)
      (auto simp: parse_number_letter is_digit_def chr_code_def parse_special_def special_text
        is_space_def take_sign_def)
  then show ?thesis by (simp add: DInf)
next
  case (DNaN s sig ds)
  assume "wf_dec d"
  then have ds: "list_all is_digit ds" "dropWhile (\<lambda>c. c = CHR ''0'') ds = ds"
    by (auto simp: DNaN dropWhile_zero)
  let ?b = "(if sig then ''sNaN'' else ''NaN'') @ ds"
  have low: "str_lower ?b = (if sig then ''snan'' else ''nan'') @ ds"
    using str_lower_digits [OF ds(1)] special_text str_lower_append by simp
  have "dec_parse ((if s then ''-'' else []) @ ?b) = Some (DNaN s sig ds)"
  proof (rule dec_parse_special)
    show "parse_number ?b = None"
      by (simp add: parse_number_letter is_digit_def chr_code_def)
    show "parse_special s ?b = Some (DNaN s sig ds)"
      unfolding parse_special_def low using ds by simp
    show "\<forall>k\<in>set ?b. \<not> is_space k \<and> k \<noteq> CHR ''_''"
      using digit_list_plain [OF ds(1)] by (auto simp: is_space_def chr_code_def)
    show "take_sign ?b = (False, ?b)" by (simp add: take_sign_def)
  qed
  then show ?thesis by (simp add: DNaN)
qed (metis dec_parse_str_finite)

section \<open>Scalars\<close>

datatype pyval =
    VNone
  | VBool bool
  | VInt int
  | VStr string
  | VFloat rat string
  | VDec pdecimal
  | VDate pdate
  | VDatetime pdatetime

fun py_str :: "pyval \<Rightarrow> string" where
  "py_str VNone = ''None''"
| "py_str (VBool b) = (if b then ''True'' else ''False'')"
| "py_str (VInt n) = str_int n"
| "py_str (VStr s) = s"
| "py_str (VFloat _ t) = t"
| "py_str (VDec d) = dec_str d"
| "py_str (VDate d) = format_date d"
| "py_str (VDatetime t) = str_datetime t"

fun dec_nonzero :: "pdecimal \<Rightarrow> bool" where
  "dec_nonzero (DFin _ c _) = (c \<noteq> 0)"
| "dec_nonzero _ = True"

fun truthy :: "pyval \<Rightarrow> bool" where
  "truthy VNone = False"
| "truthy (VBool b) = b"
| "truthy (VInt n) = (n \<noteq> 0)"
| "truthy (VStr s) = (s \<noteq> [])"
| "truthy (VFloat r _) = (r \<noteq> 0)"
| "truthy (VDec d) = dec_nonzero d"
| "truthy (VDate _) = True"
| "truthy (VDatetime _) = True"

text \<open>
  Equality and hashing identify booleans, integers, floats and decimals of equal value, as
  \<open>==\<close> on dictionary keys does.
\<close>

fun num_value :: "pyval \<Rightarrow> rat option" where
  "num_value (VBool b) = Some (if b then 1 else 0)"
| "num_value (VInt n) = Some (of_int n)"
| "num_value (VFloat r _) = Some r"
| "num_value (VDec (DFin s c e)) = Some (dec_val s c e)"
| "num_value _ = None"

definition py_eq :: "pyval \<Rightarrow> pyval \<Rightarrow> bool" where
  "py_eq a b =
     (case (num_value a, num_value b) of
        (Some x, Some y) \<Rightarrow> x = y
      | (None, None) \<Rightarrow> a = b
      | _ \<Rightarrow> False)"

lemma py_eq_refl [simp]: "py_eq a a"
  by (simp add: py_eq_def split: option.split)

lemma py_eq_sym: "py_eq a b = py_eq b a"
  by (auto simp: py_eq_def split: option.splits)

lemma py_eq_trans: "py_eq a b \<Longrightarrow> py_eq b c \<Longrightarrow> py_eq a c"
  by (auto simp: py_eq_def split: option.splits)

lemma py_eq_class: "py_eq a v \<Longrightarrow> py_eq v b = py_eq a b" "py_eq a v \<Longrightarrow> py_eq b v = py_eq b a"
  using py_eq_sym py_eq_trans by blast+

text \<open>\<open>int(value)\<close> for the counters read from SQL results and from Delta's metrics.\<close>

definition int_of_text :: "string \<Rightarrow> int option" where
  "int_of_text text =
     (let (neg, ds) = take_sign (str_strip text) in
      if ds \<noteq> [] \<and> list_all is_digit ds
      then Some (if neg then - int (nat_of_digits ds) else int (nat_of_digits ds)) else None)"

lemma int_of_text_str_int: "int_of_text (str_int n) = Some n"
proof -
  have "list_all num_char (str_int n)"
    by (simp add: str_int_def num_char_str_nat)
  then have "\<not> is_space k" if "k \<in> set (str_int n)" for k
    using that by (auto simp: list_all_iff num_char_def is_digit_def is_space_def chr_code_def)
  then have "str_strip (str_int n) = str_int n"
    by (intro str_strip_id) (metis hd_in_set last_in_set)
  moreover have "take_sign (str_nat k) = (False, str_nat k)" for k
    by (simp add: take_sign_digit str_nat_hd_digit)
  ultimately show ?thesis by (simp add: int_of_text_def str_int_def)
qed

declare take_sign_def [evals] parse_exponent_def [evals] parse_number_def [evals]
  parse_special_def [evals] dec_parse_def [evals] str_exponent_def [evals]
  str_coefficient_def [evals] dec_val_def [evals] dec_gt_def [evals] py_eq_def [evals]
  int_of_text_def [evals]

end
