(* ===== verification/Duration.thy ===== *)
theory Duration
  imports PyValues
begin

text \<open>
  ISO-8601 durations for the incremental overlap (utils/duration.py): \<open>parse_duration\<close> and
  \<open>format_duration\<close>, and beside them the pattern by which the JSON schema of the
  configuration accepts the setting.  A time span is an integer number of microseconds.
\<close>

section \<open>The two patterns\<close>

text \<open>An optional group \<open>(\d+U)\<close>: the number and the rest, or nothing consumed.\<close>

definition take_unit :: "char \<Rightarrow> string \<Rightarrow> nat option \<times> string" where
  "take_unit u s =
     (let (ds, r) = span_digits s in
      case r of
        [] \<Rightarrow> (None, s)
      | c # t \<Rightarrow> if ds \<noteq> [] \<and> c = u then (Some (nat_of_digits ds), t) else (None, s))"

definition at_end :: "string \<Rightarrow> bool" where
  "at_end s = (s = [] \<or> s = [newline])"

definition unit_value :: "nat option \<Rightarrow> nat" where
  "unit_value n = (case n of None \<Rightarrow> 0 | Some k \<Rightarrow> k)"

text \<open>The optional time group \<open>T(?=\d)(..H)?(..M)?(..S)?\<close>: seconds and the rest.\<close>

definition take_time :: "string \<Rightarrow> nat \<times> string" where
  "take_time s =
     (case s of
        c # t \<Rightarrow>
          if c = CHR ''T'' \<and> t \<noteq> [] \<and> is_digit (hd t)
          then (let (h, r1) = take_unit (CHR ''H'') t;
                    (m, r2) = take_unit (CHR ''M'') r1;
                    (x, r3) = take_unit (CHR ''S'') r2
                in (unit_value h * 3600 + unit_value m * 60 + unit_value x, r3))
          else (0, s)
      | [] \<Rightarrow> (0, s))"

text \<open>\<open>_PATTERN.match\<close>: the length in seconds, if the text matches.\<close>

definition duration_match :: "string \<Rightarrow> nat option" where
  "duration_match s =
     (case s of
        c # r \<Rightarrow>
          if c = CHR ''P'' \<and> \<not> at_end r
          then (let (d, r1) = take_unit (CHR ''D'') r; (t, r2) = take_time r1 in
                if at_end r2 then Some (unit_value d * 86400 + t) else None)
          else None
      | [] \<Rightarrow> None)"

text \<open>The largest magnitude of a \<open>timedelta\<close>.\<close>

definition max_timedelta_days :: nat where
  "max_timedelta_days = 999999999"

definition parse_duration :: "string option \<Rightarrow> int res" where
  "parse_duration text =
     (case text of
        None \<Rightarrow> Inr 0
      | Some s \<Rightarrow>
          if s = [] then Inr 0
          else
            case duration_match s of
              None \<Rightarrow> Inl (DurationParseError s)
            | Some n \<Rightarrow>
                if max_timedelta_days < n div 86400 then Inl OverflowError
                else Inr (int n * 1000000))"

text \<open>\<open>int(delta.total_seconds())\<close> rounds towards zero.\<close>

definition total_seconds :: "int \<Rightarrow> int" where
  "total_seconds delta = (if 0 \<le> delta then delta div 1000000 else - (- delta div 1000000))"

definition format_duration :: "int \<Rightarrow> string" where
  "format_duration delta =
     (let total = total_seconds delta in
      if total = 0 then ''PT0S''
      else
        let days = total div 86400; rem = total mod 86400;
            hours = rem div 3600; rem2 = rem mod 3600;
            minutes = rem2 div 60; seconds = rem2 mod 60;
            part = (\<lambda>n u. if n = 0 then [] else str_int n @ [u]);
            time_part = part hours (CHR ''H'') @ part minutes (CHR ''M'') @ part seconds (CHR ''S'')
        in ''P'' @ part days (CHR ''D'') @ (if time_part = [] then [] else ''T'' @ time_part))"

text \<open>
  The pattern of \<open>extraction.incremental.overlap\<close> in config.schema.json: years and months
  are optional groups there.  The result says whether the text matches and, if so, whether
  a year or month group was read.
\<close>

definition schema_overlap_match :: "string \<Rightarrow> bool option" where
  "schema_overlap_match s =
     (case s of
        c # r \<Rightarrow>
          if c = CHR ''P'' \<and> \<not> at_end r
          then (let (y, r1) = take_unit (CHR ''Y'') r; (m, r2) = take_unit (CHR ''M'') r1;
                    (d, r3) = take_unit (CHR ''D'') r2; (t, r4) = take_time r3 in
                if at_end r4 then Some (y \<noteq> None \<or> m \<noteq> None) else None)
          else None
      | [] \<Rightarrow> None)"

declare take_unit_def [evals] at_end_def [evals] unit_value_def [evals] take_time_def [evals]
  duration_match_def [evals] max_timedelta_days_def [evals] parse_duration_def [evals]
  total_seconds_def [evals] format_duration_def [evals]

declare schema_overlap_match_def [evals]

section \<open>Lemmas\<close>

definition unit_text :: "nat \<Rightarrow> char \<Rightarrow> string" where
  "unit_text n u = (if n = 0 then [] else str_nat n @ [u])"

lemma take_unit_hit: "\<not> is_digit u \<Longrightarrow> take_unit u (str_nat n @ u # r) = (Some n, r)"
  by (simp add: take_unit_def span_digits_append)

lemma take_unit_miss:
  assumes "s = [] \<or> \<not> is_digit (hd s) \<or> (\<exists>n v r. s = str_nat n @ v # r \<and> \<not> is_digit v \<and> v \<noteq> u)"
  shows "take_unit u s = (None, s)"
  using assms
proof (elim disjE exE conjE)
  assume "\<not> is_digit (hd s)"
  then show ?thesis
    by (cases s) (auto simp: take_unit_def span_digits_def)
next
  fix n v r
  assume "s = str_nat n @ v # r" "\<not> is_digit v" "v \<noteq> u"
  then show ?thesis by (simp add: take_unit_def span_digits_append)
qed (simp add: take_unit_def span_digits_def)

text \<open>
  A text that starts no group of unit \<open>u\<close>: it is empty, starts with a non-digit, or with a
  number of another unit.
\<close>

definition no_unit :: "char \<Rightarrow> string \<Rightarrow> bool" where
  "no_unit u s =
     (s = [] \<or> \<not> is_digit (hd s) \<or> (\<exists>n v r. s = str_nat n @ v # r \<and> \<not> is_digit v \<and> v \<noteq> u))"

lemma take_unit_text:
  assumes "\<not> is_digit u" "no_unit u r"
  shows "take_unit u (unit_text n u @ r) = ((if n = 0 then None else Some n), r)"
  using assms take_unit_hit [of u n r] take_unit_miss [of r u]
  by (simp add: unit_text_def no_unit_def)

lemma no_unit_text:
  "\<not> is_digit v \<Longrightarrow> v \<noteq> u \<Longrightarrow> no_unit u r \<Longrightarrow> no_unit u (unit_text n v @ r)"
  by (auto simp: no_unit_def unit_text_def)

lemma no_unit_Nil [simp]: "no_unit u []"
  by (simp add: no_unit_def)

lemma no_unit_nondigit [simp]: "\<not> is_digit c \<Longrightarrow> no_unit u (c # r)"
  by (simp add: no_unit_def)

lemma unit_chars [simp]:
  "\<not> is_digit (CHR ''D'')" "\<not> is_digit (CHR ''H'')" "\<not> is_digit (CHR ''M'')"
  "\<not> is_digit (CHR ''S'')" "\<not> is_digit (CHR ''Y'')" "\<not> is_digit (CHR ''T'')"
  "\<not> is_digit newline"
  by (simp_all add: is_digit_def chr_code_def newline_def)

lemma take_unit_None: "take_unit u s = (None, r) \<Longrightarrow> r = s"
  by (auto simp: take_unit_def span_digits_def split: list.splits if_splits)

lemma unit_text_hd: "n \<noteq> 0 \<Longrightarrow> is_digit (hd (unit_text n u @ r))"
  using str_nat_hd_digit [of n] by (simp add: unit_text_def)

lemma unit_text_Nil [simp]: "unit_text n u = [] \<longleftrightarrow> n = 0"
  by (simp add: unit_text_def)

lemma unit_value_if [simp]: "unit_value (if n = 0 then None else Some n) = n"
  by (simp add: unit_value_def)

lemma take_time_text:
  assumes "h \<noteq> 0 \<or> m \<noteq> 0 \<or> x \<noteq> 0"
  shows "take_time (CHR ''T'' # unit_text h (CHR ''H'') @ unit_text m (CHR ''M'') @ unit_text x (CHR ''S'')) =
    (h * 3600 + m * 60 + x, [])"
proof -
  let ?t = "unit_text h (CHR ''H'') @ unit_text m (CHR ''M'') @ unit_text x (CHR ''S'')"
  have s: "take_unit (CHR ''S'') (unit_text x (CHR ''S'')) = ((if x = 0 then None else Some x), [])"
    using take_unit_text [of "CHR ''S''" "[]" x] by simp
  have nS: "no_unit (CHR ''M'') (unit_text x (CHR ''S''))" "no_unit (CHR ''H'') (unit_text x (CHR ''S''))"
    using no_unit_text [of "CHR ''S''" _ "[]" x] by simp_all
  have m: "take_unit (CHR ''M'') (unit_text m (CHR ''M'') @ unit_text x (CHR ''S'')) =
      ((if m = 0 then None else Some m), unit_text x (CHR ''S''))"
    using nS by (intro take_unit_text) simp_all
  have h: "take_unit (CHR ''H'') ?t =
      ((if h = 0 then None else Some h), unit_text m (CHR ''M'') @ unit_text x (CHR ''S''))"
    using nS by (intro take_unit_text no_unit_text) simp_all
  have hd: "?t \<noteq> []" "is_digit (hd ?t)"
    using assms unit_text_hd [of h "CHR ''H''"] unit_text_hd [of m "CHR ''M''"]
      unit_text_hd [of x "CHR ''S''" "[]"]
    by (cases "h = 0"; cases "m = 0"; simp add: unit_text_def)+
  show ?thesis
    using hd by (simp add: take_time_def h m s)
qed

lemma not_at_endI: "s \<noteq> [] \<Longrightarrow> hd s \<noteq> newline \<Longrightarrow> \<not> at_end s"
  by (auto simp: at_end_def)

definition time_text :: "nat \<Rightarrow> nat \<Rightarrow> nat \<Rightarrow> string" where
  "time_text h m x =
     (if h = 0 \<and> m = 0 \<and> x = 0 then []
      else CHR ''T'' # unit_text h (CHR ''H'') @ unit_text m (CHR ''M'') @ unit_text x (CHR ''S''))"

lemma take_time_time_text: "take_time (time_text h m x) = (h * 3600 + m * 60 + x, [])"
  using take_time_text [of h m x] by (auto simp: time_text_def) (simp add: take_time_def)

lemma duration_match_text:
  assumes "d \<noteq> 0 \<or> h \<noteq> 0 \<or> m \<noteq> 0 \<or> x \<noteq> 0"
  shows "duration_match (CHR ''P'' # unit_text d (CHR ''D'') @ time_text h m x) =
    Some (d * 86400 + h * 3600 + m * 60 + x)"
proof -
  have n: "no_unit (CHR ''D'') (time_text h m x)" by (simp add: time_text_def)
  have "\<not> at_end (unit_text d (CHR ''D'') @ time_text h m x)"
  proof (cases "d = 0")
    case True
    with assms show ?thesis by (auto simp: at_end_def time_text_def unit_text_def newline_def)
  next
    case False
    then show ?thesis
      using unit_text_hd [of d "CHR ''D''" "time_text h m x"] not_at_endI unit_chars(7)
      by (metis append_is_Nil_conv unit_text_Nil)
  qed
  then show ?thesis
    by (simp add: duration_match_def take_unit_text [OF _ n] take_time_time_text at_end_def)
qed

lemma format_duration_eq:
  assumes "0 < n"
  shows "format_duration (int n * 1000000) =
    CHR ''P'' # unit_text (n div 86400) (CHR ''D'') @
      time_text (n mod 86400 div 3600) (n mod 86400 mod 3600 div 60) (n mod 86400 mod 3600 mod 60)"
proof -
  have i: "str_int (int k) = str_nat k" for k by (simp add: str_int_def)
  have u: "(if int k = 0 then [] else str_int (int k) @ [c]) = unit_text k c" for k c
    by (simp add: unit_text_def i)
  have t: "total_seconds (int n * 1000000) = int n" by (simp add: total_seconds_def)
  have z: "int n div 86400 = int (n div 86400)"
    "int n mod 86400 div 3600 = int (n mod 86400 div 3600)"
    "int n mod 86400 mod 3600 div 60 = int (n mod 86400 mod 3600 div 60)"
    "int n mod 86400 mod 3600 mod 60 = int (n mod 86400 mod 3600 mod 60)"
    by (simp_all add: zdiv_int zmod_int)
  show ?thesis
    using assms unfolding format_duration_def t Let_def z u
    by (simp add: time_text_def)
qed

lemma duration_split:
  "n div 86400 * 86400 + n mod 86400 div 3600 * 3600 + n mod 86400 mod 3600 div 60 * 60 +
   n mod 86400 mod 3600 mod 60 = (n::nat)"
proof -
  define a where "a = n mod 86400"
  define b where "b = a mod 3600"
  have "b div 60 * 60 + b mod 60 = b" "a div 3600 * 3600 + b = a" "n div 86400 * 86400 + a = n"
    unfolding a_def b_def by (simp_all only: div_mult_mod_eq)
  then show ?thesis unfolding a_def [symmetric] b_def [symmetric] by linarith
qed

lemma duration_match_format:
  assumes "0 < n"
  shows "duration_match (format_duration (int n * 1000000)) = Some n"
proof -
  define d h m x where dhmx: "d = n div 86400" "h = n mod 86400 div 3600"
    "m = n mod 86400 mod 3600 div 60" "x = n mod 86400 mod 3600 mod 60"
  have s: "d * 86400 + h * 3600 + m * 60 + x = n"
    unfolding dhmx by (rule duration_split)
  with assms have nz: "d \<noteq> 0 \<or> h \<noteq> 0 \<or> m \<noteq> 0 \<or> x \<noteq> 0" by auto
  have "format_duration (int n * 1000000) = CHR ''P'' # unit_text d (CHR ''D'') @ time_text h m x"
    unfolding dhmx by (rule format_duration_eq [OF assms])
  then show ?thesis using duration_match_text [OF nz] s by simp
qed

lemma duration_match_zero: "duration_match ''PT0S'' = Some 0"
  by (simp add: evals)

lemma parse_format_nat:
  assumes "n div 86400 \<le> max_timedelta_days"
  shows "parse_duration (Some (format_duration (int n * 1000000))) = Inr (int n * 1000000)"
proof (cases "n = 0")
  case True
  then show ?thesis
    by (simp add: format_duration_def total_seconds_def parse_duration_def duration_match_zero)
next
  case False
  then have "0 < n" by simp
  from duration_match_format [OF this] format_duration_eq [OF this] assms show ?thesis
    by (simp add: parse_duration_def)
qed

lemma parse_duration_Inr:
  assumes "parse_duration text = Inr d"
  obtains n where "d = int n * 1000000" "n div 86400 \<le> max_timedelta_days"
  using assms that [of 0]
  by (auto simp: parse_duration_def split: option.splits if_splits)

text \<open>
  The schema reads years and months first; a text without them is read alike by both, and a
  text with one of them leaves the other pattern at a digit where it needs an end.
\<close>

lemma take_unit_Some_next:
  assumes "take_unit u s = (Some n, r)" "v \<noteq> u"
  shows "take_unit v s = (None, s) \<and> s \<noteq> [] \<and> is_digit (hd s)"
  using assms
  by (cases s) (auto simp: take_unit_def span_digits_def split: list.splits if_splits)

lemma take_time_at_digit: "is_digit (hd s) \<Longrightarrow> take_time s = (0, s)"
  by (auto simp: take_time_def split: list.splits)

lemma duration_match_at_other_unit:
  assumes "take_unit u r = (Some n, r')" "u \<noteq> CHR ''D''"
  shows "duration_match (CHR ''P'' # r) = None"
proof -
  note t = take_unit_Some_next [OF assms(1), of "CHR ''D''"]
  then have "\<not> at_end r" using assms(2) not_at_endI unit_chars(7) by metis
  with t assms(2) show ?thesis by (simp add: duration_match_def take_time_at_digit)
qed

lemma schema_overlap_match_cases:
  assumes "schema_overlap_match s = Some ym"
  shows "duration_match s = None \<longleftrightarrow> ym"
proof -
  obtain r where s: "s = CHR ''P'' # r" and r: "\<not> at_end r"
    using assms by (auto simp: schema_overlap_match_def split: list.splits if_splits)
  obtain y r1 where y: "take_unit (CHR ''Y'') r = (y, r1)" by fastforce
  obtain m r2 where m: "take_unit (CHR ''M'') r1 = (m, r2)" by fastforce
  have ym: "ym \<longleftrightarrow> y \<noteq> None \<or> m \<noteq> None"
    using assms r by (auto simp: schema_overlap_match_def s y m split: prod.splits if_splits)
  show ?thesis
  proof (cases y)
    case (Some n)
    with y show ?thesis using duration_match_at_other_unit [of "CHR ''Y''" r n r1] ym s by simp
  next
    case None
    then have r1: "r1 = r" using y take_unit_None by blast
    show ?thesis
    proof (cases m)
      case (Some n)
      with m r1 show ?thesis
        using duration_match_at_other_unit [of "CHR ''M''" r n r2] ym s by simp
    next
      case None
      then have "r2 = r" using m r1 take_unit_None by blast
      with None \<open>y = None\<close> show ?thesis
        using assms r ym y m r1
        by (auto simp: schema_overlap_match_def duration_match_def s split: prod.splits if_splits)
    qed
  qed
qed

section \<open>Properties\<close>

text \<open>C36: Formatting a duration and parsing the text gives the duration back, for every
  non-negative whole number of seconds within the range of a time span.\<close>

theorem duration_roundtrip:
  assumes "0 \<le> d" "d mod 1000000 = 0" "d div 1000000 div 86400 \<le> int max_timedelta_days"
  shows "parse_duration (Some (format_duration d)) = Inr d"
proof -
  define n where "n = nat (d div 1000000)"
  have d: "d = int n * 1000000"
    using div_mult_mod_eq [of d 1000000] assms(1,2)
    by (simp add: n_def pos_imp_zdiv_nonneg_iff)
  have "int (n div 86400) \<le> int max_timedelta_days"
    using assms(1,3) by (simp add: n_def zdiv_int)
  then show ?thesis unfolding d by (intro parse_format_nat) simp
qed

lemma duration_roundtrip_witness:
  "parse_duration (Some (format_duration 106200000000)) = Inr 106200000000 \<and>
   format_duration 106200000000 = ''P1DT5H30M''"
proof
  show "parse_duration (Some (format_duration 106200000000)) = Inr 106200000000"
    by (rule duration_roundtrip) (simp_all add: max_timedelta_days_def)
qed (simp add: evals)

text \<open>An overlap that the JSON schema accepts is a duration the runtime can parse exactly
  when it has no year or month part; with one, the validated configuration makes
  \<open>parse_duration\<close> raise.\<close>

theorem schema_overlap_parses:
  assumes "schema_overlap_match s = Some has_year_or_month"
  shows "parse_duration (Some s) = Inl (DurationParseError s) \<longleftrightarrow> has_year_or_month"
proof -
  have "s \<noteq> []" using assms by (auto simp: schema_overlap_match_def)
  then show ?thesis
    using schema_overlap_match_cases [OF assms]
    by (cases "duration_match s") (auto simp: parse_duration_def)
qed

lemma schema_overlap_parses_witness:
  "parse_duration (Some ''P1M'') = Inl (DurationParseError ''P1M'')"
proof -
  have "schema_overlap_match ''P1M'' = Some True" by (simp add: evals)
  from schema_overlap_parses [OF this] show ?thesis by simp
qed

end
