(* ===== verification/Tables.thy ===== *)
theory Tables
  imports Prelude
begin

text \<open>
  The contract of a table the program changes by key: a step (a MERGE, an INSERT of a new
  key, an UPDATE) either keeps the keys or appends the one it targets, and touches no row
  of another key.  The control tables are interpretations of it.
\<close>

locale keyed_table =
  fixes step :: "'p \<Rightarrow> 'r list \<Rightarrow> 'r list"
    and key :: "'r \<Rightarrow> 'k"
    and target :: "'p \<Rightarrow> 'k"
  assumes step_keys:
      "map key (step p rows) = map key rows \<or>
       (target p \<notin> set (map key rows) \<and> map key (step p rows) = map key rows @ [target p])"
    and step_frame:
      "filter (\<lambda>r. key r \<noteq> target p) (step p rows) = filter (\<lambda>r. key r \<noteq> target p) rows"
begin

lemma step_distinct: "distinct (map key rows) \<Longrightarrow> distinct (map key (step p rows))"
  using step_keys [of p rows] by auto

lemma steps_distinct: "distinct (map key rows) \<Longrightarrow> distinct (map key (fold step ps rows))"
  by (induction ps arbitrary: rows) (auto intro: step_distinct)

lemma steps_keep_keys: "set (map key rows) \<subseteq> set (map key (fold step ps rows))"
proof (induction ps arbitrary: rows)
  case (Cons p ps)
  have "set (map key rows) \<subseteq> set (map key (step p rows))"
    using step_keys [of p rows] by (metis Un_upper1 order_refl set_append)
  with Cons.IH [of "step p rows"] show ?case by auto
qed simp

lemma step_other:
  assumes "k \<noteq> target p"
  shows "filter (\<lambda>r. key r = k) (step p rows) = filter (\<lambda>r. key r = k) rows"
proof -
  have "filter (\<lambda>r. key r = k) xs = filter (\<lambda>r. key r = k) (filter (\<lambda>r. key r \<noteq> target p) xs)" for xs
    using assms by (auto intro: filter_cong)
  then show ?thesis by (metis step_frame)
qed

lemma steps_other:
  "list_all (\<lambda>p. target p \<noteq> k) ps \<Longrightarrow>
   filter (\<lambda>r. key r = k) (fold step ps rows) = filter (\<lambda>r. key r = k) rows"
  by (induction ps arbitrary: rows) (auto simp: step_other)

end

text \<open>The two shapes of a step: an update in place of the rows that match, and an append.\<close>

lemma update_keys: "(\<And>r. key (f r) = key r) \<Longrightarrow> map key (map (\<lambda>r. if P r then f r else r) rows) = map key rows"
  by (induction rows) auto

lemma update_frame:
  "(\<And>r. P r \<Longrightarrow> key r = k) \<Longrightarrow> (\<And>r. key (f r) = key r) \<Longrightarrow>
   filter (\<lambda>r. key r \<noteq> k) (map (\<lambda>r. if P r then f r else r) rows) = filter (\<lambda>r. key r \<noteq> k) rows"
  by (induction rows) auto

lemma find_map_same:
  "(\<And>x. P (f x) = P x) \<Longrightarrow> List.find P (map f xs) = map_option f (List.find P xs)"
  by (induction xs) auto

lemma find_append: "List.find P (xs @ ys) = (case List.find P xs of None \<Rightarrow> List.find P ys | s \<Rightarrow> s)"
  by (induction xs) auto

lemma find_None: "List.find P xs = None \<longleftrightarrow> \<not> list_ex P xs"
  by (induction xs) auto

lemma find_SomeD: "List.find P xs = Some x \<Longrightarrow> x \<in> set xs \<and> P x"
  by (induction xs) (auto split: if_splits)


section \<open>Calls that can fail\<close>

text \<open>
  A statement sent to the engine succeeds, fails without effect, or takes effect and fails
  all the same: the acknowledgement is lost.
\<close>

datatype fault = NoFault | FailBefore pyerr | FailAfter pyerr

fun call_effect :: "fault \<Rightarrow> ('s \<Rightarrow> 's) \<Rightarrow> 's \<Rightarrow> 's" where
  "call_effect (FailBefore e) f s = s"
| "call_effect _ f s = f s"

fun call_error :: "fault \<Rightarrow> pyerr option" where
  "call_error NoFault = None"
| "call_error (FailBefore e) = Some e"
| "call_error (FailAfter e) = Some e"

end
