(* ===== verification/Watermark.thy ===== *)
theory Watermark
  imports Duration Tables
begin

text \<open>
  High-water marks (control/watermark.py): the canonical text form of a mark and its typed
  reading, the window of an incremental extract, the predicate that guards an advance, and
  the effect of the two MERGE statements of the store on the rows of the watermark table.
  The casts of the SQL engine are a parameter (\<open>sql_casts\<close>).
\<close>

section \<open>Value handling\<close>

definition timestamp_types :: "string list" where
  "timestamp_types = [''timestamp'', ''date'']"

text \<open>The three formats of \<open>_to_datetime\<close>, tried in order.\<close>

definition to_datetime_text :: "string \<Rightarrow> pdatetime option" where
  "to_datetime_text s =
     (let text = replace_char (CHR ''T'') '' '' (str_strip s) in
      case strptime_micros text of
        Some t \<Rightarrow> Some t
      | None \<Rightarrow>
          (case strptime_seconds text of
             Some t \<Rightarrow> Some t
           | None \<Rightarrow> strptime_date text))"

fun to_datetime :: "pyval \<Rightarrow> pdatetime res" where
  "to_datetime (VDatetime t) = Inr t"
| "to_datetime (VDate d) = Inr (midnight d)"
| "to_datetime v =
     (case to_datetime_text (py_str v) of
        Some t \<Rightarrow> Inr t
      | None \<Rightarrow> Inl (WatermarkError (py_str v)))"

definition decimal_of :: "string \<Rightarrow> pdecimal res" where
  "decimal_of s = (case dec_parse s of Some d \<Rightarrow> Inr d | None \<Rightarrow> Inl (WatermarkError s))"

definition canonicalize :: "pyval \<Rightarrow> string \<Rightarrow> string option res" where
  "canonicalize value watermark_type =
     (if value = VNone then Inr None
      else
        let wtype = str_lower watermark_type in
        if wtype = ''number'' then
          bindE (decimal_of (py_str value)) (\<lambda>d. Inr (Some (dec_str d)))
        else if wtype = ''date'' then
          bindE (case value of VDate d \<Rightarrow> Inr d
                 | _ \<Rightarrow> bindE (to_datetime value) (\<lambda>t. Inr (dt_date t)))
            (\<lambda>d. Inr (Some (format_date d)))
        else if wtype = ''timestamp'' then
          bindE (to_datetime value) (\<lambda>t. Inr (Some (format_timestamp t)))
        else Inl (WatermarkError watermark_type))"

text \<open>The comparable values a canonical string stands for.\<close>

datatype wm_value = WNum pdecimal | WDate pdate | WStamp pdatetime

definition parse :: "string \<Rightarrow> string \<Rightarrow> wm_value res" where
  "parse value watermark_type =
     (let wtype = str_lower watermark_type in
      if wtype = ''number'' then bindE (decimal_of value) (\<lambda>d. Inr (WNum d))
      else if wtype = ''date'' then
        bindE (to_datetime (VStr value)) (\<lambda>t. Inr (WDate (dt_date t)))
      else if wtype = ''timestamp'' then
        bindE (to_datetime (VStr value)) (\<lambda>t. Inr (WStamp t))
      else Inl (WatermarkError watermark_type))"

text \<open>Python's \<open>>\<close> on two parsed values; values of different kinds do not compare.\<close>

fun wm_gt :: "wm_value \<Rightarrow> wm_value \<Rightarrow> bool res" where
  "wm_gt (WNum a) (WNum b) = dec_gt a b"
| "wm_gt (WDate a) (WDate b) = Inr (b < a)"
| "wm_gt (WStamp a) (WStamp b) = Inr (b < a)"
| "wm_gt _ _ = Inl (PyTypeError ''>'')"

definition should_advance :: "string option \<Rightarrow> string option \<Rightarrow> string \<Rightarrow> bool res" where
  "should_advance current candidate watermark_type =
     (case candidate of
        None \<Rightarrow> Inr False
      | Some new \<Rightarrow>
          (case current of
             None \<Rightarrow> Inr True
           | Some old \<Rightarrow>
               bindE (parse new watermark_type) (\<lambda>a.
               bindE (parse old watermark_type) (\<lambda>b. wm_gt a b))))"

section \<open>Records and windows\<close>

text \<open>A row of the watermark table: every column but the key may be NULL.\<close>

record wm_row =
  wm_table_fqn :: string
  wm_env :: string
  wm_column :: "string option"
  wm_type :: "string option"
  wm_value :: "string option"
  wm_previous :: "string option"
  wm_run_id :: "string option"
  wm_updated_at :: "pdatetime option"

record watermark_record =
  wr_table_fqn :: string
  wr_env :: string
  wr_column :: "string option"
  wr_type :: string
  wr_value :: "string option"
  wr_previous :: "string option"
  wr_run_id :: "string option"
  wr_updated_at :: "pdatetime option"

definition from_row :: "wm_row \<Rightarrow> watermark_record" where
  "from_row r =
     \<lparr>wr_table_fqn = wm_table_fqn r, wr_env = wm_env r, wr_column = wm_column r,
      wr_type = (case wm_type r of Some t \<Rightarrow> if t = [] then ''timestamp'' else t
                 | None \<Rightarrow> ''timestamp''),
      wr_value = wm_value r, wr_previous = wm_previous r, wr_run_id = wm_run_id r,
      wr_updated_at = wm_updated_at r\<rparr>"

record watermark_window =
  ww_lower_bound :: "string option"
  ww_stored_value :: "string option"
  ww_overlap_applied :: bool
  ww_is_first_run :: bool

definition has_bound :: "watermark_window \<Rightarrow> bool" where
  "has_bound w = (ww_lower_bound w \<noteq> None)"

definition rewound_window :: "string \<Rightarrow> string option \<Rightarrow> watermark_window" where
  "rewound_window stored lower =
     \<lparr>ww_lower_bound = lower, ww_stored_value = Some stored, ww_overlap_applied = True,
      ww_is_first_run = False\<rparr>"

definition compute_window ::
  "watermark_record option \<Rightarrow> string \<Rightarrow> int \<Rightarrow> pyval \<Rightarrow> watermark_window res" where
  "compute_window rec watermark_type overlap lower_bound_default =
     (case Option.bind rec wr_value of
        None \<Rightarrow>
          bindE (if lower_bound_default \<noteq> VNone
                 then canonicalize lower_bound_default watermark_type else Inr None)
            (\<lambda>lower. Inr \<lparr>ww_lower_bound = lower, ww_stored_value = None,
                           ww_overlap_applied = False, ww_is_first_run = True\<rparr>)
      | Some stored \<Rightarrow>
          if overlap \<noteq> 0 \<and> str_lower watermark_type \<in> set timestamp_types then
            bindE (parse stored watermark_type) (\<lambda>v.
              case v of
                WDate d \<Rightarrow>
                  bindE (datetime_sub (midnight d) overlap) (\<lambda>t.
                  bindE (canonicalize (VDate (dt_date t)) watermark_type) (\<lambda>lower.
                  Inr (rewound_window stored lower)))
              | WStamp s \<Rightarrow>
                  bindE (datetime_sub s overlap) (\<lambda>t.
                  bindE (canonicalize (VDatetime t) watermark_type) (\<lambda>lower.
                  Inr (rewound_window stored lower)))
              | WNum _ \<Rightarrow> Inl (PyTypeError ''-''))
          else
            Inr \<lparr>ww_lower_bound = Some stored, ww_stored_value = Some stored,
                 ww_overlap_applied = False, ww_is_first_run = False\<rparr>)"

section \<open>The guard in SQL\<close>

text \<open>\<open>_CAST_BY_TYPE\<close> applied to an expression.\<close>

definition cast_by_type :: "string \<Rightarrow> string \<Rightarrow> string option" where
  "cast_by_type wtype e =
     (if wtype = ''timestamp'' then Some (''TO_TIMESTAMP('' @ e @ '')'')
      else if wtype = ''date'' then Some (''TO_DATE('' @ e @ '')'')
      else if wtype = ''number'' then Some (''CAST('' @ e @ '' AS DECIMAL(38,0))'')
      else None)"

definition advance_guard_sql :: "string \<Rightarrow> string res" where
  "advance_guard_sql watermark_type =
     (case (cast_by_type (str_lower watermark_type) ''s.watermark_value'',
            cast_by_type (str_lower watermark_type) ''t.watermark_value'') of
        (Some new, Some old) \<Rightarrow>
          Inr (''(t.watermark_value IS NULL OR '' @ new @ '' > '' @ old @ '')'')
      | _ \<Rightarrow> Inl (WatermarkError watermark_type))"

text \<open>
  The casts of the engine, NULL as \<open>None\<close>; a DECIMAL(38,0) is an integer.  The guard holds
  when the comparison is TRUE: a NULL operand makes it NULL, which is not.
\<close>

record sql_casts =
  cast_timestamp :: "string \<Rightarrow> pdatetime option"
  cast_date :: "string \<Rightarrow> pdate option"
  cast_decimal38 :: "string \<Rightarrow> int option"

definition sql_greater :: "'a::linorder option \<Rightarrow> 'a option \<Rightarrow> bool" where
  "sql_greater a b = (case (a, b) of (Some x, Some y) \<Rightarrow> y < x | _ \<Rightarrow> False)"

definition guard_greater :: "sql_casts \<Rightarrow> string \<Rightarrow> string \<Rightarrow> string \<Rightarrow> bool" where
  "guard_greater c watermark_type new old =
     (let wtype = str_lower watermark_type in
      if wtype = ''timestamp'' then sql_greater (cast_timestamp c new) (cast_timestamp c old)
      else if wtype = ''date'' then sql_greater (cast_date c new) (cast_date c old)
      else if wtype = ''number'' then sql_greater (cast_decimal38 c new) (cast_decimal38 c old)
      else False)"

definition advance_guard :: "sql_casts \<Rightarrow> string \<Rightarrow> string \<Rightarrow> string option \<Rightarrow> bool" where
  "advance_guard c watermark_type new old =
     (case old of None \<Rightarrow> True | Some v \<Rightarrow> guard_greater c watermark_type new v)"

section \<open>The statements of the store\<close>

text \<open>The bound parameters of the two MERGE statements.\<close>

record wm_params =
  mp_table_fqn :: string
  mp_env :: string
  mp_column :: "string option"
  mp_type :: string
  mp_value :: "string option"
  mp_run_id :: string
  mp_updated_at :: pdatetime

definition wm_matches :: "string \<Rightarrow> string \<Rightarrow> wm_row \<Rightarrow> bool" where
  "wm_matches table_fqn env r = (wm_table_fqn r = table_fqn \<and> wm_env r = env)"

definition wm_select :: "string \<Rightarrow> string \<Rightarrow> wm_row list \<Rightarrow> wm_row list" where
  "wm_select table_fqn env rows = filter (wm_matches table_fqn env) rows"

definition wm_get :: "string \<Rightarrow> string \<Rightarrow> wm_row list \<Rightarrow> watermark_record option" where
  "wm_get table_fqn env rows =
     (case wm_select table_fqn env rows of [] \<Rightarrow> None | r # _ \<Rightarrow> Some (from_row r))"

text \<open>The SET list of both statements, and the row both insert.\<close>

definition wm_update_row :: "wm_params \<Rightarrow> wm_row \<Rightarrow> wm_row" where
  "wm_update_row p r =
     r\<lparr>wm_column := mp_column p, wm_type := Some (mp_type p), wm_previous := wm_value r,
       wm_value := mp_value p, wm_run_id := Some (mp_run_id p),
       wm_updated_at := Some (mp_updated_at p)\<rparr>"

definition wm_insert_row :: "wm_params \<Rightarrow> wm_row" where
  "wm_insert_row p =
     \<lparr>wm_table_fqn = mp_table_fqn p, wm_env = mp_env p, wm_column = mp_column p,
      wm_type = Some (mp_type p), wm_value = mp_value p, wm_previous = None,
      wm_run_id = Some (mp_run_id p), wm_updated_at = Some (mp_updated_at p)\<rparr>"

text \<open>MERGE with the guard \<open>WHEN MATCHED AND guard\<close>, and without it.\<close>

definition wm_merge :: "(wm_row \<Rightarrow> bool) \<Rightarrow> wm_params \<Rightarrow> wm_row list \<Rightarrow> wm_row list" where
  "wm_merge guard p rows =
     (let hit = wm_matches (mp_table_fqn p) (mp_env p) in
      if list_ex hit rows
      then map (\<lambda>r. if hit r \<and> guard r then wm_update_row p r else r) rows
      else rows @ [wm_insert_row p])"

definition merge_advance :: "sql_casts \<Rightarrow> wm_params \<Rightarrow> wm_row list \<Rightarrow> wm_row list" where
  "merge_advance c p rows =
     (case mp_value p of
        None \<Rightarrow> rows
      | Some new \<Rightarrow> wm_merge (\<lambda>r. advance_guard c (mp_type p) new (wm_value r)) p rows)"

definition merge_force :: "wm_params \<Rightarrow> wm_row list \<Rightarrow> wm_row list" where
  "merge_force p rows = wm_merge (\<lambda>_. True) p rows"

text \<open>
  \<open>bool(current and current.watermark_value == canonical and current.run_id == run_id)\<close>: what
  \<open>advance\<close> reports after the statement.
\<close>

definition advance_moved :: "wm_params \<Rightarrow> wm_row list \<Rightarrow> bool" where
  "advance_moved p rows =
     (case wm_get (mp_table_fqn p) (mp_env p) rows of
        None \<Rightarrow> False
      | Some cur \<Rightarrow> wr_value cur = mp_value p \<and> wr_run_id cur = Some (mp_run_id p))"

text \<open>
  \<open>WatermarkStore.advance\<close> and \<open>force_set\<close> on the rows of the table, when every statement
  succeeds: the report of the call and the rows after it.
\<close>

definition wm_make_params ::
  "string \<Rightarrow> string \<Rightarrow> string option \<Rightarrow> string \<Rightarrow> string option \<Rightarrow> string \<Rightarrow> pdatetime \<Rightarrow> wm_params" where
  "wm_make_params table_fqn env column watermark_type canonical run_id updated_at =
     \<lparr>mp_table_fqn = table_fqn, mp_env = env, mp_column = column, mp_type = watermark_type,
      mp_value = canonical, mp_run_id = run_id, mp_updated_at = updated_at\<rparr>"

definition advance ::
  "sql_casts \<Rightarrow> string \<Rightarrow> string \<Rightarrow> pyval \<Rightarrow> string \<Rightarrow> string option \<Rightarrow> string \<Rightarrow> pdatetime \<Rightarrow>
   wm_row list \<Rightarrow> (bool \<times> wm_row list) res" where
  "advance c table_fqn env new_value run_id column watermark_type updated_at rows =
     bindE (canonicalize new_value watermark_type) (\<lambda>canonical.
       if canonical = None then Inr (False, rows)
       else
         bindE (advance_guard_sql watermark_type) (\<lambda>_.
           let p = wm_make_params table_fqn env column watermark_type canonical run_id updated_at;
               rows' = merge_advance c p rows
           in Inr (advance_moved p rows', rows')))"

definition force_set ::
  "string \<Rightarrow> string \<Rightarrow> pyval \<Rightarrow> string \<Rightarrow> string option \<Rightarrow> string \<Rightarrow> pdatetime \<Rightarrow>
   wm_row list \<Rightarrow> wm_row list res" where
  "force_set table_fqn env v watermark_type column run_id updated_at rows =
     bindE (canonicalize v watermark_type) (\<lambda>canonical.
       Inr (merge_force
         (wm_make_params table_fqn env column watermark_type canonical run_id updated_at) rows))"

text \<open>One row per table and environment.\<close>

definition wm_key :: "wm_row \<Rightarrow> string \<times> string" where
  "wm_key r = (wm_table_fqn r, wm_env r)"

definition wm_unique :: "wm_row list \<Rightarrow> bool" where
  "wm_unique rows = distinct (map wm_key rows)"

definition wm_lookup :: "string \<Rightarrow> string \<Rightarrow> wm_row list \<Rightarrow> string option" where
  "wm_lookup table_fqn env rows = Option.bind (wm_get table_fqn env rows) wr_value"

declare timestamp_types_def [evals] to_datetime_text_def [evals] decimal_of_def [evals]
  canonicalize_def [evals] parse_def [evals] dec_gt_def [evals] should_advance_def [evals]
  compute_window_def [evals] rewound_window_def [evals] from_row_def [evals]
  cast_by_type_def [evals] advance_guard_sql_def [evals] sql_greater_def [evals]
  guard_greater_def [evals] advance_guard_def [evals] wm_matches_def [evals]
  wm_select_def [evals] wm_get_def [evals] wm_update_row_def [evals] wm_insert_row_def [evals]
  wm_merge_def [evals] merge_advance_def [evals] merge_force_def [evals]
  advance_moved_def [evals] wm_lookup_def [evals] wm_make_params_def [evals] advance_def [evals]
  force_set_def [evals]


section \<open>Canonical text\<close>

lemma stamp_chars:
  "valid_date d \<Longrightarrow> c \<in> set (format_date d) \<Longrightarrow> is_digit c \<or> c = CHR ''-''"
  "c \<in> set (format_timestamp t) \<Longrightarrow>
     is_digit c \<or> c \<in> {CHR ''-'', CHR '' '', CHR '':'', CHR ''.''}"
  using zpad_all_digits by (auto simp: format_date_def format_timestamp_def format_hms_def)

lemma zpad_hd_last: "is_digit (hd (zpad w n))" "is_digit (last (zpad w n))" "zpad w n \<noteq> []"
proof -
  show "zpad w n \<noteq> []" by (simp add: zpad_def Let_def)
  then show "is_digit (hd (zpad w n))" "is_digit (last (zpad w n))"
    using zpad_all_digits hd_in_set last_in_set by blast+
qed

lemma format_date_strip: "str_strip (format_date d) = format_date d"
  by (rule str_strip_id) (simp add: format_date_def zpad_hd_last hd_append)

lemma format_timestamp_strip: "str_strip (format_timestamp t) = format_timestamp t"
  by (rule str_strip_id) (simp add: format_timestamp_def format_date_def zpad_hd_last hd_append)

lemma to_datetime_format_timestamp:
  assumes "valid_datetime t"
  shows "to_datetime (VStr (format_timestamp t)) = Inr t"
proof -
  have "CHR ''T'' \<notin> set (format_timestamp t)"
    using stamp_chars(2) [of "CHR ''T''" t] by auto
  then show ?thesis
    using assms by (simp add: to_datetime_text_def format_timestamp_strip strptime_micros_format_timestamp)
qed

lemma to_datetime_format_date:
  assumes "valid_date d"
  shows "to_datetime (VStr (format_date d)) = Inr (midnight d)"
proof -
  have "CHR ''T'' \<notin> set (format_date d)"
    using stamp_chars(1) [OF assms, of "CHR ''T''"] by auto
  moreover have "strptime_date_prefix (format_date d) = Some (d, [])"
    using strptime_prefix_format_date [OF assms, of "[]"] by simp
  ultimately show ?thesis
    using assms
    by (simp add: to_datetime_text_def format_date_strip strptime_date_format_date
        strptime_micros_def strptime_seconds_def strptime_time_def)
qed

text \<open>The values Python can hold: the calendar fields of a date are in range.\<close>

fun valid_value :: "pyval \<Rightarrow> bool" where
  "valid_value (VDate d) = valid_date d"
| "valid_value (VDatetime t) = valid_datetime t"
| "valid_value _ = True"

lemma to_datetime_text_valid: "to_datetime_text s = Some t \<Longrightarrow> valid_datetime t"
  by (auto simp: to_datetime_text_def Let_def dest: strptime_valid split: option.splits)

lemma to_datetime_valid: "valid_value v \<Longrightarrow> to_datetime v = Inr t \<Longrightarrow> valid_datetime t"
  by (cases v) (auto simp: valid_midnight dest: to_datetime_text_valid split: option.splits)

lemma valid_dt_date: "valid_datetime t \<Longrightarrow> valid_date (dt_date t)"
  by (simp add: valid_datetime_def)

lemma dt_date_midnight [simp]: "dt_date (midnight d) = d"
  by (simp add: midnight_def)

text \<open>The reading of a canonical value, and the canonical text of a reading.\<close>

fun wm_text :: "wm_value \<Rightarrow> string" where
  "wm_text (WNum d) = dec_str d"
| "wm_text (WDate d) = format_date d"
| "wm_text (WStamp t) = format_timestamp t"

fun wm_valid :: "wm_value \<Rightarrow> bool" where
  "wm_valid (WNum d) = wf_dec d"
| "wm_valid (WDate d) = valid_date d"
| "wm_valid (WStamp t) = valid_datetime t"

fun wm_kind :: "wm_value \<Rightarrow> string" where
  "wm_kind (WNum _) = ''number''"
| "wm_kind (WDate _) = ''date''"
| "wm_kind (WStamp _) = ''timestamp''"

fun wm_pyval :: "wm_value \<Rightarrow> pyval" where
  "wm_pyval (WNum d) = VDec d"
| "wm_pyval (WDate d) = VDate d"
| "wm_pyval (WStamp t) = VDatetime t"

lemma parse_wm_text: "wm_valid w \<Longrightarrow> str_lower ty = wm_kind w \<Longrightarrow> parse (wm_text w) ty = Inr w"
  by (cases w)
    (auto simp: parse_def Let_def decimal_of_def dec_parse_str to_datetime_format_date
      to_datetime_format_timestamp simp del: to_datetime.simps)

lemma canonicalize_wm_pyval:
  "wm_valid w \<Longrightarrow> str_lower ty = wm_kind w \<Longrightarrow> canonicalize (wm_pyval w) ty = Inr (Some (wm_text w))"
  by (cases w)
    (auto simp: canonicalize_def Let_def decimal_of_def dec_parse_str)

lemma canonicalize_shape:
  assumes "canonicalize v ty = Inr (Some s)" "valid_value v"
  obtains w where "s = wm_text w" "wm_valid w" "str_lower ty = wm_kind w"
proof -
  have "v \<noteq> VNone" using assms(1) by (auto simp: canonicalize_def)
  consider (num) "str_lower ty = ''number''" | (date) "str_lower ty = ''date''"
    | (stamp) "str_lower ty = ''timestamp''"
    using assms(1) by (auto simp: canonicalize_def Let_def split: if_splits)
  then show thesis
  proof cases
    case num
    with assms(1) \<open>v \<noteq> VNone\<close> obtain d where "dec_parse (py_str v) = Some d" "s = dec_str d"
      by (auto simp: canonicalize_def decimal_of_def bindE_Inr_iff split: option.splits)
    then show thesis using num that [of "WNum d"] dec_parse_wf by simp
  next
    case date
    then obtain d where "s = format_date d" "valid_date d"
      using assms \<open>v \<noteq> VNone\<close> to_datetime_valid [OF assms(2)]
      by (cases v)
        (auto simp: canonicalize_def Let_def bindE_Inr_iff valid_dt_date simp del: to_datetime.simps)
    then show thesis using date that [of "WDate d"] by simp
  next
    case stamp
    with assms(1) \<open>v \<noteq> VNone\<close> obtain t where "to_datetime v = Inr t" "s = format_timestamp t"
      by (auto simp: canonicalize_def bindE_Inr_iff)
    then show thesis using stamp that [of "WStamp t"] to_datetime_valid [OF assms(2)] by simp
  qed
qed


section \<open>Order and windows\<close>

lemma wm_gt_trans: "wm_gt a b = Inr True \<Longrightarrow> wm_gt b c = Inr True \<Longrightarrow> wm_gt a c = Inr True"
  by (cases a; cases b; cases c) (auto simp: dec_gt_def dest: dec_less_trans split: if_splits)

lemma wm_gt_asym: "wm_gt a b = Inr True \<Longrightarrow> wm_gt b a = Inr False"
  by (cases a; cases b)
    (auto simp: dec_gt_def dest: dec_less_trans split: if_splits)

lemma should_advance_Some:
  "should_advance (Some old) (Some new) ty = Inr r \<longleftrightarrow>
   (\<exists>a b. parse new ty = Inr a \<and> parse old ty = Inr b \<and> wm_gt a b = Inr r)"
  by (auto simp: should_advance_def bindE_Inr_iff)

lemma should_advance_text:
  assumes "wm_valid a" "wm_valid b" "str_lower ty = wm_kind a" "str_lower ty = wm_kind b"
  shows "should_advance (Some (wm_text b)) (Some (wm_text a)) ty = wm_gt a b"
  using assms by (simp add: should_advance_def parse_wm_text)

text \<open>A mark as an instant (in microseconds), and the grain of its type.\<close>

fun wm_us :: "wm_value \<Rightarrow> int" where
  "wm_us (WStamp t) = datetime_us t"
| "wm_us (WDate d) = datetime_us (midnight d)"
| "wm_us (WNum _) = 0"

fun wm_grain :: "wm_value \<Rightarrow> int" where
  "wm_grain (WDate _) = us_per_day"
| "wm_grain _ = 1"

fun wm_timed :: "wm_value \<Rightarrow> bool" where
  "wm_timed (WNum _) = False"
| "wm_timed _ = True"

lemma datetime_us_midnight_bounds:
  assumes "valid_datetime t"
  shows "datetime_us (midnight (dt_date t)) \<le> datetime_us t"
    "datetime_us t - datetime_us (midnight (dt_date t)) < us_per_day"
  using time_us_lt [OF assms] by (simp_all add: datetime_us_def midnight_def time_us_def)

lemma compute_window_rewind:
  assumes "wm_valid v" "str_lower ty = wm_kind v" "wm_timed v" "overlap \<noteq> 0"
    "wr_value r = Some (wm_text v)" "compute_window (Some r) ty overlap dflt = Inr w"
  shows "\<exists>l. wm_valid l \<and> wm_kind l = wm_kind v \<and>
    w = rewound_window (wm_text v) (Some (wm_text l)) \<and>
    wm_us l \<le> wm_us v - overlap \<and> wm_us v - overlap - wm_us l < wm_grain v"
proof (cases v)
  case (WStamp t)
  then have ty: "str_lower ty = ''timestamp''" using assms(2) by simp
  obtain s where s: "datetime_sub t overlap = Inr s"
    and w: "w = rewound_window (wm_text v) (Some (format_timestamp s))"
    using assms parse_wm_text [OF assms(1,2)] ty
    by (auto simp: compute_window_def timestamp_types_def WStamp bindE_Inr_iff canonicalize_def)
  have "valid_datetime s" "datetime_us s = datetime_us t - overlap"
    using datetime_sub_exact [OF _ s] assms(1) WStamp by auto
  then show ?thesis using w WStamp by (intro exI [of _ "WStamp s"]) simp
next
  case (WDate d)
  then have ty: "str_lower ty = ''date''" using assms(2) by simp
  obtain s where s: "datetime_sub (midnight d) overlap = Inr s"
    and w: "w = rewound_window (wm_text v) (Some (format_date (dt_date s)))"
    using assms parse_wm_text [OF assms(1,2)] ty
    by (auto simp: compute_window_def timestamp_types_def WDate bindE_Inr_iff canonicalize_def)
  have "valid_datetime s" "datetime_us s = datetime_us (midnight d) - overlap"
    using datetime_sub_exact [OF _ s] assms(1) WDate valid_midnight by auto
  then show ?thesis
    using w WDate datetime_us_midnight_bounds [of s]
    by (intro exI [of _ "WDate (dt_date s)"]) (simp add: valid_dt_date)
qed (use assms(3) in simp)

section \<open>The table\<close>

lemma wm_get_find: "wm_get t e rows = map_option from_row (List.find (wm_matches t e) rows)"
  unfolding wm_get_def wm_select_def by (induction rows) auto

lemma wm_lookup_find: "wm_lookup t e rows = Option.bind (List.find (wm_matches t e) rows) wm_value"
  by (cases "List.find (wm_matches t e) rows") (simp_all add: wm_lookup_def wm_get_find from_row_def)

lemma wm_update_row_key [simp]:
  "wm_table_fqn (wm_update_row p r) = wm_table_fqn r" "wm_env (wm_update_row p r) = wm_env r"
  "wm_matches t e (wm_update_row p r) = wm_matches t e r"
  "wm_value (wm_update_row p r) = mp_value p" "wm_key (wm_update_row p r) = wm_key r"
  "wm_run_id (wm_update_row p r) = Some (mp_run_id p)"
  by (simp_all add: wm_update_row_def wm_matches_def wm_key_def)

lemma find_wm_merge:
  "List.find (wm_matches t e) (wm_merge g p rows) =
    (if t = mp_table_fqn p \<and> e = mp_env p
     then (case List.find (wm_matches t e) rows of
             None \<Rightarrow> Some (wm_insert_row p)
           | Some r \<Rightarrow> Some (if g r then wm_update_row p r else r))
     else List.find (wm_matches t e) rows)"
proof -
  let ?hit = "wm_matches (mp_table_fqn p) (mp_env p)"
  let ?f = "\<lambda>r. if ?hit r \<and> g r then wm_update_row p r else r"
  have f: "List.find (wm_matches t e) (map ?f rows) = map_option ?f (List.find (wm_matches t e) rows)"
    by (rule find_map_same) simp
  have ins: "wm_matches t e (wm_insert_row p) \<longleftrightarrow> t = mp_table_fqn p \<and> e = mp_env p"
    by (auto simp: wm_matches_def wm_insert_row_def)
  have own: "?hit r \<longleftrightarrow> t = mp_table_fqn p \<and> e = mp_env p" if "wm_matches t e r" for r
    using that by (auto simp: wm_matches_def)
  show ?thesis
    using f ins own find_None [of "wm_matches t e" rows] find_None [of ?hit rows]
    by (auto simp: wm_merge_def Let_def find_append split: option.splits dest: find_SomeD)
qed

lemma wm_merge_keys:
  "map wm_key (wm_merge g p rows) = map wm_key rows \<or>
   ((mp_table_fqn p, mp_env p) \<notin> set (map wm_key rows) \<and>
    map wm_key (wm_merge g p rows) = map wm_key rows @ [(mp_table_fqn p, mp_env p)])"
proof -
  have k: "wm_matches (mp_table_fqn p) (mp_env p) r \<longleftrightarrow> wm_key r = (mp_table_fqn p, mp_env p)" for r
    by (simp add: wm_matches_def wm_key_def)
  have i: "wm_key (wm_insert_row p) = (mp_table_fqn p, mp_env p)"
    by (simp add: wm_key_def wm_insert_row_def)
  show ?thesis
    unfolding wm_merge_def Let_def k list_ex_iff using update_keys [of wm_key "wm_update_row p"] i
    by (cases "\<exists>r\<in>set rows. wm_key r = (mp_table_fqn p, mp_env p)") (simp_all, force)
qed

lemma wm_merge_frame:
  "filter (\<lambda>r. wm_key r \<noteq> (mp_table_fqn p, mp_env p)) (wm_merge g p rows) =
   filter (\<lambda>r. wm_key r \<noteq> (mp_table_fqn p, mp_env p)) rows"
proof -
  have "filter (\<lambda>r. wm_key r \<noteq> (mp_table_fqn p, mp_env p))
      (map (\<lambda>r. if wm_matches (mp_table_fqn p) (mp_env p) r \<and> g r then wm_update_row p r else r) rows) =
    filter (\<lambda>r. wm_key r \<noteq> (mp_table_fqn p, mp_env p)) rows"
    by (rule update_frame) (auto simp: wm_matches_def wm_key_def)
  then show ?thesis
    by (auto simp: wm_merge_def Let_def wm_key_def wm_insert_row_def)
qed

text \<open>The watermark table under both statements, as a keyed table.\<close>

definition wm_target :: "wm_params \<Rightarrow> string \<times> string" where
  "wm_target p = (mp_table_fqn p, mp_env p)"

interpretation advanced: keyed_table "merge_advance c" wm_key wm_target for c
  using wm_merge_keys wm_merge_frame
  by unfold_locales (auto simp: merge_advance_def wm_target_def split: option.split)

interpretation forced: keyed_table merge_force wm_key wm_target
  using wm_merge_keys wm_merge_frame
  by unfold_locales (auto simp: merge_force_def wm_target_def)

lemma merge_unique:
  "wm_unique rows \<Longrightarrow> wm_unique (merge_advance c p rows)"
  "wm_unique rows \<Longrightarrow> wm_unique (merge_force p rows)"
  unfolding wm_unique_def by (fact advanced.step_distinct forced.step_distinct)+

lemma wm_lookup_advance:
  "wm_lookup t e (merge_advance c p rows) =
    (if t = mp_table_fqn p \<and> e = mp_env p then
       (case mp_value p of
          None \<Rightarrow> wm_lookup t e rows
        | Some new \<Rightarrow>
            (if advance_guard c (mp_type p) new (wm_lookup t e rows) then Some new
             else wm_lookup t e rows))
     else wm_lookup t e rows)"
  by (auto simp: merge_advance_def wm_lookup_find find_wm_merge wm_insert_row_def advance_guard_def
      split: option.split)

lemma wm_lookup_force:
  "wm_lookup t e (merge_force p rows) =
    (if t = mp_table_fqn p \<and> e = mp_env p then mp_value p else wm_lookup t e rows)"
  by (auto simp: merge_force_def wm_lookup_find find_wm_merge wm_insert_row_def split: option.split)


section \<open>Monotone registers\<close>

text \<open>
  The contract of the store that the run relies on: a register per key that only steps of
  the key's own kind may change, and then to a strictly newer value.
\<close>

locale monotone_register =
  fixes newer :: "'v \<Rightarrow> 'v \<Rightarrow> bool"
    and step :: "'p \<Rightarrow> 's \<Rightarrow> 's"
    and current :: "'s \<Rightarrow> 'v option"
    and admissible :: "'p \<Rightarrow> bool"
  assumes step_newer:
      "admissible p \<Longrightarrow> current s = Some a \<Longrightarrow>
       \<exists>b. current (step p s) = Some b \<and> (b = a \<or> newer b a)"
    and newer_trans: "newer a b \<Longrightarrow> newer b d \<Longrightarrow> newer a d"
    and newer_irrefl: "\<not> newer a a"
begin

lemma steps_newer:
  "list_all admissible ps \<Longrightarrow> current s = Some a \<Longrightarrow>
   \<exists>b. current (fold step ps s) = Some b \<and> (b = a \<or> newer b a)"
proof (induction ps arbitrary: s a)
  case (Cons p ps)
  from step_newer [of p s a] Cons.prems obtain b
    where b: "current (step p s) = Some b" "b = a \<or> newer b a" by auto
  from Cons.IH [OF _ b(1)] Cons.prems(1) obtain d
    where "current (fold step ps (step p s)) = Some d" "d = b \<or> newer d b" by auto
  with b(2) show ?case using newer_trans by (intro exI [of _ d]) auto
qed simp

lemma never_back:
  assumes "list_all admissible ps" "current s = Some a" "newer a b"
  shows "current (fold step ps s) \<noteq> Some b"
  using steps_newer [OF assms(1,2)] assms(3) newer_trans newer_irrefl by (metis option.inject)

end

lemma sql_greater_trans: "sql_greater a b \<Longrightarrow> sql_greater b d \<Longrightarrow> sql_greater a d"
  by (auto simp: sql_greater_def split: option.splits)

lemma sql_greater_irrefl [simp]: "\<not> sql_greater a a"
  by (simp add: sql_greater_def split: option.splits)

lemma guard_greater_trans: "guard_greater c ty a b \<Longrightarrow> guard_greater c ty b d \<Longrightarrow> guard_greater c ty a d"
  by (auto simp: guard_greater_def Let_def intro: sql_greater_trans split: if_splits)

lemma guard_greater_irrefl [simp]: "\<not> guard_greater c ty a a"
  by (simp add: guard_greater_def Let_def)

lemma guard_greater_type: "str_lower ty = str_lower ty' \<Longrightarrow> guard_greater c ty = guard_greater c ty'"
  by (intro ext) (simp add: guard_greater_def)

text \<open>An advance of the key's register carries the key's type.\<close>

definition of_type :: "string \<Rightarrow> string \<Rightarrow> string \<Rightarrow> wm_params \<Rightarrow> bool" where
  "of_type table_fqn env ty p =
     (mp_table_fqn p = table_fqn \<and> mp_env p = env \<longrightarrow> str_lower (mp_type p) = str_lower ty)"

lemma merge_advance_newer:
  assumes "of_type t e ty p" "wm_lookup t e rows = Some a"
  shows "\<exists>b. wm_lookup t e (merge_advance c p rows) = Some b \<and> (b = a \<or> guard_greater c ty b a)"
proof (cases "t = mp_table_fqn p \<and> e = mp_env p")
  case True
  then have "guard_greater c (mp_type p) = guard_greater c ty"
    using assms(1) by (intro guard_greater_type) (simp add: of_type_def)
  with assms(2) True show ?thesis
    by (auto simp: wm_lookup_advance advance_guard_def split: option.split)
qed (use assms(2) in \<open>auto simp: wm_lookup_advance\<close>)

interpretation marks: monotone_register
  "guard_greater c ty" "merge_advance c" "wm_lookup t e" "of_type t e ty" for c t e ty
  by unfold_locales (blast intro: merge_advance_newer guard_greater_trans | simp)+

section \<open>The guard and \<open>should_advance\<close>\<close>

text \<open>
  What the documentation of the engine says of the casts on canonical text: it reads
  timestamps and dates in their canonical form, and integers of up to 38 digits exactly.
\<close>

definition faithful_casts :: "sql_casts \<Rightarrow> bool" where
  "faithful_casts c =
     ((\<forall>t. valid_datetime t \<longrightarrow> cast_timestamp c (format_timestamp t) = Some t) \<and>
      (\<forall>d. valid_date d \<longrightarrow> cast_date c (format_date d) = Some d) \<and>
      (\<forall>n. \<bar>n\<bar> < 10 ^ 38 \<longrightarrow> cast_decimal38 c (str_int n) = Some n))"

text \<open>Marks the guard compares exactly: integers of up to 38 digits, and all times.\<close>

fun wm_exact :: "wm_value \<Rightarrow> bool" where
  "wm_exact (WNum d) = (case d of DFin s n e \<Rightarrow> e = 0 \<and> n < 10 ^ 38 \<and> \<not> (s \<and> n = 0) | _ \<Rightarrow> False)"
| "wm_exact _ = True"

definition dec_int :: "bool \<Rightarrow> nat \<Rightarrow> int" where
  "dec_int s n = (if s then - int n else int n)"

lemma dec_str_exact: "\<not> (s \<and> n = 0) \<Longrightarrow> dec_str (DFin s n 0) = str_int (dec_int s n)"
  using dec_str_int [of "dec_int s n"] by (cases s) (simp_all add: dec_int_def)

lemma dec_val_int: "dec_val s n 0 = of_int (dec_int s n)"
  by (simp add: dec_val_def dec_int_def)

lemma guard_greater_exact:
  assumes "faithful_casts c" "wm_valid a" "wm_valid b" "wm_exact a" "wm_exact b"
    "str_lower ty = wm_kind a" "str_lower ty = wm_kind b"
  shows "wm_gt a b = Inr (guard_greater c ty (wm_text a) (wm_text b))"
proof (cases a)
  case (WNum x)
  then obtain y where b: "b = WNum y" using assms(6,7) by (cases b) auto
  obtain s n s' n' where x: "x = DFin s n 0" "n < 10 ^ 38" "\<not> (s \<and> n = 0)"
    and y: "y = DFin s' n' 0" "n' < 10 ^ 38" "\<not> (s' \<and> n' = 0)"
    using assms(4,5) WNum b by (auto split: pdecimal.splits)
  have "\<bar>dec_int s n\<bar> < 10 ^ 38" "\<bar>dec_int s' n'\<bar> < 10 ^ 38"
    using x(2) y(2) by (auto simp: dec_int_def)
  then have "cast_decimal38 c (dec_str x) = Some (dec_int s n)"
      "cast_decimal38 c (dec_str y) = Some (dec_int s' n')"
    using assms(1) dec_str_exact [OF x(3)] dec_str_exact [OF y(3)] x(1) y(1)
    by (simp_all add: faithful_casts_def)
  then show ?thesis
    using assms(6) WNum b x y
    by (simp add: guard_greater_def sql_greater_def dec_gt_def dec_val_int)
next
  case (WDate x)
  then obtain y where "b = WDate y" using assms(6,7) by (cases b) auto
  then show ?thesis
    using assms WDate by (simp add: guard_greater_def sql_greater_def faithful_casts_def)
next
  case (WStamp x)
  then obtain y where "b = WStamp y" using assms(6,7) by (cases b) auto
  then show ?thesis
    using assms WStamp by (simp add: guard_greater_def sql_greater_def faithful_casts_def)
qed

text \<open>An engine whose casts read the canonical forms, as a concrete instance.\<close>

definition reading_casts :: sql_casts where
  "reading_casts =
     \<lparr>cast_timestamp = strptime_micros,
      cast_date = (\<lambda>s. map_option dt_date (strptime_date s)),
      cast_decimal38 = (\<lambda>s. case dec_parse s of
         Some (DFin sg n e) \<Rightarrow>
           Some (let m = (if 0 \<le> e then n * 10 ^ nat e
                          else (2 * n + 10 ^ nat (- e)) div (2 * 10 ^ nat (- e)))
                 in if sg then - int m else int m)
       | _ \<Rightarrow> None)\<rparr>"

lemma faithful_reading_casts: "faithful_casts reading_casts"
proof -
  have "strptime_micros (format_timestamp t) = Some t" if "valid_datetime t" for t
    using that by (rule strptime_micros_format_timestamp)
  moreover have "map_option dt_date (strptime_date (format_date d)) = Some d" if "valid_date d" for d
    using that by (simp add: strptime_date_format_date)
  ultimately show ?thesis
    by (simp add: faithful_casts_def reading_casts_def dec_parse_str_int Let_def)
qed


section \<open>Reports of \<open>advance\<close>\<close>

definition wm_holder :: "string \<Rightarrow> string \<Rightarrow> wm_row list \<Rightarrow> string option" where
  "wm_holder table_fqn env rows = Option.bind (wm_get table_fqn env rows) wr_run_id"

lemma wm_holder_find: "wm_holder t e rows = Option.bind (List.find (wm_matches t e) rows) wm_run_id"
  by (cases "List.find (wm_matches t e) rows") (simp_all add: wm_holder_def wm_get_find from_row_def)

lemma advance_moved_iff:
  "advance_moved p rows \<longleftrightarrow>
   (\<exists>r. List.find (wm_matches (mp_table_fqn p) (mp_env p)) rows = Some r \<and>
        wm_value r = mp_value p \<and> wm_run_id r = Some (mp_run_id p))"
  by (auto simp: advance_moved_def wm_get_find from_row_def split: option.splits)

lemma advance_moved_merge:
  assumes "mp_value p = Some new"
  shows "advance_moved p (merge_advance c p rows) \<longleftrightarrow>
    advance_guard c (mp_type p) new (wm_lookup (mp_table_fqn p) (mp_env p) rows) \<or>
    (wm_lookup (mp_table_fqn p) (mp_env p) rows = Some new \<and>
     wm_holder (mp_table_fqn p) (mp_env p) rows = Some (mp_run_id p))"
  using assms
  by (auto simp: advance_moved_iff merge_advance_def find_wm_merge wm_lookup_find wm_holder_find
      advance_guard_def wm_insert_row_def split: option.splits)

lemma wm_make_params_simps [simp]:
  "mp_table_fqn (wm_make_params t e col ty v run now) = t"
  "mp_env (wm_make_params t e col ty v run now) = e"
  "mp_type (wm_make_params t e col ty v run now) = ty"
  "mp_value (wm_make_params t e col ty v run now) = v"
  "mp_run_id (wm_make_params t e col ty v run now) = run"
  by (simp_all add: wm_make_params_def)

lemma advance_guard_sql_ok:
  assumes "canonicalize v ty = Inr (Some new)"
  shows "\<exists>g. advance_guard_sql ty = Inr g"
proof -
  have "str_lower ty \<in> {''number'', ''date'', ''timestamp''}"
    using assms by (auto simp: canonicalize_def Let_def split: if_splits)
  then show ?thesis
    unfolding advance_guard_sql_def cast_by_type_def by (elim insertE emptyE) simp_all
qed

lemma advance_Inr:
  "advance c t e v run col ty now rows = Inr (moved, rows') \<longleftrightarrow>
   (canonicalize v ty = Inr None \<and> \<not> moved \<and> rows' = rows) \<or>
   (\<exists>new. canonicalize v ty = Inr (Some new) \<and>
      rows' = merge_advance c (wm_make_params t e col ty (Some new) run now) rows \<and>
      moved = advance_moved (wm_make_params t e col ty (Some new) run now) rows')"
  by (auto simp: advance_def bindE_Inr_iff Let_def dest: advance_guard_sql_ok)

section \<open>Properties\<close>



text \<open>The decision to advance is a strict order on the stored texts of one type: it is
  transitive, and where it holds the reverse comparison runs and says no.\<close>

theorem should_advance_strict_order:
  assumes "should_advance (Some a) (Some b) ty = Inr True"
    "should_advance (Some b) (Some d) ty = Inr True"
  shows "should_advance (Some a) (Some d) ty = Inr True \<and> should_advance (Some b) (Some a) ty = Inr False"
  using assms unfolding should_advance_Some by (metis wm_gt_trans wm_gt_asym sum.inject(2))

lemma should_advance_strict_order_witness:
  "should_advance (Some ''9'') (Some ''100'') ''number'' = Inr True \<and>
   should_advance (Some ''10'') (Some ''9'') ''number'' = Inr False"
  by (rule should_advance_strict_order [where b = "''10''"])
    (simp_all add: evals)

text \<open>C37: With an overlap, the window of a timestamp or date mark starts at a canonical value
  of the same type that lies the overlap before the stored mark, rounded down by less than
  the grain of the type (a microsecond, a day): no late update within the overlap is missed,
  and the stored mark is reported as it is.\<close>

theorem window_rewinds_by_overlap:
  assumes "wm_valid v" "str_lower ty = wm_kind v" "wm_timed v" "overlap \<noteq> 0"
    "wr_value r = Some (wm_text v)" "compute_window (Some r) ty overlap dflt = Inr w"
  shows "\<exists>l. wm_valid l \<and> wm_kind l = wm_kind v \<and> parse (wm_text l) ty = Inr l \<and>
    ww_lower_bound w = Some (wm_text l) \<and> ww_stored_value w = Some (wm_text v) \<and>
    ww_overlap_applied w \<and> \<not> ww_is_first_run w \<and>
    wm_us l \<le> wm_us v - overlap \<and> wm_us v - overlap - wm_us l < wm_grain v"
proof -
  from compute_window_rewind [OF assms] obtain l where l: "wm_valid l" "wm_kind l = wm_kind v"
    "w = rewound_window (wm_text v) (Some (wm_text l))"
    "wm_us l \<le> wm_us v - overlap" "wm_us v - overlap - wm_us l < wm_grain v" by blast
  then have "parse (wm_text l) ty = Inr l" using assms(2) by (intro parse_wm_text) simp_all
  with l show ?thesis by (intro exI [of _ l]) (simp add: rewound_window_def)
qed

definition stored_mark :: "string \<Rightarrow> string \<Rightarrow> watermark_record" where
  "stored_mark ty v =
     \<lparr>wr_table_fqn = ''c.s.t'', wr_env = ''dev'', wr_column = Some ''TS'', wr_type = ty,
      wr_value = Some v, wr_previous = None, wr_run_id = Some ''r0'', wr_updated_at = None\<rparr>"

lemma window_rewinds_by_overlap_witness:
  "\<exists>w l. compute_window (Some (stored_mark ''date'' ''2024-03-02'')) ''date'' 3600000000 VNone = Inr w \<and>
     ww_lower_bound w = Some (wm_text l) \<and> wm_us l \<le> wm_us (WDate (PDate 2024 3 2)) - 3600000000"
proof -
  have t: "wm_text (WDate (PDate 2024 3 2)) = ''2024-03-02''" by (simp add: evals)
  have low: "str_lower ''date'' = ''date''" by (simp add: evals)
  have p: "parse ''2024-03-02'' ''date'' = Inr (WDate (PDate 2024 3 2))"
    using parse_wm_text [of "WDate (PDate 2024 3 2)" "''date''"] by (simp add: t) (simp add: evals)
  have u: "datetime_us (midnight (PDate 2024 3 2)) = 738947 * 86400000000"
    by (simp add: datetime_us_def midnight_def time_us_def us_per_day_def toordinal_def
      days_before_year_def days_before_month_def days_in_month_def is_leap_def upt_rec)
  have q: "datetime_us (midnight (PDate 2024 3 2)) - 3600000000 = 63845017200000000"
    by (simp only: u)
  have s: "datetime_sub (midnight (PDate 2024 3 2)) 3600000000 =
      Inr (of_time_us (fromordinal 738946) 82800000000)"
    by (simp only: datetime_sub_def Let_def q us_per_day_def max_ordinal_def) simp
  have w: "compute_window (Some (stored_mark ''date'' ''2024-03-02'')) ''date'' 3600000000 VNone =
      Inr (rewound_window ''2024-03-02'' (Some (format_date (fromordinal 738946))))"
    by (simp add: compute_window_def stored_mark_def timestamp_types_def p s low of_time_us_def
        canonicalize_def)
  have r: "wr_value (stored_mark ''date'' ''2024-03-02'') = Some (wm_text (WDate (PDate 2024 3 2)))"
    by (simp only: t) (simp add: stored_mark_def)
  have "wm_valid (WDate (PDate 2024 3 2))" by (simp add: valid_date_def days_in_month_def)
  from window_rewinds_by_overlap [OF this _ _ _ r w] low w show ?thesis by auto
qed


text \<open>C3: Whatever sequence of advances the runs of all tables issue, in whatever order and
  however interleaved, a stored mark is afterwards the same or strictly newer under the
  engine's own comparison for its type, provided the advances of its own key carry its
  type: the MERGE never moves a watermark backwards and never removes it.\<close>

theorem watermark_never_moves_back:
  assumes "list_all (of_type table_fqn env ty) ps" "wm_lookup table_fqn env rows = Some stored"
  shows "\<exists>now. wm_lookup table_fqn env (fold (merge_advance c) ps rows) = Some now \<and>
    (now = stored \<or> guard_greater c ty now stored)"
  using assms by (rule marks.steps_newer)

definition mark_params :: "string \<Rightarrow> string \<Rightarrow> string \<Rightarrow> wm_params" where
  "mark_params ty v run =
     wm_make_params ''c.s.t'' ''dev'' (Some ''ID'') ty (Some v) run (midnight (PDate 2024 3 2))"

lemma watermark_never_moves_back_witness:
  "\<exists>now. wm_lookup ''c.s.t'' ''dev''
      (fold (merge_advance reading_casts)
        [mark_params ''number'' ''7'' ''r2'', mark_params ''NUMBER'' ''12'' ''r3'']
        [wm_insert_row (mark_params ''number'' ''9'' ''r1'')]) = Some now \<and>
    (now = ''9'' \<or> guard_greater reading_casts ''number'' now ''9'')"
  by (rule watermark_never_moves_back)
    (simp_all add: of_type_def mark_params_def wm_lookup_find wm_insert_row_def wm_matches_def evals)

text \<open>What \<open>advance\<close> reports and does: it returns True exactly when the guard let the new
  mark through or the mark already had this very value from this very run; on True the mark
  is the new value, on False it is what it was; no other key's mark changes, and the table
  keeps one row per key.\<close>

theorem advance_report:
  assumes "advance c table_fqn env v run column ty now rows = Inr (moved, rows')"
  shows "(moved \<longleftrightarrow> (\<exists>new. canonicalize v ty = Inr (Some new) \<and>
      (advance_guard c ty new (wm_lookup table_fqn env rows) \<or>
       wm_lookup table_fqn env rows = Some new \<and> wm_holder table_fqn env rows = Some run))) \<and>
    (moved \<longrightarrow> (\<exists>new. canonicalize v ty = Inr (Some new) \<and> wm_lookup table_fqn env rows' = Some new)) \<and>
    (\<not> moved \<longrightarrow> wm_lookup table_fqn env rows' = wm_lookup table_fqn env rows) \<and>
    (\<forall>t e. (t, e) \<noteq> (table_fqn, env) \<longrightarrow> wm_lookup t e rows' = wm_lookup t e rows) \<and>
    (wm_unique rows \<longrightarrow> wm_unique rows')"
proof -
  from assms consider (none) "canonicalize v ty = Inr None" "\<not> moved" "rows' = rows"
    | (some) new where "canonicalize v ty = Inr (Some new)"
      "rows' = merge_advance c (wm_make_params table_fqn env column ty (Some new) run now) rows"
      "moved = advance_moved (wm_make_params table_fqn env column ty (Some new) run now) rows'"
    unfolding advance_Inr by blast
  then show ?thesis
  proof cases
    case some
    then show ?thesis
      using advance_moved_merge [of "wm_make_params table_fqn env column ty (Some new) run now" new c rows]
      by (auto simp: wm_lookup_advance merge_unique wm_make_params_def)
  qed auto
qed

lemma advance_report_witness:
  "advance reading_casts ''c.s.t'' ''dev'' (VStr ''9'') ''r1'' (Some ''ID'') ''number''
     (midnight (PDate 2024 3 2)) [wm_insert_row (mark_params ''number'' ''9'' ''r1'')] =
   Inr (True, [wm_insert_row (mark_params ''number'' ''9'' ''r1'')]) \<and>
   (\<exists>new. canonicalize (VStr ''9'') ''number'' = Inr (Some new) \<and>
     wm_lookup ''c.s.t'' ''dev'' [wm_insert_row (mark_params ''number'' ''9'' ''r1'')] = Some new)"
proof
  show a: "advance reading_casts ''c.s.t'' ''dev'' (VStr ''9'') ''r1'' (Some ''ID'') ''number''
      (midnight (PDate 2024 3 2)) [wm_insert_row (mark_params ''number'' ''9'' ''r1'')] =
    Inr (True, [wm_insert_row (mark_params ''number'' ''9'' ''r1'')])"
    by (simp add: evals mark_params_def reading_casts_def)
  from advance_report [OF this]
  show "\<exists>new. canonicalize (VStr ''9'') ''number'' = Inr (Some new) \<and>
     wm_lookup ''c.s.t'' ''dev'' [wm_insert_row (mark_params ''number'' ''9'' ''r1'')] = Some new"
    by blast
qed

text \<open>C13: The guard the engine evaluates and the decision \<open>should_advance\<close> takes in Python agree
  on canonical marks, whenever the casts read canonical text as documented and numeric
  marks are integers of at most 38 digits.\<close>

theorem guard_agrees_with_should_advance:
  assumes "faithful_casts c" "wm_valid new" "wm_valid old" "wm_exact new" "wm_exact old"
    "str_lower ty = wm_kind new" "str_lower ty = wm_kind old"
  shows "should_advance (Some (wm_text old)) (Some (wm_text new)) ty =
    Inr (advance_guard c ty (wm_text new) (Some (wm_text old)))"
  using should_advance_text [OF assms(2,3,6,7)] guard_greater_exact [OF assms]
  by (simp add: advance_guard_def)

lemma guard_agrees_with_should_advance_witness:
  "should_advance (Some (wm_text (WNum (DFin False 9 0)))) (Some (wm_text (WNum (DFin False 10 0)))) ''Number'' =
     Inr (advance_guard reading_casts ''Number'' (wm_text (WNum (DFin False 10 0)))
       (Some (wm_text (WNum (DFin False 9 0)))))"
  by (rule guard_agrees_with_should_advance)
    (simp_all add: faithful_reading_casts, simp_all add: evals)

text \<open>Fractional numeric marks are outside that range: the guard compares the values cast
  to \<open>DECIMAL(38,0)\<close>, so a mark that \<open>should_advance\<close> accepts as newer can be held back.\<close>

theorem fractional_mark_held_back:
  "should_advance (Some ''10.1'') (Some ''10.4'') ''number'' = Inr True \<and>
   \<not> advance_guard reading_casts ''number'' ''10.4'' (Some ''10.1'')"
  by (simp add: evals reading_casts_def)

end
