(* ===== verification/ControlSchema.thy ===== *)
theory ControlSchema
  imports Watermark
begin

text \<open>
  The control-plane schema (control/schema.py): validation of identifiers, the six table
  definitions, and the DDL text they give.  The reading of a SQL string literal is the
  reference against which the escaping functions are stated.
\<close>

section \<open>Identifiers\<close>

definition identifier_start :: "char \<Rightarrow> bool" where
  "identifier_start c = (is_alpha c \<or> c = CHR ''_'')"

definition identifier_char :: "char \<Rightarrow> bool" where
  "identifier_char c = (identifier_start c \<or> is_digit c)"

text \<open>\<open>[A-Za-z_][A-Za-z0-9_]*\<close>, without the anchors; \<open>valid_identifier\<close> is \<open>_IDENTIFIER.match\<close>.\<close>

definition plain_identifier :: "string \<Rightarrow> bool" where
  "plain_identifier s =
     (case s of [] \<Rightarrow> False | c # t \<Rightarrow> identifier_start c \<and> list_all identifier_char t)"

definition valid_identifier :: "string \<Rightarrow> bool" where
  "valid_identifier s = re_dollar plain_identifier s"

fun qualify_check :: "string list \<Rightarrow> string list res" where
  "qualify_check [] = Inr []"
| "qualify_check (part # parts) =
     (if part = [] \<or> \<not> valid_identifier part then Inl (ControlSchemaError part)
      else bindE (qualify_check parts) (\<lambda>ps. Inr (part # ps)))"

definition qualify :: "string list \<Rightarrow> string res" where
  "qualify parts = bindE (qualify_check parts) (\<lambda>ps. Inr (join ''.'' ps))"

section \<open>Table definitions\<close>

record column =
  col_name :: string
  col_type :: string
  col_comment :: string
  col_nullable :: bool

record table_def =
  td_name :: string
  td_comment :: string
  td_columns :: "column list"
  td_cluster_by :: "string list"
  td_properties :: "(string, string) dict"

text \<open>\<open>text.replace("'", "''")\<close>.\<close>

definition escape :: "string \<Rightarrow> string" where
  "escape text = replace_char quote [quote, quote] text"

definition column_sql :: "column \<Rightarrow> string" where
  "column_sql c =
     join '' '' ([col_name c, col_type c] @
       (if col_nullable c then [] else [''NOT NULL'']) @
       (if col_comment c = [] then []
        else [''COMMENT '' @ [quote] @ escape (col_comment c) @ [quote]]))"

definition column_names :: "table_def \<Rightarrow> string list" where
  "column_names t = map col_name (td_columns t)"

definition property_sql :: "string \<times> string \<Rightarrow> string" where
  "property_sql kv = [quote] @ fst kv @ [quote] @ '' = '' @ [quote] @ escape (snd kv) @ [quote]"

definition create_sql :: "table_def \<Rightarrow> string \<Rightarrow> string \<Rightarrow> string res" where
  "create_sql t catalog schema =
     bindE (qualify [catalog, schema, td_name t]) (\<lambda>fqn.
       let body = join ('','' @ [newline] @ ''  '') (map column_sql (td_columns t));
           stmt = [''CREATE TABLE IF NOT EXISTS '' @ fqn @ '' ('', ''  '' @ body, '')'', ''USING DELTA''] @
             (if td_comment t = [] then []
              else [''COMMENT '' @ [quote] @ escape (td_comment t) @ [quote]]) in
       bindE
         (if td_cluster_by t = [] then Inr []
          else case List.find (\<lambda>c. c \<notin> set (column_names t)) (td_cluster_by t) of
                 Some c \<Rightarrow> Inl (ControlSchemaError c)
               | None \<Rightarrow> Inr [''CLUSTER BY ('' @ join '', '' (td_cluster_by t) @ '')''])
         (\<lambda>cluster.
           let properties = dict_update [(''delta.enableDeletionVectors'', ''true'')] (td_properties t);
               rendered = join '', '' (map property_sql (sort_key fst properties))
           in Inr (join [newline] (stmt @ cluster @ [''TBLPROPERTIES ('' @ rendered @ '')'']))))"

text \<open>The columns of the definitions: nullable with a comment, nullable without, required.\<close>

definition ty_ts :: string where "ty_ts = ''TIMESTAMP''"
definition ty_str :: string where "ty_str = ''STRING''"
definition ty_long :: string where "ty_long = ''BIGINT''"

definition opt_col :: "string \<Rightarrow> string \<Rightarrow> string \<Rightarrow> column" where
  "opt_col name type comment =
     \<lparr>col_name = name, col_type = type, col_comment = comment, col_nullable = True\<rparr>"

definition key_col :: "string \<Rightarrow> string \<Rightarrow> string \<Rightarrow> column" where
  "key_col name type comment =
     \<lparr>col_name = name, col_type = type, col_comment = comment, col_nullable = False\<rparr>"

definition config_registry_table :: table_def where
  "config_registry_table =
     \<lparr>td_name = ''config_registry'',
      td_comment = ''Every distinct effective config the framework has run with, keyed by content hash.'',
      td_columns =
        [key_col ''config_hash'' ty_str ''SHA-256 of the canonical effective config'',
         key_col ''table_fqn'' ty_str ''domain.table'',
         key_col ''env'' ty_str [],
         opt_col ''resolved_json'' ty_str ''The full effective config as JSON'',
         opt_col ''config_sources'' ''ARRAY<STRING>'' ''Files that contributed, in merge order'',
         opt_col ''first_seen_at'' ty_ts [],
         opt_col ''last_seen_at'' ty_ts [],
         opt_col ''last_run_id'' ty_str []],
      td_cluster_by = [''table_fqn'', ''env''], td_properties = []\<rparr>"

definition watermarks_table :: table_def where
  "watermarks_table =
     \<lparr>td_name = ''watermarks'',
      td_comment = ''Current high-water mark per table and environment. One row per (table_fqn, env).'',
      td_columns =
        [key_col ''table_fqn'' ty_str [],
         key_col ''env'' ty_str [],
         opt_col ''watermark_column'' ty_str ''Source column, or ORA_ROWSCN for SCN strategy'',
         opt_col ''watermark_type'' ty_str ''timestamp | date | number'',
         opt_col ''watermark_value'' ty_str ''Canonical string form; typed comparison happens in the framework'',
         opt_col ''previous_value'' ty_str ''Value before the last advance, for recovery'',
         opt_col ''run_id'' ty_str ''Run that last advanced this watermark (fencing token)'',
         opt_col ''updated_at'' ty_ts []],
      td_cluster_by = [''table_fqn'', ''env''], td_properties = []\<rparr>"

definition ingestion_runs_table :: table_def where
  "ingestion_runs_table =
     \<lparr>td_name = ''ingestion_runs'',
      td_comment = ''One row per pipeline run (a batch of one or more tables).'',
      td_columns =
        [key_col ''run_id'' ty_str [],
         key_col ''env'' ty_str [],
         opt_col ''status'' ty_str ''RUNNING | SUCCEEDED | FAILED | PARTIAL'',
         opt_col ''trigger'' ty_str ''schedule | manual | backfill | retry'',
         opt_col ''triggered_by'' ty_str [],
         opt_col ''job_id'' ty_str [],
         opt_col ''job_run_id'' ty_str [],
         opt_col ''table_count'' ''INT'' [],
         opt_col ''started_at'' ty_ts [],
         opt_col ''ended_at'' ty_ts [],
         opt_col ''duration_ms'' ty_long [],
         opt_col ''error_message'' ty_str []],
      td_cluster_by = [''run_id''], td_properties = []\<rparr>"

definition ingestion_tasks_table :: table_def where
  "ingestion_tasks_table =
     \<lparr>td_name = ''ingestion_tasks'',
      td_comment = ''One row per table per run: the state machine and the metrics for that load.'',
      td_columns =
        [key_col ''run_id'' ty_str [],
         key_col ''table_fqn'' ty_str [],
         key_col ''env'' ty_str [],
         opt_col ''attempt'' ''INT'' ''1-based; retries append attempts, they do not overwrite'',
         opt_col ''status'' ty_str ''PENDING | RUNNING | SUCCEEDED | FAILED | SKIPPED'',
         opt_col ''extraction_mode'' ty_str [],
         opt_col ''write_mode'' ty_str [],
         opt_col ''watermark_from'' ty_str ''Lower bound actually used (after overlap)'',
         opt_col ''watermark_to'' ty_str ''New high-water mark observed in this batch'',
         opt_col ''source_count'' ty_long ''Rows counted at source for reconciliation'',
         opt_col ''rows_read'' ty_long [],
         opt_col ''rows_written'' ty_long [],
         opt_col ''rows_inserted'' ty_long [],
         opt_col ''rows_updated'' ty_long [],
         opt_col ''rows_deleted'' ty_long [],
         opt_col ''bytes_written'' ty_long [],
         opt_col ''config_hash'' ty_str [],
         opt_col ''started_at'' ty_ts [],
         opt_col ''ended_at'' ty_ts [],
         opt_col ''duration_ms'' ty_long [],
         opt_col ''error_type'' ty_str [],
         opt_col ''error_message'' ty_str []],
      td_cluster_by = [''table_fqn'', ''run_id''], td_properties = []\<rparr>"

definition audit_log_table :: table_def where
  "audit_log_table =
     \<lparr>td_name = ''audit_log'',
      td_comment = ''Immutable event stream. Append-only: rows are never updated or deleted.'',
      td_columns =
        [key_col ''event_id'' ty_str [],
         opt_col ''run_id'' ty_str [],
         opt_col ''table_fqn'' ty_str [],
         opt_col ''env'' ty_str [],
         key_col ''event_type'' ty_str [],
         key_col ''event_ts'' ty_ts [],
         opt_col ''sequence'' ''INT'' ''Order of events within a task, for stable replay'',
         opt_col ''actor'' ty_str ''Service principal or user that caused the event'',
         opt_col ''payload'' ty_str ''Event-specific detail as JSON''],
      td_cluster_by = [''run_id'', ''table_fqn''], td_properties = []\<rparr>"

definition reconciliation_table :: table_def where
  "reconciliation_table =
     \<lparr>td_name = ''reconciliation'',
      td_comment = ''Source-vs-target counts and data-quality expectation results per run.'',
      td_columns =
        [key_col ''run_id'' ty_str [],
         key_col ''table_fqn'' ty_str [],
         key_col ''env'' ty_str [],
         opt_col ''check_type'' ty_str ''row_count | expectation | null_key'',
         opt_col ''check_name'' ty_str [],
         opt_col ''source_count'' ty_long [],
         opt_col ''target_count'' ty_long [],
         opt_col ''delta'' ty_long [],
         opt_col ''status'' ty_str ''PASSED | FAILED | WARNED'',
         opt_col ''details'' ty_str [],
         opt_col ''checked_at'' ty_ts []],
      td_cluster_by = [''table_fqn'', ''run_id''], td_properties = []\<rparr>"

definition all_tables :: "table_def list" where
  "all_tables =
     [config_registry_table, watermarks_table, ingestion_runs_table, ingestion_tasks_table,
      audit_log_table, reconciliation_table]"

definition ddl_statements :: "string \<Rightarrow> string \<Rightarrow> string list res" where
  "ddl_statements catalog schema =
     bindE (qualify [catalog, schema]) (\<lambda>name.
     bindE (mapE (\<lambda>t. create_sql t catalog schema) all_tables) (\<lambda>tables.
     Inr ((''CREATE SCHEMA IF NOT EXISTS '' @ name @ '' COMMENT '' @ [quote] @
           ''Ingestion framework control plane'' @ [quote]) # tables)))"

lemmas table_defs = config_registry_table_def watermarks_table_def ingestion_runs_table_def
  ingestion_tasks_table_def audit_log_table_def reconciliation_table_def

declare identifier_start_def [evals] identifier_char_def [evals] plain_identifier_def [evals]
  valid_identifier_def [evals] qualify_def [evals] escape_def [evals] column_sql_def [evals]
  column_names_def [evals] property_sql_def [evals] create_sql_def [evals] ty_ts_def [evals]
 ty_str_def [evals] ty_long_def [evals] opt_col_def [evals] key_col_def [evals] all_tables_def [evals]
  ddl_statements_def [evals]

section \<open>Reading string literals\<close>

text \<open>
  A literal of standard SQL: after the opening quote, up to the next quote that is not
  doubled; a doubled quote stands for one.
\<close>

fun read_literal :: "string \<Rightarrow> (string \<times> string) option" where
  "read_literal [] = None"
| "read_literal (c # s) =
     (if c \<noteq> quote then map_option (\<lambda>(t, r). (c # t, r)) (read_literal s)
      else case s of
             [] \<Rightarrow> Some ([], [])
           | d # r \<Rightarrow>
               if d = quote then map_option (\<lambda>(t, r'). (quote # t, r')) (read_literal r)
               else Some ([], s))"

lemma escape_simps [simp]:
  "escape [] = []" "escape (c # s) = (if c = quote then [quote, quote] else [c]) @ escape s"
  by (simp_all add: escape_def replace_char_def)

lemma read_literal_escape:
  "rest = [] \<or> hd rest \<noteq> quote \<Longrightarrow> read_literal (escape s @ quote # rest) = Some (s, rest)"
proof (induction s)
  case Nil
  then show ?case by (cases rest) auto
qed auto

section \<open>Identifier lemmas\<close>

definition fqn_char :: "char \<Rightarrow> bool" where
  "fqn_char c = (identifier_char c \<or> c = newline)"

lemma plain_identifier_chars: "plain_identifier s \<Longrightarrow> list_all identifier_char s \<and> s \<noteq> []"
  by (cases s) (auto simp: plain_identifier_def identifier_char_def)

lemma valid_identifier_chars:
  assumes "valid_identifier s"
  shows "list_all fqn_char s \<and> s \<noteq> []"
proof -
  have id: "list_all fqn_char t" if "list_all identifier_char t" for t
    using that by (auto simp: list_all_iff fqn_char_def)
  from assms consider "plain_identifier s" | t where "s = t @ [newline]" "plain_identifier t"
    by (auto simp: valid_identifier_def re_dollar_def) (metis append_butlast_last_id)
  then show ?thesis
    using id plain_identifier_chars by cases (auto simp: fqn_char_def)
qed

lemma qualify_check_Inr:
  "qualify_check ps = Inr qs \<longleftrightarrow> qs = ps \<and> list_all valid_identifier ps"
  by (induction ps arbitrary: qs) (auto simp: bindE_Inr_iff dest: valid_identifier_chars)

lemma qualify_check_Inl:
  "\<not> list_all valid_identifier ps \<Longrightarrow> \<exists>p\<in>set ps. qualify_check ps = Inl (ControlSchemaError p)"
  by (induction ps) (auto simp: bindE_Inl_iff)

lemma qualify_Inr: "qualify ps = Inr s \<longleftrightarrow> s = join ''.'' ps \<and> list_all valid_identifier ps"
  by (auto simp: qualify_def bindE_Inr_iff qualify_check_Inr)

lemma qualify_Inl: "\<not> list_all valid_identifier ps \<Longrightarrow> \<exists>p\<in>set ps. qualify ps = Inl (ControlSchemaError p)"
  using qualify_check_Inl [of ps] by (auto simp: qualify_def)

lemma split_all_join:
  "list_all (\<lambda>p. c \<notin> set p) ps \<Longrightarrow> ps \<noteq> [] \<Longrightarrow> split_all c (join [c] ps) = ps"
proof (induction "[c]" ps rule: join.induct)
  case (3 x y ys)
  then show ?case using split_all_append [of c x "join [c] (y # ys)"] by simp
qed auto

lemma fqn_char_dot: "\<not> fqn_char (CHR ''.'')"
  by (simp add: fqn_char_def identifier_char_def identifier_start_def is_alpha_def is_upper_def
      is_lower_def is_digit_def chr_code_def newline_def)

lemma table_names:
  "map td_name all_tables =
    [''config_registry'', ''watermarks'', ''ingestion_runs'', ''ingestion_tasks'', ''audit_log'',
     ''reconciliation'']"
  by (simp add: all_tables_def table_defs)

lemma table_names_valid: "t \<in> set all_tables \<Longrightarrow> valid_identifier (td_name t)"
proof -
  have "list_all plain_identifier (map td_name all_tables)"
    unfolding table_names by code_simp
  then show "t \<in> set all_tables \<Longrightarrow> valid_identifier (td_name t)"
    by (auto simp: list_all_iff valid_identifier_def re_dollar_def)
qed

lemma cluster_columns_defined: "t \<in> set all_tables \<Longrightarrow> set (td_cluster_by t) \<subseteq> set (column_names t)"
  by (auto simp: all_tables_def table_defs column_names_def opt_col_def key_col_def)

lemma column_names_distinct: "t \<in> set all_tables \<Longrightarrow> distinct (column_names t)"
  by (auto simp: all_tables_def table_defs column_names_def opt_col_def key_col_def)

lemma find_undefined_None: "set cs \<subseteq> S \<Longrightarrow> List.find (\<lambda>c. c \<notin> S) cs = None"
  by (induction cs) auto

lemma create_sql_ok:
  assumes "set (td_cluster_by t) \<subseteq> set (column_names t)"
    "list_all valid_identifier [catalog, schema, td_name t]"
  shows "\<exists>rest. create_sql t catalog schema =
    Inr (''CREATE TABLE IF NOT EXISTS '' @ join ''.'' [catalog, schema, td_name t] @ '' ('' @ rest)"
proof -
  have q: "qualify [catalog, schema, td_name t] = Inr (join ''.'' [catalog, schema, td_name t])"
    using assms(2) by (simp only: qualify_Inr)
  have j: "join sep (x # y # ys) = x @ sep @ join sep (y # ys)" for sep x y ys
    by (rule join.simps)
  show ?thesis
    unfolding create_sql_def q bindE.simps Let_def
    by (simp add: find_undefined_None [OF assms(1)] del: join.simps) (simp add: j)
qed


lemma mapE_all_ok:
  "(\<And>x. x \<in> set xs \<Longrightarrow> \<exists>y. f x = Inr y \<and> P x y) \<Longrightarrow> \<exists>ys. mapE f xs = Inr ys \<and> list_all2 P xs ys"
proof (induction xs)
  case (Cons x xs)
  obtain y where "f x = Inr y" "P x y" using Cons.prems [of x] by auto
  moreover obtain ys where "mapE f xs = Inr ys" "list_all2 P xs ys"
    using Cons.IH Cons.prems by auto
  ultimately show ?case by auto
qed simp

text \<open>The anchor of the pattern admits one newline at the end of a part.\<close>

lemma qualify_admits_newline: "qualify [''main'' @ [newline], ''ops''] = Inr (''main'' @ [newline] @ ''.ops'')"
  by (simp add: evals)

section \<open>Properties\<close>

text \<open>A name that \<open>qualify\<close> lets into a SQL text is made of letters, digits, underscores
  and the dots between the parts, with at most a newline at the end of a part, and splits at
  its dots into the parts given: no quote, blank, semicolon or comment sign gets through, and
  no part can pose as two.\<close>

theorem qualify_is_safe:
  assumes "qualify parts = Inr name" "parts \<noteq> []"
  shows "split_all (CHR ''.'') name = parts \<and> list_all (\<lambda>c. fqn_char c \<or> c = CHR ''.'') name"
proof -
  have n: "name = join ''.'' parts" and v: "list_all valid_identifier parts"
    using assms(1) by (simp_all add: qualify_Inr)
  then have c: "list_all fqn_char p" if "p \<in> set parts" for p
    using that valid_identifier_chars by (auto simp: list_all_iff)
  have "list_all (\<lambda>p. CHR ''.'' \<notin> set p) parts"
    using c fqn_char_dot by (auto simp: list_all_iff)
  then have "split_all (CHR ''.'') name = parts" using split_all_join assms(2) n by blast
  moreover have "list_all (\<lambda>c. fqn_char c \<or> c = CHR ''.'') name"
    unfolding n list_all_iff using c set_join [of _ "''.''" parts] by (auto simp: list_all_iff)
  ultimately show ?thesis by simp
qed

lemma qualify_is_safe_witness:
  "split_all (CHR ''.'') ''main.ops.runs'' = [''main'', ''ops'', ''runs''] \<and>
   list_all (\<lambda>c. fqn_char c \<or> c = CHR ''.'') ''main.ops.runs''"
proof (rule qualify_is_safe)
  show "qualify [''main'', ''ops'', ''runs''] = Inr ''main.ops.runs''"
    by (simp add: evals)
qed simp

text \<open>For safe catalog and schema names the DDL is one statement for the schema and one for
  each table, in the order of the definitions, each of the \<open>IF NOT EXISTS\<close> form with the
  validated name, so running it again changes nothing; any other name is rejected before a
  statement is produced.\<close>

theorem ddl_is_idempotent_form:
  "(list_all valid_identifier [catalog, schema] \<longrightarrow>
     (\<exists>s ss. ddl_statements catalog schema = Inr (s # ss) \<and>
       starts_with s (''CREATE SCHEMA IF NOT EXISTS '' @ catalog @ ''.'' @ schema @ '' '') \<and>
       list_all2 (\<lambda>t stmt. starts_with stmt
         (''CREATE TABLE IF NOT EXISTS '' @ catalog @ ''.'' @ schema @ ''.'' @ td_name t @ '' (''))
         all_tables ss)) \<and>
   (\<not> list_all valid_identifier [catalog, schema] \<longrightarrow>
     (\<exists>p\<in>{catalog, schema}. ddl_statements catalog schema = Inl (ControlSchemaError p)))"
proof (intro conjI impI)
  assume v: "list_all valid_identifier [catalog, schema]"
  have q: "qualify [catalog, schema] = Inr (join ''.'' [catalog, schema])"
    using v by (simp only: qualify_Inr)
  have c: "\<exists>stmt. create_sql t catalog schema = Inr stmt \<and> starts_with stmt
      (''CREATE TABLE IF NOT EXISTS '' @ catalog @ ''.'' @ schema @ ''.'' @ td_name t @ '' ('')"
    if "t \<in> set all_tables" for t
    using create_sql_ok [OF cluster_columns_defined [OF that], of catalog schema] v
      table_names_valid [OF that] by (auto simp: starts_with_iff)
  have "\<exists>ss. mapE (\<lambda>t. create_sql t catalog schema) all_tables = Inr ss \<and>
      list_all2 (\<lambda>t stmt. starts_with stmt
       (''CREATE TABLE IF NOT EXISTS '' @ catalog @ ''.'' @ schema @ ''.'' @ td_name t @ '' (''))
        all_tables ss"
    by (rule mapE_all_ok) (rule c)
  then show "\<exists>s ss. ddl_statements catalog schema = Inr (s # ss) \<and>
      starts_with s (''CREATE SCHEMA IF NOT EXISTS '' @ catalog @ ''.'' @ schema @ '' '') \<and>
      list_all2 (\<lambda>t stmt. starts_with stmt
        (''CREATE TABLE IF NOT EXISTS '' @ catalog @ ''.'' @ schema @ ''.'' @ td_name t @ '' (''))
        all_tables ss"
    unfolding ddl_statements_def q by (auto simp: starts_with_iff)
next
  assume "\<not> list_all valid_identifier [catalog, schema]"
  from qualify_Inl [OF this]
  show "\<exists>p\<in>{catalog, schema}. ddl_statements catalog schema = Inl (ControlSchemaError p)"
    by (auto simp: ddl_statements_def)
qed

lemma ddl_is_idempotent_form_witness:
  "\<exists>s ss. ddl_statements ''main'' ''ops'' = Inr (s # ss) \<and> length ss = 6"
proof -
  have "list_all valid_identifier [''main'', ''ops'']" by (simp add: evals)
  with ddl_is_idempotent_form [of "''main''" "''ops''"] show ?thesis
    by (auto dest!: list_all2_lengthD simp: all_tables_def)
qed

end
