(* ===== verification/ControlStore.thy ===== *)
theory ControlStore
  imports ControlSchema
begin

text \<open>
  Run, task, registry and check state (control/control_store.py): the task state machine,
  the roll-up of a run, and every operation of \<open>ControlStore\<close> as its effect on the rows of
  the control tables.  Times are arguments; the product of a float and 1000 in
  \<open>_duration_ms\<close> is a parameter (\<open>float_ms\<close>).
\<close>

section \<open>Statuses\<close>

datatype task_status = TaskPending | TaskRunning | TaskSucceeded | TaskFailed | TaskSkipped

datatype run_status = RunRunning | RunSucceeded | RunFailed | RunPartial

fun task_status_value :: "task_status \<Rightarrow> string" where
  "task_status_value TaskPending = ''PENDING''"
| "task_status_value TaskRunning = ''RUNNING''"
| "task_status_value TaskSucceeded = ''SUCCEEDED''"
| "task_status_value TaskFailed = ''FAILED''"
| "task_status_value TaskSkipped = ''SKIPPED''"

fun run_status_value :: "run_status \<Rightarrow> string" where
  "run_status_value RunRunning = ''RUNNING''"
| "run_status_value RunSucceeded = ''SUCCEEDED''"
| "run_status_value RunFailed = ''FAILED''"
| "run_status_value RunPartial = ''PARTIAL''"

text \<open>\<open>TaskStatus(text)\<close> and \<open>RunStatus(text)\<close>.\<close>

definition task_status_of :: "string \<Rightarrow> task_status res" where
  "task_status_of s =
     (case List.find (\<lambda>t. task_status_value t = s)
             [TaskPending, TaskRunning, TaskSucceeded, TaskFailed, TaskSkipped] of
        Some t \<Rightarrow> Inr t | None \<Rightarrow> Inl (PyValueError s))"

definition run_status_of :: "string \<Rightarrow> run_status res" where
  "run_status_of s =
     (case List.find (\<lambda>t. run_status_value t = s)
             [RunRunning, RunSucceeded, RunFailed, RunPartial] of
        Some t \<Rightarrow> Inr t | None \<Rightarrow> Inl (PyValueError s))"

definition terminal_task_statuses :: "task_status list" where
  "terminal_task_statuses = [TaskSucceeded, TaskFailed, TaskSkipped]"

fun allowed_transitions :: "task_status \<Rightarrow> task_status list" where
  "allowed_transitions TaskPending = [TaskRunning, TaskSkipped]"
| "allowed_transitions TaskRunning = [TaskSucceeded, TaskFailed, TaskSkipped]"
| "allowed_transitions TaskSucceeded = []"
| "allowed_transitions TaskFailed = []"
| "allowed_transitions TaskSkipped = []"

definition assert_transition :: "task_status \<Rightarrow> task_status \<Rightarrow> unit res" where
  "assert_transition current new =
     (if new \<in> set (allowed_transitions current) then Inr ()
      else Inl (ControlStateError (task_status_value current) (task_status_value new)))"

definition derive_run_status :: "task_status list \<Rightarrow> run_status" where
  "derive_run_status statuses =
     (if statuses = [] then RunSucceeded
      else if list_ex (\<lambda>s. s \<in> {TaskPending, TaskRunning}) statuses then RunRunning
      else
        let failed = filter (\<lambda>s. s = TaskFailed) statuses in
        if failed = [] then RunSucceeded
        else if length failed = length statuses then RunFailed else RunPartial)"

definition make_run_id :: "string \<Rightarrow> pdatetime \<Rightarrow> string \<Rightarrow> string" where
  "make_run_id env started suffix =
     env @ ''-'' @ zpad 4 (d_year (dt_date started)) @ zpad 2 (d_month (dt_date started)) @
     zpad 2 (d_day (dt_date started)) @ ''T'' @ zpad 2 (dt_hour started) @
     zpad 2 (dt_minute started) @ zpad 2 (dt_second started) @ ''-'' @ take 6 suffix"

section \<open>Rows\<close>

record task_metrics =
  tm_source_count :: "int option"
  tm_rows_read :: "int option"
  tm_rows_written :: "int option"
  tm_rows_inserted :: "int option"
  tm_rows_updated :: "int option"
  tm_rows_deleted :: "int option"
  tm_bytes_written :: "int option"
  tm_watermark_from :: "string option"
  tm_watermark_to :: "string option"

definition empty_metrics :: task_metrics where
  "empty_metrics =
     \<lparr>tm_source_count = None, tm_rows_read = None, tm_rows_written = None,
      tm_rows_inserted = None, tm_rows_updated = None, tm_rows_deleted = None,
      tm_bytes_written = None, tm_watermark_from = None, tm_watermark_to = None\<rparr>"

record task_ref =
  tr_run_id :: string
  tr_table_fqn :: string
  tr_attempt :: int

record run_context =
  rc_run_id :: string
  rc_env :: string
  rc_started_at :: pdatetime
  rc_trigger :: string
  rc_triggered_by :: "string option"
  rc_table_count :: int

record run_row =
  run_id :: string
  run_env :: string
  run_status :: string
  run_trigger :: string
  run_triggered_by :: "string option"
  run_job_id :: "string option"
  run_job_run_id :: "string option"
  run_table_count :: int
  run_started_at :: pdatetime
  run_ended_at :: "pdatetime option"
  run_duration_ms :: "int option"
  run_error_message :: "string option"

record task_row =
  task_run_id :: string
  task_table_fqn :: string
  task_env :: string
  task_attempt :: int
  task_status :: string
  task_extraction_mode :: string
  task_write_mode :: string
  task_config_hash :: string
  task_watermark_from :: "string option"
  task_metrics :: task_metrics
  task_started_at :: pdatetime
  task_ended_at :: "pdatetime option"
  task_duration_ms :: "int option"
  task_error_type :: "string option"
  task_error_message :: "string option"

record registry_row =
  cr_config_hash :: string
  cr_table_fqn :: string
  cr_env :: string
  cr_resolved_json :: string
  cr_config_sources :: "string list"
  cr_first_seen_at :: pdatetime
  cr_last_seen_at :: pdatetime
  cr_last_run_id :: "string option"

section \<open>Runs\<close>

text \<open>\<open>_duration_ms\<close>: \<open>float_ms\<close> maps the microseconds between two times to the integer part
  of their seconds, as a float, times 1000.\<close>

definition duration_ms :: "(int \<Rightarrow> int) \<Rightarrow> pdatetime option \<Rightarrow> pdatetime \<Rightarrow> int option" where
  "duration_ms float_ms start end =
     map_option (\<lambda>s. float_ms (datetime_us end - datetime_us s)) start"

definition truncate_limit :: nat where
  "truncate_limit = 8000"

definition truncate_text :: "nat \<Rightarrow> string option \<Rightarrow> string option" where
  "truncate_text limit text =
     map_option (\<lambda>t. if length t \<le> limit then t
       else take limit t @ ''... [truncated '' @ str_nat (length t - limit) @ '' chars]'') text"

definition start_run_row ::
  "string \<Rightarrow> string \<Rightarrow> string \<Rightarrow> string option \<Rightarrow> int \<Rightarrow> string option \<Rightarrow> string option \<Rightarrow>
   pdatetime \<Rightarrow> run_row" where
  "start_run_row rid env trigger triggered_by table_count job_id job_run_id started =
     \<lparr>run_id = rid, run_env = env, run_status = run_status_value RunRunning,
      run_trigger = trigger, run_triggered_by = triggered_by, run_job_id = job_id,
      run_job_run_id = job_run_id, run_table_count = table_count, run_started_at = started,
      run_ended_at = None, run_duration_ms = None, run_error_message = None\<rparr>"

definition start_run_context ::
  "string \<Rightarrow> string \<Rightarrow> string \<Rightarrow> string option \<Rightarrow> int \<Rightarrow> pdatetime \<Rightarrow> run_context" where
  "start_run_context rid env trigger triggered_by table_count started =
     \<lparr>rc_run_id = rid, rc_env = env, rc_started_at = started, rc_trigger = trigger,
      rc_triggered_by = triggered_by, rc_table_count = table_count\<rparr>"

definition insert_run :: "run_row \<Rightarrow> run_row list \<Rightarrow> run_row list" where
  "insert_run r rows = rows @ [r]"

text \<open>The statuses of the latest attempt of every table of the run.\<close>

definition same_task :: "string \<Rightarrow> string \<Rightarrow> task_row \<Rightarrow> bool" where
  "same_task rid table_fqn t = (task_run_id t = rid \<and> task_table_fqn t = table_fqn)"

definition max_attempt :: "string \<Rightarrow> string \<Rightarrow> task_row list \<Rightarrow> int option" where
  "max_attempt rid table_fqn tasks =
     (case map task_attempt (filter (same_task rid table_fqn) tasks) of
        [] \<Rightarrow> None | a # as \<Rightarrow> Some (foldl max a as))"

definition task_statuses :: "string \<Rightarrow> task_row list \<Rightarrow> string list" where
  "task_statuses rid tasks =
     map task_status
       (filter (\<lambda>t. task_run_id t = rid \<and>
                    Some (task_attempt t) = max_attempt (task_run_id t) (task_table_fqn t) tasks) tasks)"

definition update_run ::
  "string \<Rightarrow> run_status \<Rightarrow> pdatetime \<Rightarrow> int option \<Rightarrow> string option \<Rightarrow> run_row list \<Rightarrow> run_row list" where
  "update_run rid status ended dur message rows =
     map (\<lambda>r. if run_id r = rid
              then r\<lparr>run_status := run_status_value status, run_ended_at := Some ended,
                     run_duration_ms := dur, run_error_message := message\<rparr>
              else r) rows"

text \<open>The status a run closes with: the given one, or what its tasks derive.\<close>

definition resolve_run_status :: "string option \<Rightarrow> string list \<Rightarrow> run_status res" where
  "resolve_run_status status statuses =
     (case status of
        Some s \<Rightarrow>
          if s \<noteq> [] then run_status_of s
          else bindE (mapE task_status_of statuses) (\<lambda>ts. Inr (derive_run_status ts))
      | None \<Rightarrow> bindE (mapE task_status_of statuses) (\<lambda>ts. Inr (derive_run_status ts)))"

definition finish_run ::
  "(int \<Rightarrow> int) \<Rightarrow> run_context \<Rightarrow> string option \<Rightarrow> string option \<Rightarrow> pdatetime \<Rightarrow> task_row list \<Rightarrow>
   run_row list \<Rightarrow> (run_status \<times> run_row list) res" where
  "finish_run float_ms run status message ended tasks runs =
     bindE (resolve_run_status status (task_statuses (rc_run_id run) tasks)) (\<lambda>resolved.
       Inr (resolved,
            update_run (rc_run_id run) resolved ended
              (duration_ms float_ms (Some (rc_started_at run)) ended) message runs))"

section \<open>Tasks\<close>

definition start_task_row ::
  "string \<Rightarrow> string \<Rightarrow> string \<Rightarrow> string \<Rightarrow> string \<Rightarrow> string \<Rightarrow> int \<Rightarrow> string option \<Rightarrow>
   pdatetime \<Rightarrow> task_row" where
  "start_task_row rid table_fqn env extraction_mode write_mode config_hash attempt wm_from started =
     \<lparr>task_run_id = rid, task_table_fqn = table_fqn, task_env = env, task_attempt = attempt,
      task_status = task_status_value TaskRunning, task_extraction_mode = extraction_mode,
      task_write_mode = write_mode, task_config_hash = config_hash,
      task_watermark_from = wm_from, task_metrics = empty_metrics, task_started_at = started,
      task_ended_at = None, task_duration_ms = None, task_error_type = None,
      task_error_message = None\<rparr>"

definition insert_task :: "task_row \<Rightarrow> task_row list \<Rightarrow> task_row list" where
  "insert_task t tasks = tasks @ [t]"

definition is_task :: "task_ref \<Rightarrow> task_row \<Rightarrow> bool" where
  "is_task ref t =
     (task_run_id t = tr_run_id ref \<and> task_table_fqn t = tr_table_fqn ref \<and>
      task_attempt t = tr_attempt ref)"

definition coalesce :: "'a option \<Rightarrow> 'a option \<Rightarrow> 'a option" where
  "coalesce a b = (case a of None \<Rightarrow> b | Some _ \<Rightarrow> a)"

definition finish_task_row ::
  "task_status \<Rightarrow> task_metrics \<Rightarrow> string option \<Rightarrow> string option \<Rightarrow> int option \<Rightarrow> pdatetime \<Rightarrow>
   task_row \<Rightarrow> task_row" where
  "finish_task_row status metrics error_type message dur ended t =
     t\<lparr>task_status := task_status_value status,
       task_watermark_from := coalesce (tm_watermark_from metrics) (task_watermark_from t),
       task_metrics := metrics, task_ended_at := Some ended, task_duration_ms := dur,
       task_error_type := error_type, task_error_message := message\<rparr>"

text \<open>The UPDATE of \<open>finish_task\<close>, and the method with its guard.\<close>

definition update_task ::
  "task_ref \<Rightarrow> task_status \<Rightarrow> task_metrics \<Rightarrow> string option \<Rightarrow> string option \<Rightarrow> int option \<Rightarrow>
   pdatetime \<Rightarrow> task_row list \<Rightarrow> task_row list" where
  "update_task ref status metrics error_type message dur ended tasks =
     map (\<lambda>t. if is_task ref t
              then finish_task_row status metrics error_type message dur ended t else t) tasks"

definition finish_task ::
  "(int \<Rightarrow> int) \<Rightarrow> task_ref \<Rightarrow> task_status \<Rightarrow> task_metrics \<Rightarrow> string option \<Rightarrow> string option \<Rightarrow>
   pdatetime option \<Rightarrow> pdatetime \<Rightarrow> task_status \<Rightarrow> task_row list \<Rightarrow> task_row list res" where
  "finish_task float_ms ref status metrics error_type message started ended current_status tasks =
     bindE (assert_transition current_status status) (\<lambda>_.
       Inr (update_task ref status metrics error_type (truncate_text truncate_limit message)
              (duration_ms float_ms started ended) ended tasks))"

definition next_attempt :: "string \<Rightarrow> string \<Rightarrow> task_row list \<Rightarrow> int" where
  "next_attempt rid table_fqn tasks =
     (case max_attempt rid table_fqn tasks of
        None \<Rightarrow> 1 | Some a \<Rightarrow> if a = 0 then 1 else a + 1)"

definition get_task :: "task_ref \<Rightarrow> task_row list \<Rightarrow> task_row option" where
  "get_task ref tasks = (case filter (is_task ref) tasks of [] \<Rightarrow> None | t # _ \<Rightarrow> Some t)"

section \<open>Config registry\<close>

definition same_config :: "string \<Rightarrow> string \<Rightarrow> string \<Rightarrow> registry_row \<Rightarrow> bool" where
  "same_config hash table_fqn env r =
     (cr_config_hash r = hash \<and> cr_table_fqn r = table_fqn \<and> cr_env r = env)"

definition register_config ::
  "string \<Rightarrow> string \<Rightarrow> string \<Rightarrow> string \<Rightarrow> string list \<Rightarrow> string option \<Rightarrow> pdatetime \<Rightarrow>
   registry_row list \<Rightarrow> registry_row list" where
  "register_config table_fqn env hash resolved_json sources rid seen rows =
     (if list_ex (same_config hash table_fqn env) rows
      then map (\<lambda>r. if same_config hash table_fqn env r
                    then r\<lparr>cr_last_seen_at := seen, cr_last_run_id := rid\<rparr> else r) rows
      else rows @
        [\<lparr>cr_config_hash = hash, cr_table_fqn = table_fqn, cr_env = env,
          cr_resolved_json = resolved_json, cr_config_sources = sources,
          cr_first_seen_at = seen, cr_last_seen_at = seen, cr_last_run_id = rid\<rparr>])"

section \<open>Checks\<close>

text \<open>A row for the reconciliation table; \<open>checked_at\<close> may be absent from the mapping given.\<close>

record check_row =
  ck_run_id :: string
  ck_table_fqn :: string
  ck_env :: string
  ck_check_type :: string
  ck_check_name :: string
  ck_source_count :: "int option"
  ck_target_count :: "int option"
  ck_delta :: "int option"
  ck_status :: string
  ck_details :: "string option"
  ck_checked_at :: "pdatetime option"

definition stamp_check :: "pdatetime \<Rightarrow> check_row \<Rightarrow> check_row" where
  "stamp_check stamp c =
     c\<lparr>ck_checked_at := (case ck_checked_at c of None \<Rightarrow> Some stamp | Some t \<Rightarrow> Some t)\<rparr>"

definition record_checks :: "check_row list \<Rightarrow> pdatetime \<Rightarrow> check_row list \<Rightarrow> nat \<times> check_row list" where
  "record_checks checks stamp rows =
     (if checks = [] then (0, rows)
      else (length checks, rows @ map (stamp_check stamp) checks))"

declare stamp_check_def [evals] record_checks_def [evals]
declare task_status_of_def [evals] run_status_of_def [evals] terminal_task_statuses_def [evals]
  assert_transition_def [evals] derive_run_status_def [evals] empty_metrics_def [evals]
  duration_ms_def [evals] truncate_text_def [evals] start_run_row_def [evals]
  start_run_context_def [evals] insert_run_def [evals] same_task_def [evals]
  max_attempt_def [evals] task_statuses_def [evals] update_run_def [evals]
  resolve_run_status_def [evals] finish_run_def [evals] start_task_row_def [evals]
  insert_task_def [evals] is_task_def [evals] coalesce_def [evals] finish_task_row_def [evals]
  update_task_def [evals]
  finish_task_def [evals] next_attempt_def [evals] get_task_def [evals]
  same_config_def [evals] register_config_def [evals]


section \<open>The state machine\<close>

definition task_step :: "task_status \<Rightarrow> task_status \<Rightarrow> bool" where
  "task_step a b = (assert_transition a b = Inr ())"

lemma task_step_iff: "task_step a b \<longleftrightarrow> b \<in> set (allowed_transitions a)"
  by (simp add: task_step_def assert_transition_def)

lemma terminal_iff: "a \<in> set terminal_task_statuses \<longleftrightarrow> allowed_transitions a = []"
  by (cases a) (auto simp: terminal_task_statuses_def)

text \<open>The distance of a status from the end of its life.\<close>

fun task_rank :: "task_status \<Rightarrow> nat" where
  "task_rank TaskPending = 2"
| "task_rank TaskRunning = 1"
| "task_rank _ = 0"

lemma task_step_rank: "task_step a b \<Longrightarrow> task_rank b < task_rank a"
  by (cases a; cases b) (auto simp: task_step_iff)

lemma task_rank_terminal: "task_rank a = 0 \<longleftrightarrow> a \<in> set terminal_task_statuses"
  by (cases a) (auto simp: terminal_task_statuses_def)

text \<open>A history of a task: every move in it passed the guard.\<close>

fun task_history :: "task_status list \<Rightarrow> bool" where
  "task_history (a # b # hs) = (task_step a b \<and> task_history (b # hs))"
| "task_history _ = True"

lemma task_history_rank: "task_history (a # hs) \<Longrightarrow> length hs \<le> task_rank a"
proof (induction hs arbitrary: a)
  case (Cons b hs)
  then show ?case using task_step_rank [of a b] by fastforce
qed simp

lemma task_history_terminal:
  "task_history hs \<Longrightarrow> i < length hs - 1 \<Longrightarrow> hs ! i \<notin> set terminal_task_statuses"
proof (induction hs arbitrary: i rule: task_history.induct)
  case (1 a b hs)
  have "a \<notin> set terminal_task_statuses"
    using 1(2) by (auto simp: task_step_iff terminal_iff)
  with 1 show ?case by (cases i) auto
qed auto

section \<open>Tasks as an append-only log\<close>

definition task_key :: "task_row \<Rightarrow> string \<times> string \<times> int" where
  "task_key t = (task_run_id t, task_table_fqn t, task_attempt t)"

definition ref_key :: "task_ref \<Rightarrow> string \<times> string \<times> int" where
  "ref_key r = (tr_run_id r, tr_table_fqn r, tr_attempt r)"

lemma is_task_key: "is_task ref t \<longleftrightarrow> task_key t = ref_key ref"
  by (auto simp: is_task_def task_key_def ref_key_def)

definition attempts :: "string \<Rightarrow> string \<Rightarrow> task_row list \<Rightarrow> int list" where
  "attempts rid table_fqn tasks = map task_attempt (filter (same_task rid table_fqn) tasks)"

lemma foldl_max_mem: "foldl max a as \<in> set (a # as)"
proof (induction as arbitrary: a)
  case (Cons b as)
  from Cons [of "max a b"] show ?case by (auto simp: max_def split: if_splits)
qed simp

lemma foldl_max_ge: "x \<in> set (a # as) \<Longrightarrow> x \<le> foldl max a (as :: int list)"
proof (induction as arbitrary: a x)
  case (Cons b as)
  have "max a b \<le> foldl max (max a b) as" by (rule Cons.IH) simp
  with Cons show ?case by fastforce
qed simp

lemma max_attempt_eq:
  "max_attempt rid fqn tasks =
    (if attempts rid fqn tasks = [] then None else Some (Max (set (attempts rid fqn tasks))))"
proof -
  have "foldl max a as = Max (set (a # as))" for a :: int and as
    by (rule Max_eqI [symmetric]) (use foldl_max_mem foldl_max_ge in auto)
  then show ?thesis
    unfolding max_attempt_def attempts_def [symmetric] by (simp split: list.split del: list.set)
qed

lemma attempts_insert:
  "attempts rid fqn (insert_task t tasks) =
    attempts rid fqn tasks @ (if same_task rid fqn t then [task_attempt t] else [])"
  by (simp add: attempts_def insert_task_def)

lemma next_attempt_new: "a \<in> set (attempts rid fqn tasks) \<Longrightarrow> a < next_attempt rid fqn tasks"
proof -
  assume a: "a \<in> set (attempts rid fqn tasks)"
  define m where "m = Max (set (attempts rid fqn tasks))"
  have "a \<le> m" using a by (simp add: m_def)
  moreover have "max_attempt rid fqn tasks = Some m" using a by (auto simp: max_attempt_eq m_def)
  ultimately show ?thesis by (auto simp: next_attempt_def)
qed

lemma next_attempt_consecutive:
  "attempts rid fqn tasks = map int [1..<n + 1] \<Longrightarrow> next_attempt rid fqn tasks = int n + 1"
proof (cases n)
  case (Suc k)
  assume a: "attempts rid fqn tasks = map int [1..<n + 1]"
  have "Max (set (map int [1..<n + 1])) = int n"
    by (rule Max_eqI) (auto simp: Suc)
  with a Suc show ?thesis by (simp add: next_attempt_def max_attempt_eq)
qed (simp add: next_attempt_def max_attempt_eq)

lemma finish_task_row_key [simp]:
  "task_key (finish_task_row st m et msg d e t) = task_key t"
  "same_task rid fqn (finish_task_row st m et msg d e t) = same_task rid fqn t"
  "task_attempt (finish_task_row st m et msg d e t) = task_attempt t"
  "is_task ref (finish_task_row st m et msg d e t) = is_task ref t"
  by (simp_all add: finish_task_row_def task_key_def same_task_def is_task_def)

lemma finish_task_Inr:
  "finish_task fm ref status m et msg started ended cur tasks = Inr tasks' \<longleftrightarrow>
   task_step cur status \<and>
   tasks' = update_task ref status m et (truncate_text truncate_limit msg)
     (duration_ms fm started ended) ended tasks"
  by (auto simp: finish_task_def task_step_def assert_transition_def)

lemma update_task_keys: "map task_key (update_task ref st m et msg d e tasks) = map task_key tasks"
  unfolding update_task_def by (rule update_keys) simp

lemma update_task_frame:
  "filter (\<lambda>t. task_key t \<noteq> ref_key ref) (update_task ref st m et msg d e tasks) =
   filter (\<lambda>t. task_key t \<noteq> ref_key ref) tasks"
  unfolding update_task_def by (rule update_frame) (simp_all add: is_task_key)

interpretation closed: keyed_table
  "\<lambda>(ref, status, m, et, msg, d, e). update_task ref status m et msg d e"
  task_key "\<lambda>(ref, _). ref_key ref"
proof (unfold_locales, goal_cases)
  case (1 p rows)
  show ?case by (cases p) (simp only: prod.case update_task_keys simp_thms)
next
  case (2 p rows)
  show ?case by (cases p) (simp only: prod.case update_task_frame)
qed

text \<open>The registry, one row per configuration hash, table and environment.\<close>

definition config_key :: "registry_row \<Rightarrow> string \<times> string \<times> string" where
  "config_key r = (cr_config_hash r, cr_table_fqn r, cr_env r)"

lemma same_config_key: "same_config h t e r \<longleftrightarrow> config_key r = (h, t, e)"
  by (auto simp: same_config_def config_key_def)

definition touch_config :: "string option \<Rightarrow> pdatetime \<Rightarrow> registry_row \<Rightarrow> registry_row" where
  "touch_config rid seen r = r\<lparr>cr_last_seen_at := seen, cr_last_run_id := rid\<rparr>"

lemma touch_config_key [simp]: "config_key (touch_config rid seen r) = config_key r"
  "same_config h t e (touch_config rid seen r) = same_config h t e r"
  "cr_first_seen_at (touch_config rid seen r) = cr_first_seen_at r"
  "cr_last_seen_at (touch_config rid seen r) = seen"
  "cr_resolved_json (touch_config rid seen r) = cr_resolved_json r"
  by (simp_all add: touch_config_def config_key_def same_config_def)

lemma register_config_eq:
  "register_config t e h j src rid seen rows =
    (if list_ex (same_config h t e) rows
     then map (\<lambda>r. if same_config h t e r then touch_config rid seen r else r) rows
     else rows @ [\<lparr>cr_config_hash = h, cr_table_fqn = t, cr_env = e, cr_resolved_json = j,
       cr_config_sources = src, cr_first_seen_at = seen, cr_last_seen_at = seen,
       cr_last_run_id = rid\<rparr>])"
  by (simp add: register_config_def touch_config_def)

lemma register_config_keys:
  "map config_key (register_config t e h j src rid seen rows) = map config_key rows \<or>
   (h, t, e) \<notin> set (map config_key rows) \<and>
   map config_key (register_config t e h j src rid seen rows) = map config_key rows @ [(h, t, e)]"
proof (cases "list_ex (same_config h t e) rows")
  case True
  then show ?thesis
    using update_keys [of config_key "touch_config rid seen" "same_config h t e" rows]
    by (simp only: register_config_eq if_True touch_config_key simp_thms)
next
  case False
  then show ?thesis
    by (auto simp: register_config_eq list_ex_iff same_config_key) (simp_all add: config_key_def)
qed

lemma register_config_frame:
  "filter (\<lambda>r. config_key r \<noteq> (h, t, e)) (register_config t e h j src rid seen rows) =
   filter (\<lambda>r. config_key r \<noteq> (h, t, e)) rows"
proof (cases "list_ex (same_config h t e) rows")
  case True
  then show ?thesis
    using update_frame [of "same_config h t e" config_key "(h, t, e)" "touch_config rid seen" rows]
    by (simp add: register_config_eq same_config_key)
next
  case False
  then show ?thesis by (simp add: register_config_eq) (simp add: config_key_def)
qed

interpretation registry: keyed_table
  "\<lambda>(t, e, h, j, src, rid, seen). register_config t e h j src rid seen" config_key
  "\<lambda>(t, e, h, _). (h, t, e)"
proof (unfold_locales, goal_cases)
  case (1 p rows)
  show ?case by (cases p) (simp only: prod.case register_config_keys)
next
  case (2 p rows)
  show ?case by (cases p) (simp only: prod.case register_config_frame)
qed


type_synonym registration =
  "string \<times> string \<times> string \<times> string \<times> string list \<times> string option \<times> pdatetime"

definition register_step :: "registration \<Rightarrow> registry_row list \<Rightarrow> registry_row list" where
  "register_step = (\<lambda>(t, e, h, j, src, rid, seen). register_config t e h j src rid seen)"

definition registers :: "string \<Rightarrow> string \<Rightarrow> string \<Rightarrow> registration \<Rightarrow> bool" where
  "registers h t e = (\<lambda>(t', e', h', _). (h', t', e') = (h, t, e))"

definition seen_of :: "registration \<Rightarrow> pdatetime" where
  "seen_of = (\<lambda>(_, _, _, _, _, _, seen). seen)"

lemma find_register_step:
  assumes "List.find (same_config h t e) rows = Some r"
  shows "\<exists>r'. List.find (same_config h t e) (register_step p rows) = Some r' \<and>
    cr_first_seen_at r' = cr_first_seen_at r \<and> cr_resolved_json r' = cr_resolved_json r \<and>
    cr_last_seen_at r' = (if registers h t e p then seen_of p else cr_last_seen_at r)"
proof -
  obtain t' e' h' j src rid seen where p: "p = (t', e', h', j, src, rid, seen)" by (cases p) auto
  have m: "same_config h t e r" "r \<in> set rows" using assms by (auto dest: find_SomeD)
  have f: "List.find (same_config h t e) (map (\<lambda>r. if same_config h' t' e' r then touch_config rid seen r else r) rows) =
      Some (if same_config h' t' e' r then touch_config rid seen r else r)"
    by (subst find_map_same) (auto simp: assms)
  show ?thesis
  proof (cases "list_ex (same_config h' t' e') rows")
    case True
    with f m show ?thesis
      by (auto simp: p register_step_def register_config_eq registers_def seen_of_def same_config_def)
  next
    case False
    then have "(h', t', e') \<noteq> (h, t, e)" using m by (auto simp: list_ex_iff)
    with False assms show ?thesis
      by (auto simp: p register_step_def register_config_eq registers_def seen_of_def find_append)
  qed
qed

lemma find_register_steps:
  assumes "List.find (same_config h t e) rows = Some r"
  shows "\<exists>r'. List.find (same_config h t e) (fold register_step ps rows) = Some r' \<and>
    cr_first_seen_at r' = cr_first_seen_at r \<and> cr_resolved_json r' = cr_resolved_json r \<and>
    cr_last_seen_at r' = last (cr_last_seen_at r # map seen_of (filter (registers h t e) ps))"
  using assms
proof (induction ps arbitrary: rows r)
  case (Cons p ps)
  from find_register_step [OF Cons.prems, of p] obtain r1 where
    r1: "List.find (same_config h t e) (register_step p rows) = Some r1"
      "cr_first_seen_at r1 = cr_first_seen_at r" "cr_resolved_json r1 = cr_resolved_json r"
      "cr_last_seen_at r1 = (if registers h t e p then seen_of p else cr_last_seen_at r)" by blast
  from Cons.IH [OF r1(1)] r1(2-) show ?case by (cases "registers h t e p") auto
qed simp

lemma task_statuses_mem:
  "s \<in> set (task_statuses rid tasks) \<longleftrightarrow>
   (\<exists>t\<in>set tasks. task_run_id t = rid \<and> s = task_status t \<and>
      (\<forall>u\<in>set tasks. same_task rid (task_table_fqn t) u \<longrightarrow> task_attempt u \<le> task_attempt t))"
proof -
  have "Some (task_attempt t) = max_attempt (task_run_id t) (task_table_fqn t) tasks \<longleftrightarrow>
      (\<forall>u\<in>set tasks. same_task (task_run_id t) (task_table_fqn t) u \<longrightarrow> task_attempt u \<le> task_attempt t)"
    if t: "t \<in> set tasks" for t
  proof -
    let ?A = "set (attempts (task_run_id t) (task_table_fqn t) tasks)"
    have mem: "task_attempt t \<in> ?A" using t by (auto simp: attempts_def same_task_def)
    have "task_attempt t = Max ?A \<longleftrightarrow> (\<forall>a\<in>?A. a \<le> task_attempt t)"
      using mem by (auto intro: Max_eqI [symmetric])
    moreover have "attempts (task_run_id t) (task_table_fqn t) tasks \<noteq> []" using mem by auto
    then have "max_attempt (task_run_id t) (task_table_fqn t) tasks = Some (Max ?A)"
      by (simp add: max_attempt_eq)
    ultimately show ?thesis by (auto simp: attempts_def)
  qed
  then show ?thesis by (auto simp: task_statuses_def)
qed

lemma derive_run_status_cases:
  "derive_run_status ts = RunRunning \<longleftrightarrow> (\<exists>s\<in>set ts. s \<in> {TaskPending, TaskRunning})"
  "derive_run_status ts = RunFailed \<longleftrightarrow> ts \<noteq> [] \<and> (\<forall>s\<in>set ts. s = TaskFailed)"
  "derive_run_status ts = RunSucceeded \<longleftrightarrow> (\<forall>s\<in>set ts. s \<in> {TaskSucceeded, TaskSkipped})"
proof -
  have all: "length (filter (\<lambda>s. s = TaskFailed) ts) = length ts \<longleftrightarrow> (\<forall>s\<in>set ts. s = TaskFailed)"
    using filter_id_conv length_filter_less by (metis (mono_tags, lifting) less_irrefl)
  have S: "s \<in> {TaskPending, TaskRunning} \<or> s = TaskFailed \<or> s \<in> {TaskSucceeded, TaskSkipped}" for s
    by (cases s) auto
  show "derive_run_status ts = RunRunning \<longleftrightarrow> (\<exists>s\<in>set ts. s \<in> {TaskPending, TaskRunning})"
    by (auto simp: derive_run_status_def list_ex_iff Let_def)
  show "derive_run_status ts = RunFailed \<longleftrightarrow> ts \<noteq> [] \<and> (\<forall>s\<in>set ts. s = TaskFailed)"
    using all by (cases ts) (auto simp: derive_run_status_def list_ex_iff Let_def filter_empty_conv)
  show "derive_run_status ts = RunSucceeded \<longleftrightarrow> (\<forall>s\<in>set ts. s \<in> {TaskSucceeded, TaskSkipped})"
    using all S by (cases ts) (auto simp: derive_run_status_def list_ex_iff Let_def filter_empty_conv)
qed


section \<open>Properties\<close>

text \<open>C34: A history of statuses whose every move passed \<open>assert_transition\<close> has at most three
  statuses and visits a terminal one only at its end, and from a terminal status every
  move is refused with an error naming both statuses: a terminal task is never resurrected.\<close>

theorem task_lifecycle:
  "(task_history hs \<longrightarrow> length hs \<le> 3 \<and> (\<forall>i < length hs - 1. hs ! i \<notin> set terminal_task_statuses)) \<and>
   (current \<in> set terminal_task_statuses \<longrightarrow>
     assert_transition current new =
       Inl (ControlStateError (task_status_value current) (task_status_value new)))"
proof (intro conjI impI)
  assume h: "task_history hs"
  show "length hs \<le> 3"
  proof (cases hs)
    case (Cons a t)
    moreover have "task_rank a \<le> 2" by (cases a) auto
    ultimately show ?thesis using task_history_rank [of a t] h by simp
  qed simp
  show "\<forall>i < length hs - 1. hs ! i \<notin> set terminal_task_statuses"
    using task_history_terminal [OF h] by blast
qed (simp add: assert_transition_def terminal_iff)

lemma task_lifecycle_witness:
  "length [TaskPending, TaskRunning, TaskFailed] \<le> 3 \<and>
   assert_transition TaskFailed TaskRunning = Inl (ControlStateError ''FAILED'' ''RUNNING'')"
proof -
  have "task_history [TaskPending, TaskRunning, TaskFailed]" by (simp add: task_step_iff)
  moreover have "TaskFailed \<in> set terminal_task_statuses" by (simp add: terminal_task_statuses_def)
  ultimately show ?thesis
    using task_lifecycle [of "[TaskPending, TaskRunning, TaskFailed]" TaskFailed TaskRunning] by simp
qed

text \<open>Closing a run without an explicit status looks only at the latest attempt of each of
  its tables: the run is FAILED exactly when it has tables and all of them end failed,
  SUCCEEDED exactly when none is failed or still open, RUNNING exactly when one is still
  open; and the rows of other runs are not touched.\<close>

theorem finish_run_derives_status:
  assumes "finish_run fm run None msg ended tasks runs = Inr (st, runs')"
    "latest = {t \<in> set tasks. task_run_id t = rc_run_id run \<and>
      (\<forall>u\<in>set tasks. same_task (rc_run_id run) (task_table_fqn t) u \<longrightarrow> task_attempt u \<le> task_attempt t)}"
  shows "(st = RunFailed \<longleftrightarrow> latest \<noteq> {} \<and> (\<forall>t\<in>latest. task_status t = ''FAILED'')) \<and>
    (st = RunSucceeded \<longleftrightarrow> (\<forall>t\<in>latest. task_status t \<in> {''SUCCEEDED'', ''SKIPPED''})) \<and>
    (st = RunRunning \<longleftrightarrow> (\<exists>t\<in>latest. task_status t \<in> {''PENDING'', ''RUNNING''})) \<and>
    filter (\<lambda>r. run_id r \<noteq> rc_run_id run) runs' = filter (\<lambda>r. run_id r \<noteq> rc_run_id run) runs"
proof -
  let ?names = "task_statuses (rc_run_id run) tasks"
  obtain ts where ts: "mapE task_status_of ?names = Inr ts" and st: "st = derive_run_status ts"
    and runs': "runs' = update_run (rc_run_id run) st ended
      (duration_ms fm (Some (rc_started_at run)) ended) msg runs"
    using assms(1) by (auto simp: finish_run_def resolve_run_status_def bindE_Inr_iff)
  have conv: "task_status_of s = Inr t \<longleftrightarrow> s = task_status_value t" for s t
    by (cases t) (auto simp: task_status_of_def split: if_splits)
  from ts have names: "?names = map task_status_value ts"
    by (auto simp: mapE_Inr_iff conv list_all2_conv_all_nth intro: nth_equalityI)
  have set_names: "set ?names = task_status ` latest"
    by (auto simp: task_statuses_mem assms(2))
  have val: "task_status_value ` set ts = task_status ` latest"
    using names set_names by (metis list.set_map)
  have all: "(\<forall>s\<in>set ts. P s) \<longleftrightarrow> (\<forall>t\<in>latest. Q (task_status t))"
    if "\<And>s. Q (task_status_value s) \<longleftrightarrow> P s" for P Q
    using that val by (metis (mono_tags, lifting) image_iff)
  have ex: "(\<exists>s\<in>set ts. P s) \<longleftrightarrow> (\<exists>t\<in>latest. Q (task_status t))"
    if "\<And>s. Q (task_status_value s) \<longleftrightarrow> P s" for P Q
    using that val by (metis (mono_tags, lifting) image_iff)
  have v: "task_status_value s = ''FAILED'' \<longleftrightarrow> s = TaskFailed"
    "task_status_value s \<in> {''SUCCEEDED'', ''SKIPPED''} \<longleftrightarrow> s \<in> {TaskSucceeded, TaskSkipped}"
    "task_status_value s \<in> {''PENDING'', ''RUNNING''} \<longleftrightarrow> s \<in> {TaskPending, TaskRunning}" for s
    by (cases s; simp)+
  have ne: "ts \<noteq> [] \<longleftrightarrow> latest \<noteq> {}" using val by auto
  have fr: "filter (\<lambda>r. run_id r \<noteq> rc_run_id run) runs' = filter (\<lambda>r. run_id r \<noteq> rc_run_id run) runs"
    unfolding runs' update_run_def by (rule update_frame) simp_all
  show ?thesis
    using all [of "\<lambda>s. s = ''FAILED''", OF v(1)] all [of "\<lambda>s. s \<in> {''SUCCEEDED'', ''SKIPPED''}", OF v(2)]
      ex [of "\<lambda>s. s \<in> {''PENDING'', ''RUNNING''}", OF v(3)] ne fr
    unfolding st derive_run_status_cases by blast
qed


definition some_time :: pdatetime where
  "some_time = midnight (PDate 2024 3 2)"

definition sample_task :: "string \<Rightarrow> int \<Rightarrow> task_status \<Rightarrow> task_row" where
  "sample_task fqn attempt status =
     (start_task_row ''r1'' fqn ''dev'' ''full'' ''append'' ''h'' attempt None some_time)
       \<lparr>task_status := task_status_value status\<rparr>"

definition sample_run :: run_context where
  "sample_run = start_run_context ''r1'' ''dev'' ''manual'' None 1 some_time"

lemma finish_run_derives_status_witness:
  "\<exists>runs'. finish_run (\<lambda>u. u div 1000) sample_run None None some_time
       [sample_task ''d.a'' 1 TaskFailed, sample_task ''d.a'' 2 TaskSucceeded] [] = Inr (RunSucceeded, runs') \<and>
     filter (\<lambda>r. run_id r \<noteq> ''r1'') runs' = []"
proof -
  have f: "finish_run (\<lambda>u. u div 1000) sample_run None None some_time
      [sample_task ''d.a'' 1 TaskFailed, sample_task ''d.a'' 2 TaskSucceeded] [] = Inr (RunSucceeded, [])"
    by (simp add: sample_task_def sample_run_def start_run_context_def finish_run_def
        resolve_run_status_def task_statuses_def max_attempt_def same_task_def start_task_row_def
        task_status_of_def derive_run_status_def update_run_def)
  from finish_run_derives_status [OF f refl] f show ?thesis by auto
qed

text \<open>Retries append: when the attempts of a table in a run are 1 to n, opening a task with
  the next attempt makes them 1 to n + 1, in RUNNING, and leaves every row that was there
  unchanged; so history is never overwritten by a retry.\<close>

theorem retry_appends_attempt:
  assumes "attempts rid fqn tasks = map int [1..<n + 1]"
    "t = start_task_row rid fqn env mode write_mode hash (next_attempt rid fqn tasks) wm_from started"
  shows "attempts rid fqn (insert_task t tasks) = map int [1..<n + 2] \<and>
    insert_task t tasks = tasks @ [t] \<and> task_status t = ''RUNNING'' \<and>
    task_key t \<notin> set (map task_key tasks)"
proof -
  have "task_key t \<notin> set (map task_key tasks)"
  proof
    assume "task_key t \<in> set (map task_key tasks)"
    then obtain u where "u \<in> set tasks" "task_key u = task_key t" by auto
    then have "same_task rid fqn u" "task_attempt u = next_attempt rid fqn tasks"
      by (auto simp: assms(2) task_key_def start_task_row_def same_task_def)
    with \<open>u \<in> set tasks\<close> have "next_attempt rid fqn tasks \<in> set (attempts rid fqn tasks)"
      by (force simp: attempts_def)
    then show False using next_attempt_new by blast
  qed
  moreover have "same_task rid fqn t" "task_attempt t = int n + 1"
    using next_attempt_consecutive [OF assms(1)]
    by (simp_all add: assms(2) start_task_row_def same_task_def)
  moreover have "map int [1..<n + 2] = map int [1..<n + 1] @ [int n + 1]" by simp
  moreover have "task_status t = ''RUNNING''" by (simp add: assms(2) start_task_row_def)
  ultimately show ?thesis
    by (simp only: attempts_insert assms(1) if_True) (simp add: insert_task_def)
qed

lemma retry_appends_attempt_witness:
  "attempts ''r1'' ''d.a'' (insert_task
      (start_task_row ''r1'' ''d.a'' ''dev'' ''full'' ''append'' ''h''
        (next_attempt ''r1'' ''d.a'' [sample_task ''d.a'' 1 TaskFailed]) None some_time)
      [sample_task ''d.a'' 1 TaskFailed]) = map int [1..<1 + 2]"
proof -
  have a: "attempts ''r1'' ''d.a'' [sample_task ''d.a'' 1 TaskFailed] = map int [1..<1 + 1]"
    by (simp add: attempts_def sample_task_def start_task_row_def same_task_def)
  show ?thesis by (rule retry_appends_attempt [OF a refl, THEN conjunct1])
qed

text \<open>\<open>finish_task\<close> writes exactly one attempt: after a legal move every row with another
  key is as it was, the keys are the same, and the attempt named has the new status, the
  given metrics and error, a lower bound only replaced by a new one, and its start, mode,
  configuration hash and environment untouched; an illegal move writes nothing.\<close>

theorem finish_task_effect:
  "(task_step cur status \<longrightarrow>
     (\<exists>tasks'. finish_task fm ref status m et msg started ended cur tasks = Inr tasks' \<and>
       map task_key tasks' = map task_key tasks \<and>
       (\<forall>i < length tasks.
         (task_key (tasks ! i) \<noteq> ref_key ref \<longrightarrow> tasks' ! i = tasks ! i) \<and>
         (task_key (tasks ! i) = ref_key ref \<longrightarrow>
           tasks' ! i = (tasks ! i)\<lparr>task_status := task_status_value status,
               task_watermark_from := (if tm_watermark_from m = None then task_watermark_from (tasks ! i)
                                       else tm_watermark_from m),
               task_metrics := m, task_ended_at := Some ended, task_duration_ms := duration_ms fm started ended,
               task_error_type := et, task_error_message := truncate_text truncate_limit msg\<rparr>)))) \<and>
   (\<not> task_step cur status \<longrightarrow>
     finish_task fm ref status m et msg started ended cur tasks =
       Inl (ControlStateError (task_status_value cur) (task_status_value status)))"
proof (intro conjI impI)
  assume s: "task_step cur status"
  let ?tasks' = "update_task ref status m et (truncate_text truncate_limit msg)
    (duration_ms fm started ended) ended tasks"
  have "finish_task fm ref status m et msg started ended cur tasks = Inr ?tasks'"
    using s by (simp add: finish_task_Inr)
  moreover have "coalesce a b = (if a = None then b else a)" for a b :: "string option"
    by (auto simp: coalesce_def split: option.split)
  ultimately show "\<exists>tasks'. finish_task fm ref status m et msg started ended cur tasks = Inr tasks' \<and>
       map task_key tasks' = map task_key tasks \<and>
       (\<forall>i < length tasks.
         (task_key (tasks ! i) \<noteq> ref_key ref \<longrightarrow> tasks' ! i = tasks ! i) \<and>
         (task_key (tasks ! i) = ref_key ref \<longrightarrow>
           tasks' ! i = (tasks ! i)\<lparr>task_status := task_status_value status,
               task_watermark_from := (if tm_watermark_from m = None then task_watermark_from (tasks ! i)
                                       else tm_watermark_from m),
               task_metrics := m, task_ended_at := Some ended, task_duration_ms := duration_ms fm started ended,
               task_error_type := et, task_error_message := truncate_text truncate_limit msg\<rparr>))"
    by (intro exI [of _ ?tasks'] conjI)
      (auto simp: update_task_keys simp del: map_map, simp_all add: update_task_def is_task_key finish_task_row_def)
qed (auto simp: finish_task_def assert_transition_def task_step_def)


lemma finish_task_effect_witness:
  "\<exists>tasks'. finish_task (\<lambda>u. u) \<lparr>tr_run_id = ''r1'', tr_table_fqn = ''d.a'', tr_attempt = 1\<rparr> TaskSucceeded
     empty_metrics None None None some_time TaskRunning [sample_task ''d.a'' 1 TaskRunning] = Inr tasks' \<and>
   map task_key tasks' = [(''r1'', ''d.a'', 1)]"
proof -
  have "task_step TaskRunning TaskSucceeded" by (simp add: task_step_iff)
  moreover have "task_key (sample_task ''d.a'' 1 TaskRunning) = (''r1'', ''d.a'', 1)"
    by (simp add: sample_task_def task_key_def start_task_row_def)
  ultimately show ?thesis
    using finish_task_effect [of TaskRunning TaskSucceeded "\<lambda>u. u"
      "\<lparr>tr_run_id = ''r1'', tr_table_fqn = ''d.a'', tr_attempt = 1\<rparr>" empty_metrics None None None some_time
      "[sample_task ''d.a'' 1 TaskRunning]"] by auto
qed

text \<open>The guard of \<open>finish_task\<close> trusts the status its caller passes: a row already SUCCEEDED
  becomes FAILED when the caller says RUNNING, its default, although the state machine
  forbids the move.\<close>

theorem finish_task_overwrites_terminal:
  assumes "get_task ref tasks = Some t" "task_status t = ''SUCCEEDED''"
  shows "\<exists>tasks' t'. finish_task fm ref TaskFailed m et msg started ended TaskRunning tasks = Inr tasks' \<and>
    get_task ref tasks' = Some t' \<and> task_status t' = ''FAILED'' \<and> \<not> task_step TaskSucceeded TaskFailed"
proof -
  have "get_task ref (update_task ref st m et msg d e tasks) =
      map_option (finish_task_row st m et msg d e) (get_task ref tasks)" for st msg d e
    unfolding get_task_def update_task_def by (induction tasks) auto
  with assms show ?thesis
    by (auto simp: finish_task_Inr task_step_iff) (simp add: finish_task_row_def)
qed

lemma finish_task_overwrites_terminal_witness:
  "\<exists>tasks' t'. finish_task (\<lambda>u. u) \<lparr>tr_run_id = ''r1'', tr_table_fqn = ''d.a'', tr_attempt = 1\<rparr> TaskFailed
     empty_metrics None None None some_time TaskRunning [sample_task ''d.a'' 1 TaskSucceeded] = Inr tasks' \<and>
   get_task \<lparr>tr_run_id = ''r1'', tr_table_fqn = ''d.a'', tr_attempt = 1\<rparr> tasks' = Some t' \<and>
   task_status t' = ''FAILED'' \<and> \<not> task_step TaskSucceeded TaskFailed"
  by (rule finish_task_overwrites_terminal [of _ _ "sample_task ''d.a'' 1 TaskSucceeded"])
    (simp_all add: get_task_def sample_task_def start_task_row_def is_task_def)

text \<open>The registry keeps its history: once a configuration is registered for a table and
  environment, any sequence of registrations leaves exactly one row under that key, with
  its first-seen time and its text unchanged and its last-seen time that of the latest
  registration of that key.\<close>

theorem registry_keeps_history:
  assumes "distinct (map config_key rows)" "List.find (same_config h t e) rows = Some r"
  shows "distinct (map config_key (fold register_step ps rows)) \<and>
    (\<exists>r'. List.find (same_config h t e) (fold register_step ps rows) = Some r' \<and>
       cr_first_seen_at r' = cr_first_seen_at r \<and> cr_resolved_json r' = cr_resolved_json r \<and>
       cr_last_seen_at r' = last (cr_last_seen_at r # map seen_of (filter (registers h t e) ps)))"
  using registry.steps_distinct [OF assms(1)] find_register_steps [OF assms(2)]
  by (simp add: register_step_def)

lemma registry_keeps_history_witness:
  "\<exists>r'. List.find (same_config ''h'' ''d.a'' ''dev'')
       (fold register_step [(''d.a'', ''dev'', ''h'', ''{}'', [], Some ''r2'', some_time)]
         (register_config ''d.a'' ''dev'' ''h'' ''{}'' [] (Some ''r1'') (midnight (PDate 2024 1 1)) [])) = Some r' \<and>
     cr_first_seen_at r' = midnight (PDate 2024 1 1) \<and> cr_last_seen_at r' = some_time"
proof -
  let ?rows = "register_config ''d.a'' ''dev'' ''h'' ''{}'' [] (Some ''r1'') (midnight (PDate 2024 1 1)) []"
  have d: "distinct (map config_key ?rows)" by (simp add: register_config_def)
  obtain r where r: "List.find (same_config ''h'' ''d.a'' ''dev'') ?rows = Some r"
    "cr_first_seen_at r = midnight (PDate 2024 1 1)"
    by (simp add: register_config_def same_config_def)
  from registry_keeps_history [OF d r(1), of "[(''d.a'', ''dev'', ''h'', ''{}'', [], Some ''r2'', some_time)]"] r(2)
  show ?thesis by (auto simp: registers_def seen_of_def)
qed

end
