(* ===== verification/EventLog.thy ===== *)
theory EventLog
  imports ControlStore "HOL-Library.Sublist"
begin

text \<open>
  The audit event stream (control/audit.py): events, the buffer of \<open>AuditLog\<close> with its bound
  context and sequence number, \<open>emit\<close> and \<open>flush\<close>.  The time and the identifier of an event
  come from outside; the insert that \<open>flush\<close> makes may fail (\<open>fault\<close>).
\<close>

section \<open>Events\<close>

datatype event_type =
    RUN_STARTED | RUN_FINISHED | TASK_STARTED | TASK_SKIPPED | CONFIG_RESOLVED
  | EXTRACT_STARTED | EXTRACT_DONE | LOAD_STARTED | LOAD_DONE | RECONCILIATION_DONE
  | WATERMARK_ADVANCED | WATERMARK_HELD | WATERMARK_FORCED | SCHEMA_EVOLVED
  | TASK_SUCCEEDED | TASK_FAILED | TASK_RETRYING

fun event_type_value :: "event_type \<Rightarrow> string" where
  "event_type_value RUN_STARTED = ''RUN_STARTED''"
| "event_type_value RUN_FINISHED = ''RUN_FINISHED''"
| "event_type_value TASK_STARTED = ''TASK_STARTED''"
| "event_type_value TASK_SKIPPED = ''TASK_SKIPPED''"
| "event_type_value CONFIG_RESOLVED = ''CONFIG_RESOLVED''"
| "event_type_value EXTRACT_STARTED = ''EXTRACT_STARTED''"
| "event_type_value EXTRACT_DONE = ''EXTRACT_DONE''"
| "event_type_value LOAD_STARTED = ''LOAD_STARTED''"
| "event_type_value LOAD_DONE = ''LOAD_DONE''"
| "event_type_value RECONCILIATION_DONE = ''RECONCILIATION_DONE''"
| "event_type_value WATERMARK_ADVANCED = ''WATERMARK_ADVANCED''"
| "event_type_value WATERMARK_HELD = ''WATERMARK_HELD''"
| "event_type_value WATERMARK_FORCED = ''WATERMARK_FORCED''"
| "event_type_value SCHEMA_EVOLVED = ''SCHEMA_EVOLVED''"
| "event_type_value TASK_SUCCEEDED = ''TASK_SUCCEEDED''"
| "event_type_value TASK_FAILED = ''TASK_FAILED''"
| "event_type_value TASK_RETRYING = ''TASK_RETRYING''"

text \<open>The values a payload carries: scalars, and lists of names.\<close>

datatype payload_value = PV pyval | PNames "string list"

type_synonym payload = "(string \<times> payload_value) list"

record audit_event =
  ae_event_id :: string
  ae_event_type :: string
  ae_event_ts :: pdatetime
  ae_run_id :: "string option"
  ae_table_fqn :: "string option"
  ae_env :: "string option"
  ae_sequence :: nat
  ae_actor :: "string option"
  ae_payload :: payload

text \<open>\<open>to_row\<close>: the JSON text of the payload has its keys sorted.\<close>

definition event_row :: "audit_event \<Rightarrow> audit_event" where
  "event_row ev = ev\<lparr>ae_payload := sort_key fst (ae_payload ev)\<rparr>"

section \<open>The log\<close>

record audit_log =
  al_run_id :: "string option"
  al_env :: "string option"
  al_actor :: "string option"
  al_buffer :: "audit_event list"
  al_buffer_limit :: nat
  al_sequence :: nat

definition new_audit_log :: "string option \<Rightarrow> string option \<Rightarrow> string option \<Rightarrow> nat \<Rightarrow> audit_log" where
  "new_audit_log rid env actor limit =
     \<lparr>al_run_id = rid, al_env = env, al_actor = actor, al_buffer = [],
      al_buffer_limit = limit, al_sequence = 0\<rparr>"

definition pending :: "audit_log \<Rightarrow> nat" where
  "pending lg = length (al_buffer lg)"

definition audit_bind ::
  "string option \<Rightarrow> string option \<Rightarrow> string option \<Rightarrow> audit_log \<Rightarrow> audit_log" where
  "audit_bind rid env actor lg =
     lg\<lparr>al_run_id := (if rid \<noteq> None then rid else al_run_id lg),
         al_env := (if env \<noteq> None then env else al_env lg),
         al_actor := (if actor \<noteq> None then actor else al_actor lg)\<rparr>"

text \<open>\<open>run_id or self._run_id\<close>: an empty run id counts as none.\<close>

definition or_else :: "string option \<Rightarrow> string option \<Rightarrow> string option" where
  "or_else a b = (case a of Some s \<Rightarrow> if s = [] then b else a | None \<Rightarrow> b)"

definition make_event ::
  "string \<Rightarrow> pdatetime \<Rightarrow> event_type \<Rightarrow> string option \<Rightarrow> payload \<Rightarrow> string option \<Rightarrow>
   audit_log \<Rightarrow> audit_event" where
  "make_event eid now ty table_fqn payload rid lg =
     \<lparr>ae_event_id = eid, ae_event_type = event_type_value ty, ae_event_ts = now,
      ae_run_id = or_else rid (al_run_id lg), ae_table_fqn = table_fqn, ae_env = al_env lg,
      ae_sequence = al_sequence lg + 1, ae_actor = al_actor lg, ae_payload = payload\<rparr>"

definition buffer_event :: "audit_event \<Rightarrow> audit_log \<Rightarrow> audit_log" where
  "buffer_event ev lg =
     lg\<lparr>al_sequence := al_sequence lg + 1, al_buffer := al_buffer lg @ [ev]\<rparr>"

definition must_flush :: "bool \<Rightarrow> audit_log \<Rightarrow> bool" where
  "must_flush flush lg = (flush \<or> al_buffer_limit lg \<le> length (al_buffer lg))"

text \<open>
  The log together with the rows of the audit table.  \<open>flush\<close> empties the buffer before it
  inserts; the result is the number of rows written, or the exception of the insert.
\<close>

type_synonym audit_state = "audit_log \<times> audit_event list"

definition flush :: "fault \<Rightarrow> audit_state \<Rightarrow> nat res \<times> audit_state" where
  "flush ft st =
     (case st of (lg, rows) \<Rightarrow>
        if al_buffer lg = [] then (Inr 0, st)
        else
          let new = map event_row (al_buffer lg); lg' = lg\<lparr>al_buffer := []\<rparr>;
              rows' = call_effect ft (\<lambda>rs. rs @ new) rows
          in (case call_error ft of
                Some e \<Rightarrow> (Inl e, (lg', rows'))
              | None \<Rightarrow> (Inr (length new), (lg', rows'))))"

definition emit ::
  "fault \<Rightarrow> string \<Rightarrow> pdatetime \<Rightarrow> event_type \<Rightarrow> string option \<Rightarrow> payload \<Rightarrow> string option \<Rightarrow> bool \<Rightarrow>
   audit_state \<Rightarrow> audit_event res \<times> audit_state" where
  "emit ft eid now ty table_fqn payload rid flush_now st =
     (case st of (lg, rows) \<Rightarrow>
        let ev = make_event eid now ty table_fqn payload rid lg;
            lg' = buffer_event ev lg
        in if must_flush flush_now lg'
           then (case flush ft (lg', rows) of
                   (Inl e, st') \<Rightarrow> (Inl e, st')
                 | (Inr _, st') \<Rightarrow> (Inr ev, st'))
           else (Inr ev, (lg', rows)))"

declare event_row_def [evals] new_audit_log_def [evals] pending_def [evals]
  audit_bind_def [evals] or_else_def [evals] make_event_def [evals] buffer_event_def [evals]
  must_flush_def [evals] flush_def [evals] emit_def [evals]

section \<open>Lemmas\<close>

lemma event_row_simps [simp]:
  "ae_event_id (event_row ev) = ae_event_id ev" "ae_sequence (event_row ev) = ae_sequence ev"
  "ae_event_type (event_row ev) = ae_event_type ev" "ae_run_id (event_row ev) = ae_run_id ev"
  "ae_table_fqn (event_row ev) = ae_table_fqn ev"
  by (simp_all add: event_row_def)

text \<open>The arguments of one call of \<open>emit\<close>, and the events a sequence of calls builds.\<close>

record emit_call =
  ec_fault :: fault
  ec_id :: string
  ec_now :: pdatetime
  ec_type :: event_type
  ec_table :: "string option"
  ec_payload :: payload
  ec_run_id :: "string option"
  ec_flush :: bool

definition emit_step :: "emit_call \<Rightarrow> audit_state \<Rightarrow> audit_state" where
  "emit_step c st =
     snd (emit (ec_fault c) (ec_id c) (ec_now c) (ec_type c) (ec_table c) (ec_payload c)
       (ec_run_id c) (ec_flush c) st)"

definition built_event :: "emit_call \<Rightarrow> audit_log \<Rightarrow> audit_event" where
  "built_event c lg =
     make_event (ec_id c) (ec_now c) (ec_type c) (ec_table c) (ec_payload c) (ec_run_id c) lg"

text \<open>The rows stored or still buffered.\<close>

definition stream :: "audit_state \<Rightarrow> audit_event list" where
  "stream st = snd st @ map event_row (al_buffer (fst st))"

definition audit_inv :: "nat \<Rightarrow> audit_state \<Rightarrow> bool" where
  "audit_inv limit st =
     (al_buffer_limit (fst st) = limit \<and> length (al_buffer (fst st)) < limit \<and>
      sorted_wrt (<) (map ae_sequence (stream st)) \<and>
      (\<forall>ev\<in>set (stream st). ae_sequence ev \<le> al_sequence (fst st)))"

lemma flush_log: "fst (snd (flush ft (lg, rows))) = lg\<lparr>al_buffer := []\<rparr>"
  by (cases "al_buffer lg") (simp_all add: flush_def Let_def split: option.split)

lemma flush_rows:
  "snd (snd (flush ft (lg, rows))) =
    (case ft of FailBefore _ \<Rightarrow> rows | _ \<Rightarrow> rows @ map event_row (al_buffer lg))"
  by (cases "al_buffer lg"; cases ft) (simp_all add: flush_def Let_def)

lemma emit_step_eq:
  "emit_step c (lg, rows) =
    (let lg' = buffer_event (built_event c lg) lg in
     if must_flush (ec_flush c) lg' then snd (flush (ec_fault c) (lg', rows)) else (lg', rows))"
  by (auto simp: emit_step_def emit_def built_event_def Let_def split: prod.split sum.split)

text \<open>
  One call adds its event at the end of the stream, or, when the insert fails without
  effect, loses exactly the buffered events and its own.
\<close>

lemma emit_step_stream:
  "stream (emit_step c (lg, rows)) = stream (lg, rows) @ [event_row (built_event c lg)] \<or>
   (stream (emit_step c (lg, rows)) = rows \<and> (\<exists>e. ec_fault c = FailBefore e))"
  unfolding emit_step_eq Let_def
  by (cases "ec_fault c")
    (auto simp: stream_def flush_log flush_rows buffer_event_def)

lemma emit_step_counters:
  "al_sequence (fst (emit_step c (lg, rows))) = al_sequence lg + 1"
  "al_buffer_limit (fst (emit_step c (lg, rows))) = al_buffer_limit lg"
  by (simp_all add: emit_step_eq Let_def flush_log buffer_event_def)

lemma emit_step_buffer:
  "0 < al_buffer_limit lg \<Longrightarrow>
   length (al_buffer (fst (emit_step c (lg, rows)))) < al_buffer_limit lg"
  by (auto simp: emit_step_eq Let_def flush_log buffer_event_def must_flush_def)

lemma audit_inv_step:
  assumes "audit_inv limit st"
  shows "audit_inv limit (emit_step c st)"
proof -
  obtain lg rows where st: "st = (lg, rows)" by fastforce
  have inv: "al_buffer_limit lg = limit" "0 < limit"
    "sorted_wrt (<) (map ae_sequence (stream (lg, rows)))"
    "\<forall>ev\<in>set (stream (lg, rows)). ae_sequence ev \<le> al_sequence lg"
    using assms by (auto simp: audit_inv_def st)
  have rows: "sorted_wrt (<) (map ae_sequence rows)" "\<forall>ev\<in>set rows. ae_sequence ev \<le> al_sequence lg"
    using inv(3,4) by (auto simp: stream_def sorted_wrt_append)
  have new: "ae_sequence (event_row (built_event c lg)) = al_sequence lg + 1"
    by (simp add: built_event_def make_event_def)
  have len: "length (al_buffer (fst (emit_step c (lg, rows)))) < limit"
    using emit_step_buffer [of lg c rows] inv(1,2) by simp
  from emit_step_stream [of c lg rows] show ?thesis
  proof
    assume "stream (emit_step c (lg, rows)) = stream (lg, rows) @ [event_row (built_event c lg)]"
    with inv new len show ?thesis
      by (fastforce simp: audit_inv_def st emit_step_counters sorted_wrt_append less_Suc_eq_le)
  next
    assume "stream (emit_step c (lg, rows)) = rows \<and> (\<exists>e. ec_fault c = FailBefore e)"
    with inv rows len show ?thesis by (auto simp: audit_inv_def st emit_step_counters)
  qed
qed

lemma audit_inv_steps: "audit_inv limit st \<Longrightarrow> audit_inv limit (fold emit_step cs st)"
  by (induction cs arbitrary: st) (auto simp: audit_inv_step)

text \<open>The events a sequence of calls builds, whatever happens to the inserts.\<close>

fun built_events :: "emit_call list \<Rightarrow> audit_log \<Rightarrow> audit_event list" where
  "built_events [] lg = []"
| "built_events (c # cs) lg =
     event_row (built_event c lg) # built_events cs (lg\<lparr>al_sequence := al_sequence lg + 1\<rparr>)"

lemma built_event_cong:
  "al_run_id a = al_run_id b \<Longrightarrow> al_env a = al_env b \<Longrightarrow> al_actor a = al_actor b \<Longrightarrow>
   al_sequence a = al_sequence b \<Longrightarrow> built_event c a = built_event c b"
  by (simp add: built_event_def make_event_def)

lemma built_events_cong:
  "al_run_id a = al_run_id b \<Longrightarrow> al_env a = al_env b \<Longrightarrow> al_actor a = al_actor b \<Longrightarrow>
   al_sequence a = al_sequence b \<Longrightarrow> built_events cs a = built_events cs b"
proof (induction cs arbitrary: a b)
  case (Cons c cs)
  have "built_event c a = built_event c b" using Cons.prems by (rule built_event_cong)
  then show ?case using Cons.prems by (auto intro: Cons.IH)
qed simp

lemma emit_step_context:
  "al_run_id (fst (emit_step c (lg, rows))) = al_run_id lg"
  "al_env (fst (emit_step c (lg, rows))) = al_env lg"
  "al_actor (fst (emit_step c (lg, rows))) = al_actor lg"
  by (simp_all add: emit_step_eq Let_def flush_log buffer_event_def)

lemma steps_stream:
  "subseq (stream (fold emit_step cs (lg, rows))) (stream (lg, rows) @ built_events cs lg) \<and>
   (list_all (\<lambda>c. ec_fault c = NoFault \<or> (\<exists>e. ec_fault c = FailAfter e)) cs \<longrightarrow>
     stream (fold emit_step cs (lg, rows)) = stream (lg, rows) @ built_events cs lg)"
proof (induction cs arbitrary: lg rows)
  case (Cons c cs)
  obtain log1 rows1 where s1: "emit_step c (lg, rows) = (log1, rows1)" by fastforce
  have be: "built_events cs log1 = built_events cs (lg\<lparr>al_sequence := al_sequence lg + 1\<rparr>)"
    using emit_step_context [of c lg rows] emit_step_counters(1) [of c lg rows] s1
    by (intro built_events_cong) simp_all
  have sub: "subseq (stream (log1, rows1)) (stream (lg, rows) @ [event_row (built_event c lg)])"
    using emit_step_stream [of c lg rows] s1 by (auto simp: stream_def intro: prefix_imp_subseq)
  have "subseq (stream (log1, rows1) @ built_events cs log1)
      (stream (lg, rows) @ built_events (c # cs) lg)"
    using list_emb_append_mono [OF sub, of "built_events cs log1" "built_events cs log1"] be by simp
  moreover have "stream (log1, rows1) = stream (lg, rows) @ [event_row (built_event c lg)]"
    if "ec_fault c = NoFault \<or> (\<exists>e. ec_fault c = FailAfter e)"
    using emit_step_stream [of c lg rows] s1 that by auto
  ultimately show ?case
    using Cons.IH [of log1 rows1] s1 be subseq_order.order_trans by (auto simp del: fold.simps) (auto simp: s1)
qed simp


lemma built_events_sequence:
  "map ae_sequence (built_events cs lg) = [al_sequence lg + 1..<al_sequence lg + 1 + length cs]"
proof (induction cs arbitrary: lg)
  case (Cons c cs)
  have "[al_sequence lg + 1..<al_sequence lg + 1 + length (c # cs)] =
      (al_sequence lg + 1) # [al_sequence lg + 2..<al_sequence lg + 2 + length cs]"
    by (subst upt_conv_Cons) simp_all
  then show ?case using Cons.IH [of "lg\<lparr>al_sequence := al_sequence lg + 1\<rparr>"]
    by (simp add: built_event_def make_event_def)
qed simp

lemma flush_all: "snd (snd (flush NoFault st)) = stream st"
  by (cases st) (simp add: flush_rows stream_def)

section \<open>Properties\<close>

text \<open>C26: The audit trail of any sequence of \<open>emit\<close> calls, numbered consecutively as they are
  made: when no insert loses its rows, a last flush leaves in the table exactly what was
  there and buffered before followed by one row per call, in order; when inserts fail, what
  is there is a subsequence of that, so nothing is reordered, duplicated or invented.\<close>

theorem audit_trail_complete:
  assumes "st = fold emit_step cs (lg, rows)"
  shows "map ae_sequence (built_events cs lg) = [al_sequence lg + 1..<al_sequence lg + 1 + length cs] \<and>
    subseq (snd (snd (flush NoFault st))) (stream (lg, rows) @ built_events cs lg) \<and>
    (list_all (\<lambda>c. ec_fault c = NoFault \<or> (\<exists>e. ec_fault c = FailAfter e)) cs \<longrightarrow>
      snd (snd (flush NoFault st)) = stream (lg, rows) @ built_events cs lg)"
  using steps_stream [of cs lg rows] built_events_sequence [of cs lg]
  unfolding assms flush_all by simp

definition sample_emit :: "event_type \<Rightarrow> fault \<Rightarrow> emit_call" where
  "sample_emit ty ft =
     \<lparr>ec_fault = ft, ec_id = ''e'', ec_now = some_time, ec_type = ty, ec_table = Some ''d.a'',
      ec_payload = [], ec_run_id = None, ec_flush = True\<rparr>"

lemma audit_trail_complete_witness:
  "map ae_sequence (snd (snd (flush NoFault
     (fold emit_step [sample_emit TASK_STARTED NoFault, sample_emit TASK_SUCCEEDED NoFault]
       (new_audit_log None None None 100, []))))) = [1, 2]"
  using audit_trail_complete [OF refl, of "[sample_emit TASK_STARTED NoFault, sample_emit TASK_SUCCEEDED NoFault]"
      "new_audit_log None None None 100" "[]"]
  by (simp add: sample_emit_def stream_def new_audit_log_def)

text \<open>Whatever the calls and whatever inserts fail, the buffer stays below its limit after
  every call, and the sequence numbers of the stored and buffered events increase strictly,
  bounded by the counter: no two events of a log share a number.\<close>

theorem audit_buffer_bounded:
  assumes "0 < limit" "st = fold emit_step cs (new_audit_log rid env actor limit, [])"
  shows "pending (fst st) < limit \<and> sorted_wrt (<) (map ae_sequence (stream st)) \<and>
    (\<forall>ev\<in>set (stream st). ae_sequence ev \<le> al_sequence (fst st))"
proof -
  have "audit_inv limit (new_audit_log rid env actor limit, [])"
    using assms(1) by (simp add: audit_inv_def new_audit_log_def stream_def)
  from audit_inv_steps [OF this, of cs] show ?thesis
    by (simp add: assms(2) audit_inv_def pending_def)
qed

lemma audit_buffer_bounded_witness:
  "pending (fst (fold emit_step [sample_emit TASK_STARTED (FailBefore (External ''x'')), sample_emit TASK_FAILED NoFault]
     (new_audit_log None None None 1, []))) < 1"
  by (rule audit_buffer_bounded [OF _ refl, THEN conjunct1]) simp

text \<open>A flush whose insert fails drops the buffered events: the buffer is emptied before the
  insert, so they are neither stored nor kept for the next flush.\<close>

theorem failed_flush_drops_events:
  assumes "al_buffer lg \<noteq> []"
  shows "flush (FailBefore e) (lg, rows) = (Inl e, (lg\<lparr>al_buffer := []\<rparr>, rows)) \<and>
    stream (snd (flush (FailBefore e) (lg, rows))) = rows \<and> stream (lg, rows) \<noteq> rows"
  using assms by (simp add: flush_def Let_def stream_def)

lemma failed_flush_drops_events_witness:
  "fst (flush (FailBefore (External ''x''))
     (buffer_event (built_event (sample_emit TASK_FAILED NoFault) (new_audit_log None None None 5))
        (new_audit_log None None None 5), [])) = Inl (External ''x'')"
proof -
  have "al_buffer (buffer_event (built_event (sample_emit TASK_FAILED NoFault) (new_audit_log None None None 5))
      (new_audit_log None None None 5)) \<noteq> []" by (simp add: buffer_event_def)
  from failed_flush_drops_events [OF this] show ?thesis by (metis fst_conv)
qed

end
