(* ===== verification/RunSpec.thy ===== *)
theory RunSpec
  imports EventLog
begin

text \<open>
  The typed view of an effective configuration (engine/run_spec.py): the dataclasses as
  records, with their derived properties.  Building one from a configuration mapping is in
  the theory of the configuration.
\<close>

text \<open>The truth value of an optional text: \<open>None\<close> and the empty string are false.\<close>

definition present :: "string option \<Rightarrow> bool" where
  "present s = (case s of None \<Rightarrow> False | Some t \<Rightarrow> t \<noteq> [])"

definition text_of :: "string option \<Rightarrow> string" where
  "text_of s = (case s of None \<Rightarrow> [] | Some t \<Rightarrow> t)"

record table_identity =
  ti_domain :: string
  ti_name :: string
  ti_source_schema :: string
  ti_source_object :: string
  ti_business_key :: "string list"
  ti_description :: "string option"
  ti_owner :: "string option"
  ti_depends_on :: "string list"

definition identity_fqn :: "table_identity \<Rightarrow> string" where
  "identity_fqn t = ti_domain t @ ''.'' @ ti_name t"

definition source_fqn :: "table_identity \<Rightarrow> string" where
  "source_fqn t = ti_source_schema t @ ''.'' @ ti_source_object t"

record read_spec =
  rd_num_partitions :: int
  rd_partition_column :: "string option"
  rd_lower_bound :: pyval
  rd_upper_bound :: pyval
  rd_bounds_strategy :: string

definition is_parallel :: "read_spec \<Rightarrow> bool" where
  "is_parallel r = (1 < rd_num_partitions r \<and> present (rd_partition_column r))"

record source_spec =
  so_type :: string
  so_fetch_size :: int
  so_driver :: string
  so_url :: "string option"
  so_session_init :: "string option"
  so_options :: "(string, pyval) dict"
  so_secret_scope :: "string option"
  so_secret_keys :: "(string, string) dict"
  so_custom_schema :: "(string, string) dict"
  so_read :: read_spec

definition username_key :: "source_spec \<Rightarrow> string" where
  "username_key s = (case dict_get (so_secret_keys s) ''username'' of Some k \<Rightarrow> k | None \<Rightarrow> ''username'')"

definition password_key :: "source_spec \<Rightarrow> string" where
  "password_key s = (case dict_get (so_secret_keys s) ''password'' of Some k \<Rightarrow> k | None \<Rightarrow> ''password'')"

record incremental_spec =
  in_strategy :: string
  in_watermark_column :: "string option"
  in_watermark_type :: string
  in_overlap :: "string option"
  in_lower_bound_default :: pyval
  in_bound_inclusive :: pyval
  in_use_upper_bound :: bool

definition overlap_delta :: "incremental_spec \<Rightarrow> int res" where
  "overlap_delta i = parse_duration (in_overlap i)"

definition uses_scn :: "incremental_spec \<Rightarrow> bool" where
  "uses_scn i = (in_strategy i = ''scn'')"

definition effective_watermark_column :: "incremental_spec \<Rightarrow> string option" where
  "effective_watermark_column i = (if uses_scn i then Some ''ORA_ROWSCN'' else in_watermark_column i)"

text \<open>The type a watermark is read and written with, everywhere but in the run's window.\<close>

definition scn_or_type :: "incremental_spec \<Rightarrow> string" where
  "scn_or_type i = (if uses_scn i then ''number'' else in_watermark_type i)"

datatype column_choice = AllColumns | Columns "string list"

record extraction_spec =
  ex_mode :: string
  ex_columns :: column_choice
  ex_exclude_columns :: "string list"
  ex_filter :: "string option"
  ex_query_file :: "string option"
  ex_row_limit :: "int option"
  ex_incremental :: incremental_spec

definition is_incremental :: "extraction_spec \<Rightarrow> bool" where
  "is_incremental e = (ex_mode e = ''incremental'')"

definition tracks_watermark :: "extraction_spec \<Rightarrow> bool" where
  "tracks_watermark e =
     (is_incremental e \<or>
      (ex_mode e = ''query'' \<and> present (effective_watermark_column (ex_incremental e))))"

definition selects_all_columns :: "extraction_spec \<Rightarrow> bool" where
  "selects_all_columns e = (ex_columns e = AllColumns)"

definition column_list :: "extraction_spec \<Rightarrow> string list" where
  "column_list e = (case ex_columns e of AllColumns \<Rightarrow> [] | Columns cs \<Rightarrow> cs)"

record target_spec =
  tg_catalog :: string
  tg_schema :: string
  tg_table_name :: string
  tg_layer :: string
  tg_format :: string
  tg_write_mode :: string
  tg_merge_keys :: "string list"
  tg_merge_guard :: string
  tg_enable_cdf :: bool
  tg_partition_by :: "string list"
  tg_cluster_by :: "string list"
  tg_add_audit_columns :: bool
  tg_schema_evolution :: bool
  tg_column_case :: string
  tg_table_properties :: "(string, string) dict"

definition target_fqn :: "target_spec \<Rightarrow> string" where
  "target_fqn t = tg_catalog t @ ''.'' @ tg_schema t @ ''.'' @ tg_table_name t"

definition is_merge :: "target_spec \<Rightarrow> bool" where
  "is_merge t = (tg_write_mode t = ''merge'')"

record control_spec =
  cs_catalog :: string
  cs_schema :: string

definition control_table :: "control_spec \<Rightarrow> string \<Rightarrow> string" where
  "control_table c name = cs_catalog c @ ''.'' @ cs_schema c @ ''.'' @ name"

record expectation =
  xp_column :: string
  xp_rule :: string
  xp_values :: "pyval list"
  xp_value :: pyval
  xp_pattern :: "string option"
  xp_action :: string

record quality_spec =
  qu_row_count_reconciliation :: bool
  qu_fail_on_schema_drift :: bool
  qu_null_check_keys :: bool
  qu_expectations :: "expectation list"

record runtime_spec =
  ru_retries :: int
  ru_retry_backoff_seconds :: int
  ru_timeout_minutes :: int
  ru_enabled :: bool

record alerting_spec =
  al_on_failure :: "string list"
  al_on_reconciliation_mismatch :: "string list"
  al_on_freshness_breach :: "string list"
  al_freshness_sla_hours :: pyval

record schedule_spec =
  sc_group :: string
  sc_cron :: "string option"
  sc_timezone :: string
  sc_job_retries :: int

record run_spec =
  rs_env :: string
  rs_table :: table_identity
  rs_source :: source_spec
  rs_extraction :: extraction_spec
  rs_target :: target_spec
  rs_control :: control_spec
  rs_quality :: quality_spec
  rs_runtime :: runtime_spec
  rs_alerting :: alerting_spec
  rs_schedule :: schedule_spec
  rs_log_level :: string
  rs_config_hash :: string

definition table_fqn :: "run_spec \<Rightarrow> string" where
  "table_fqn s = identity_fqn (rs_table s)"

abbreviation incremental :: "run_spec \<Rightarrow> incremental_spec" where
  "incremental s \<equiv> ex_incremental (rs_extraction s)"

text \<open>The defaults of the dataclasses.\<close>

definition default_read :: read_spec where
  "default_read =
     \<lparr>rd_num_partitions = 1, rd_partition_column = None, rd_lower_bound = VNone,
      rd_upper_bound = VNone, rd_bounds_strategy = ''auto''\<rparr>"

definition default_source :: source_spec where
  "default_source =
     \<lparr>so_type = ''oracle'', so_fetch_size = 10000, so_driver = ''oracle.jdbc.OracleDriver'',
      so_url = None, so_session_init = None, so_options = [], so_secret_scope = None,
      so_secret_keys = [], so_custom_schema = [], so_read = default_read\<rparr>"

definition default_incremental :: incremental_spec where
  "default_incremental =
     \<lparr>in_strategy = ''watermark'', in_watermark_column = None,
      in_watermark_type = ''timestamp'', in_overlap = Some ''PT0S'',
      in_lower_bound_default = VNone, in_bound_inclusive = VStr ''auto'',
      in_use_upper_bound = True\<rparr>"

definition default_extraction :: extraction_spec where
  "default_extraction =
     \<lparr>ex_mode = ''full'', ex_columns = AllColumns, ex_exclude_columns = [], ex_filter = None,
      ex_query_file = None, ex_row_limit = None, ex_incremental = default_incremental\<rparr>"

definition default_target :: "string \<Rightarrow> string \<Rightarrow> string \<Rightarrow> target_spec" where
  "default_target catalog schema name =
     \<lparr>tg_catalog = catalog, tg_schema = schema, tg_table_name = name, tg_layer = ''bronze'',
      tg_format = ''delta'', tg_write_mode = ''merge'', tg_merge_keys = [],
      tg_merge_guard = ''watermark'', tg_enable_cdf = False, tg_partition_by = [],
      tg_cluster_by = [], tg_add_audit_columns = True, tg_schema_evolution = True,
      tg_column_case = ''preserve'', tg_table_properties = []\<rparr>"

definition default_quality :: quality_spec where
  "default_quality =
     \<lparr>qu_row_count_reconciliation = True, qu_fail_on_schema_drift = False,
      qu_null_check_keys = True, qu_expectations = []\<rparr>"

definition default_runtime :: runtime_spec where
  "default_runtime =
     \<lparr>ru_retries = 2, ru_retry_backoff_seconds = 30, ru_timeout_minutes = 120,
      ru_enabled = True\<rparr>"

definition default_alerting :: alerting_spec where
  "default_alerting =
     \<lparr>al_on_failure = [], al_on_reconciliation_mismatch = [], al_on_freshness_breach = [],
      al_freshness_sla_hours = VNone\<rparr>"

definition default_schedule :: schedule_spec where
  "default_schedule =
     \<lparr>sc_group = ''default'', sc_cron = None, sc_timezone = ''UTC'', sc_job_retries = 0\<rparr>"

declare present_def [evals] text_of_def [evals] identity_fqn_def [evals] source_fqn_def [evals]
  is_parallel_def [evals] username_key_def [evals] password_key_def [evals]
  overlap_delta_def [evals] uses_scn_def [evals] effective_watermark_column_def [evals]
  scn_or_type_def [evals] is_incremental_def [evals] tracks_watermark_def [evals]
  selects_all_columns_def [evals] column_list_def [evals] target_fqn_def [evals]
  is_merge_def [evals] table_fqn_def [evals] default_read_def [evals] default_source_def [evals]
  default_incremental_def [evals] default_extraction_def [evals] default_target_def [evals]
  default_quality_def [evals] default_runtime_def [evals] default_alerting_def [evals]
  default_schedule_def [evals]

end
