(* ===== verification/SqlBuilder.thy ===== *)
theory SqlBuilder
  imports RunSpec
begin

text \<open>
  The Oracle SQL of every extraction mode (engine/sql_builder.py): literals, identifiers,
  projections, predicates, the source query, query templates and the probe queries, as the
  texts the code builds.  A predicate is kept as a comparison until it is rendered, so that
  which rows a window selects can be stated.
\<close>

section \<open>Literals and identifiers\<close>

definition scn_column :: string where
  "scn_column = ''ORA_ROWSCN''"

definition subquery_alias :: string where
  "subquery_alias = ''src''"

text \<open>\<open>_ORACLE_IDENT\<close> without its anchors: a plain name, or a double-quoted one.\<close>

definition oracle_name_char :: "char \<Rightarrow> bool" where
  "oracle_name_char c =
     (is_alpha c \<or> is_digit c \<or> c \<in> {CHR ''_'', CHR ''$'', CHR ''#''})"

definition oracle_ident_body :: "string \<Rightarrow> bool" where
  "oracle_ident_body s =
     (case s of
        [] \<Rightarrow> False
      | c # t \<Rightarrow>
          (is_alpha c \<and> list_all oracle_name_char t) \<or>
          (c = dquote \<and> length t \<ge> 2 \<and> last t = dquote \<and> dquote \<notin> set (butlast t)))"

definition sql_identifier :: "string \<Rightarrow> string res" where
  "sql_identifier name =
     (if name = [] \<or> \<not> re_dollar oracle_ident_body name then Inl (SqlBuildError name)
      else Inr name)"

text \<open>A text made of digits and the marks of a pattern, where \<open>d\<close> stands for a digit.\<close>

definition fits :: "string \<Rightarrow> string \<Rightarrow> bool" where
  "fits pattern s =
     list_all2 (\<lambda>p c. if p = CHR ''d'' then is_digit c else c = p) pattern s"

definition canonical_date_body :: "string \<Rightarrow> bool" where
  "canonical_date_body s = fits ''dddd-dd-dd'' s"

definition canonical_timestamp_body :: "string \<Rightarrow> bool" where
  "canonical_timestamp_body s =
     (fits ''dddd-dd-dd dd:dd:dd'' (take 19 s) \<and>
      (drop 19 s = [] \<or>
       (hd (drop 19 s) = CHR ''.'' \<and> 1 \<le> length (drop 20 s) \<and> length (drop 20 s) \<le> 6 \<and>
        list_all is_digit (drop 20 s))))"

definition literal :: "pyval \<Rightarrow> string \<Rightarrow> string res" where
  "literal value watermark_type =
     (if value = VNone then Inl (SqlBuildError [])
      else
        let text = py_str value; wtype = str_lower watermark_type in
        if wtype = ''number'' then
          (case dec_parse text of
             Some d \<Rightarrow> Inr (dec_str d)
           | None \<Rightarrow> Inl (SqlBuildError text))
        else if wtype = ''date'' then
          (if re_dollar canonical_date_body text
           then Inr (''TO_DATE('' @ [quote] @ text @ [quote] @ '', '' @ [quote] @ ''YYYY-MM-DD'' @
                     [quote] @ '')'')
           else Inl (SqlBuildError text))
        else if wtype = ''timestamp'' then
          (if re_dollar canonical_timestamp_body text
           then
             let text' = (if CHR ''.'' \<in> set text then text else text @ ''.000000'')
             in Inr (''TO_TIMESTAMP('' @ [quote] @ text' @ [quote] @ '', '' @ [quote] @
                     ''YYYY-MM-DD HH24:MI:SS.FF6'' @ [quote] @ '')'')
           else Inl (SqlBuildError text))
        else Inl (SqlBuildError watermark_type))"

section \<open>Projection and predicates\<close>

definition lower_bound_is_inclusive :: "run_spec \<Rightarrow> bool" where
  "lower_bound_is_inclusive spec =
     (case in_bound_inclusive (incremental spec) of
        VBool b \<Rightarrow> b
      | _ \<Rightarrow> tg_write_mode (rs_target spec) \<noteq> ''append'')"

definition build_projection :: "run_spec \<Rightarrow> (string \<times> string list) res" where
  "build_projection spec =
     (let e = rs_extraction spec in
      bindE
        (if selects_all_columns e then Inr [''*'']
         else
           bindE (mapE sql_identifier (column_list e)) (\<lambda>columns.
             let excluded = map str_upper (ex_exclude_columns e) in
             if excluded \<noteq> [] then
               (let kept = filter (\<lambda>c. str_upper c \<notin> set excluded) columns in
                if kept = [] then Inl (SqlBuildError ''exclude_columns'') else Inr kept)
             else Inr columns))
        (\<lambda>columns.
           let columns' = columns @
             (if is_incremental e \<and> uses_scn (ex_incremental e)
              then [scn_column @ '' AS '' @ scn_column] else [])
           in Inr (join '', '' columns', columns')))"

datatype cmp_op = OpGe | OpGt | OpLt

fun op_text :: "cmp_op \<Rightarrow> string" where
  "op_text OpGe = ''>=''"
| "op_text OpGt = ''>''"
| "op_text OpLt = ''<''"

text \<open>A fragment of the WHERE clause: column, operator, bound and its literal; or the filter.\<close>

datatype predicate =
    Compare string cmp_op string string
  | Filter string

fun predicate_sql :: "predicate \<Rightarrow> string" where
  "predicate_sql (Compare column op _ lit) = column @ '' '' @ op_text op @ '' '' @ lit"
| "predicate_sql (Filter text) = ''('' @ text @ '')''"

definition bound_predicate ::
  "string \<Rightarrow> string \<Rightarrow> cmp_op \<Rightarrow> string option \<Rightarrow> predicate list res" where
  "bound_predicate column wtype op bound =
     (case bound of
        None \<Rightarrow> Inr []
      | Some b \<Rightarrow> bindE (literal (VStr b) wtype) (\<lambda>lit. Inr [Compare column op b lit]))"

definition predicate_list ::
  "run_spec \<Rightarrow> string option \<Rightarrow> string option \<Rightarrow> predicate list res" where
  "predicate_list spec lower upper =
     (let e = rs_extraction spec; i = ex_incremental e in
      bindE
        (if is_incremental e then
           (if \<not> present (effective_watermark_column i) then Inl (SqlBuildError ''watermark_column'')
            else
              bindE (sql_identifier (text_of (effective_watermark_column i))) (\<lambda>column.
              bindE (bound_predicate column (scn_or_type i)
                       (if lower_bound_is_inclusive spec then OpGe else OpGt) lower) (\<lambda>lo.
              bindE (bound_predicate column (scn_or_type i) OpLt upper) (\<lambda>hi.
              Inr (lo @ hi)))))
         else Inr [])
        (\<lambda>bounds.
           Inr (bounds @ (if present (ex_filter e) then [Filter (text_of (ex_filter e))] else []))))"

definition build_predicates ::
  "run_spec \<Rightarrow> string option \<Rightarrow> string option \<Rightarrow> string list res" where
  "build_predicates spec lower upper =
     bindE (predicate_list spec lower upper) (\<lambda>ps. Inr (map predicate_sql ps))"

section \<open>Query templates\<close>

definition word_char :: "char \<Rightarrow> bool" where
  "word_char c = (is_alpha c \<or> is_digit c \<or> c = CHR ''_'')"

text \<open>The boundary \<open>\b\<close> after a match that ends in a word character.\<close>

definition word_ends :: "string \<Rightarrow> bool" where
  "word_ends rest = (rest = [] \<or> \<not> word_char (hd rest))"

text \<open>\<open>re.sub(placeholder + "\b", value, text)\<close>, for a value without backslashes.\<close>

fun subst_word :: "string \<Rightarrow> string \<Rightarrow> string \<Rightarrow> string" where
  "subst_word p v [] = []"
| "subst_word p v (c # s) =
     (if p \<noteq> [] \<and> starts_with (c # s) p \<and> word_ends (drop (length p) (c # s))
      then v @ subst_word p v (drop (length p - 1) s)
      else c # subst_word p v s)"

fun has_word :: "string \<Rightarrow> string \<Rightarrow> bool" where
  "has_word p [] = False"
| "has_word p (c # s) =
     ((starts_with (c # s) p \<and> word_ends (drop (length p) (c # s))) \<or> has_word p s)"

definition placeholders :: "string list" where
  "placeholders = [''lower_bound'', ''upper_bound'', ''table_fqn'', ''env'']"

definition template_replacements ::
  "run_spec \<Rightarrow> string option \<Rightarrow> string option \<Rightarrow> (string \<times> string) list res" where
  "template_replacements spec lower upper =
     (let wtype = scn_or_type (incremental spec);
          bound = (\<lambda>name b. case b of
             None \<Rightarrow> Inr []
           | Some t \<Rightarrow> bindE (literal (VStr t) wtype) (\<lambda>lit. Inr [(name, lit)])) in
      bindE (bound '':lower_bound'' lower) (\<lambda>lo.
      bindE (bound '':upper_bound'' upper) (\<lambda>hi.
      Inr ([('':env'', [quote] @ rs_env spec @ [quote]),
            ('':table_fqn'', [quote] @ table_fqn spec @ [quote])] @ lo @ hi))))"

definition render_query_template ::
  "string \<Rightarrow> run_spec \<Rightarrow> string option \<Rightarrow> string option \<Rightarrow> string res" where
  "render_query_template template spec lower upper =
     bindE (template_replacements spec lower upper) (\<lambda>reps.
       let rendered = foldl (\<lambda>t pv. subst_word (fst pv) (snd pv) t)
             (rstrip (\<lambda>c. c = CHR '';'') (str_strip template)) reps;
           leftovers = sorted_set (filter (\<lambda>n. has_word (CHR '':'' # n) rendered) placeholders)
       in if leftovers \<noteq> [] then Inl (SqlBuildError (join '', '' (map (\<lambda>p. CHR '':'' # p) leftovers)))
          else Inr rendered)"

section \<open>The source query\<close>

record source_query =
  sq_sql :: string
  sq_mode :: string
  sq_lower_bound :: "string option"
  sq_upper_bound :: "string option"
  sq_lower_inclusive :: bool
  sq_watermark_column :: "string option"
  sq_projected_columns :: "string list"

definition as_subquery :: "source_query \<Rightarrow> string" where
  "as_subquery q = ''('' @ sq_sql q @ '') '' @ subquery_alias"

definition is_bounded :: "source_query \<Rightarrow> bool" where
  "is_bounded q = (sq_lower_bound q \<noteq> None \<or> sq_upper_bound q \<noteq> None)"

definition build_source_query ::
  "run_spec \<Rightarrow> string option \<Rightarrow> string option \<Rightarrow> string option \<Rightarrow> source_query res" where
  "build_source_query spec lower upper custom_sql =
     (let e = rs_extraction spec in
      if ex_mode e = ''query'' then
        (if \<not> present custom_sql \<or> str_strip (text_of custom_sql) = []
         then Inl (SqlBuildError (text_of (ex_query_file e)))
         else
           bindE (render_query_template (text_of custom_sql) spec lower upper) (\<lambda>sql.
           Inr \<lparr>sq_sql = sql, sq_mode = ''query'', sq_lower_bound = lower,
                sq_upper_bound = upper, sq_lower_inclusive = lower_bound_is_inclusive spec,
                sq_watermark_column = effective_watermark_column (ex_incremental e),
                sq_projected_columns = []\<rparr>))
      else
        bindE (build_projection spec) (\<lambda>(projection, columns).
        bindE (sql_identifier (ti_source_schema (rs_table spec))) (\<lambda>src_schema.
        bindE (sql_identifier (ti_source_object (rs_table spec))) (\<lambda>src_object.
        bindE (build_predicates spec lower upper) (\<lambda>predicates.
          let parts = [''SELECT '' @ projection, ''FROM '' @ src_schema @ ''.'' @ src_object] @
                (if predicates \<noteq> []
                 then [''WHERE '' @ join ([newline] @ ''  AND '') predicates] else []) @
                (case ex_row_limit e of
                   Some n \<Rightarrow> if n \<noteq> 0 then [''FETCH FIRST '' @ str_int n @ '' ROWS ONLY''] else []
                 | None \<Rightarrow> [])
          in Inr \<lparr>sq_sql = join [newline] parts, sq_mode = ex_mode e, sq_lower_bound = lower,
                  sq_upper_bound = upper, sq_lower_inclusive = lower_bound_is_inclusive spec,
                  sq_watermark_column =
                    (if is_incremental e then effective_watermark_column (ex_incremental e) else None),
                  sq_projected_columns = columns\<rparr>)))))"

section \<open>Probes\<close>

definition build_count_query :: "source_query \<Rightarrow> string" where
  "build_count_query q =
     ''SELECT COUNT(*) AS SOURCE_COUNT FROM ('' @ sq_sql q @ '') '' @ subquery_alias"

definition build_bounds_query :: "run_spec \<Rightarrow> source_query \<Rightarrow> string res" where
  "build_bounds_query spec q =
     (if \<not> present (rd_partition_column (so_read (rs_source spec)))
      then Inl (SqlBuildError ''partition_column'')
      else
        bindE (sql_identifier (text_of (rd_partition_column (so_read (rs_source spec))))) (\<lambda>column.
        Inr (''SELECT MIN('' @ column @ '') AS LOWER_BOUND, MAX('' @ column @
             '') AS UPPER_BOUND FROM ('' @ sq_sql q @ '') '' @ subquery_alias)))"

definition build_upper_bound_query :: "run_spec \<Rightarrow> string" where
  "build_upper_bound_query spec =
     (if uses_scn (incremental spec)
      then ''SELECT DBMS_FLASHBACK.GET_SYSTEM_CHANGE_NUMBER AS UPPER_BOUND FROM DUAL''
      else if in_watermark_type (incremental spec) = ''date''
      then ''SELECT TRUNC(SYSDATE) AS UPPER_BOUND FROM DUAL''
      else ''SELECT SYSTIMESTAMP AS UPPER_BOUND FROM DUAL'')"

definition build_max_watermark_query :: "run_spec \<Rightarrow> source_query \<Rightarrow> string res" where
  "build_max_watermark_query spec q =
     (if \<not> present (sq_watermark_column q) then Inl (SqlBuildError ''max watermark'')
      else
        bindE (sql_identifier (text_of (sq_watermark_column q))) (\<lambda>column.
        Inr (''SELECT MAX('' @ column @ '') AS MAX_WATERMARK FROM ('' @ sq_sql q @ '') '' @
             subquery_alias)))"

declare scn_column_def [evals] subquery_alias_def [evals] oracle_name_char_def [evals]
  oracle_ident_body_def [evals] sql_identifier_def [evals] fits_def [evals]
  canonical_date_body_def [evals] canonical_timestamp_body_def [evals] literal_def [evals]
  lower_bound_is_inclusive_def [evals] build_projection_def [evals] bound_predicate_def [evals]
  predicate_list_def [evals] build_predicates_def [evals] word_char_def [evals]
  word_ends_def [evals] placeholders_def [evals] template_replacements_def [evals]
  render_query_template_def [evals] as_subquery_def [evals] is_bounded_def [evals]
  build_source_query_def [evals] build_count_query_def [evals] build_bounds_query_def [evals]
  build_upper_bound_query_def [evals] build_max_watermark_query_def [evals]


section \<open>Canonical bounds render\<close>

definition number_char :: "char \<Rightarrow> bool" where
  "number_char c = (is_alpha c \<or> is_digit c \<or> c \<in> {CHR ''.'', CHR ''+'', CHR ''-''})"

definition stamp_char :: "char \<Rightarrow> bool" where
  "stamp_char c =
     (is_digit c \<or> c \<in> {CHR ''-'', CHR '':'', CHR '' '', CHR ''.'', newline})"

lemma num_char_number: "num_char c \<Longrightarrow> number_char c"
  by (auto simp: num_char_def number_char_def is_alpha_def is_upper_def chr_code_def)

lemma dec_str_number_char: "wf_dec d \<Longrightarrow> list_all number_char (dec_str d)"
proof (cases d)
  case (DFin s c e)
  have "list_all num_char (str_coefficient c e)" by (rule str_coefficient_chars)
  then have "list_all number_char (str_coefficient c e)"
    by (auto simp: list_all_iff dest: num_char_number)
  then show ?thesis by (simp add: DFin number_char_def)
next
  case (DInf s)
  then show ?thesis
    by (simp add: number_char_def is_alpha_def is_upper_def is_lower_def chr_code_def)
next
  case (DNaN s sig ds)
  assume "wf_dec d"
  then have "list_all number_char ds" by (auto simp: DNaN list_all_iff number_char_def)
  then show ?thesis
    by (simp add: DNaN) (simp add: number_char_def is_alpha_def is_upper_def is_lower_def chr_code_def)
qed

lemma fits_chars: "fits pat s \<Longrightarrow> c \<in> set s \<Longrightarrow> is_digit c \<or> (c \<in> set pat \<and> c \<noteq> CHR ''d'')"
  unfolding fits_def by (induction pat s rule: list_all2_induct) (auto split: if_splits)

lemma re_dollar_chars:
  "re_dollar P s \<Longrightarrow> (\<And>t c. P t \<Longrightarrow> c \<in> set t \<Longrightarrow> Q c) \<Longrightarrow> Q newline \<Longrightarrow> c \<in> set s \<Longrightarrow> Q c"
  by (auto simp: re_dollar_def) (metis append_butlast_last_id rotate1.simps(2) set_ConsD set_rotate1)

lemma canonical_date_chars:
  assumes "canonical_date_body t" "c \<in> set t"
  shows "stamp_char c"
  using fits_chars [OF assms(1) [unfolded canonical_date_body_def] assms(2)]
  by (auto simp: stamp_char_def)

lemma canonical_timestamp_chars:
  assumes "canonical_timestamp_body t" "c \<in> set t"
  shows "stamp_char c"
proof -
  have "c \<in> set (take 19 t) \<or> c \<in> set (drop 19 t)"
    using assms(2) by (metis UnE append_take_drop_id set_append)
  moreover have "stamp_char c" if c: "c \<in> set (take 19 t)"
  proof -
    have "fits ''dddd-dd-dd dd:dd:dd'' (take 19 t)"
      using assms(1) unfolding canonical_timestamp_body_def by (rule conjunct1)
    from fits_chars [OF this c] show ?thesis by (auto simp: stamp_char_def)
  qed
  moreover have "stamp_char c" if c: "c \<in> set (drop 19 t)"
  proof (cases "drop 19 t")
    case (Cons a u)
    have "drop 20 t = drop 1 (drop 19 t)" by simp
    also have "\<dots> = u" unfolding Cons by simp
    finally have "a = CHR ''.''" "list_all is_digit u"
      using assms(1) Cons unfolding canonical_timestamp_body_def by (metis list.distinct(1) list.sel(1))+
    moreover have "c = a \<or> c \<in> set u" using c unfolding Cons by simp
    ultimately show ?thesis by (auto simp: stamp_char_def list_all_iff)
  qed (use c in simp)
  ultimately show ?thesis by blast
qed

lemma fits_append: "length a = length p \<Longrightarrow> fits (p @ q) (a @ b) \<longleftrightarrow> fits p a \<and> fits q b"
  unfolding fits_def by (simp add: list_all2_append)

lemma fits_digits: "list_all is_digit s \<Longrightarrow> n = length s \<Longrightarrow> fits (replicate n (CHR ''d'')) s"
  unfolding fits_def by (induction s arbitrary: n) auto

lemma fits_zpad: "k < 10 ^ n \<Longrightarrow> 0 < n \<Longrightarrow> fits (replicate n (CHR ''d'')) (zpad n k)"
  by (rule fits_digits) simp_all

lemma fits_mark: "c \<noteq> CHR ''d'' \<Longrightarrow> fits (c # p) (c # s) \<longleftrightarrow> fits p s"
  by (simp add: fits_def)

lemma fits_Nil [simp]: "fits [] []"
  by (simp add: fits_def)

lemma fits_zpad_append:
  "k < 10 ^ n \<Longrightarrow> 0 < n \<Longrightarrow> fits (replicate n (CHR ''d'') @ p) (zpad n k @ s) \<longleftrightarrow> fits p s"
  by (subst fits_append) (simp_all add: fits_zpad)

lemma date_pattern:
  "''dddd-dd-dd'' = replicate 4 (CHR ''d'') @ CHR ''-'' # replicate 2 (CHR ''d'') @ CHR ''-'' #
     replicate 2 (CHR ''d'') @ []"
  by (simp add: numeral_eq_Suc)

lemma stamp_pattern:
  "''dddd-dd-dd dd:dd:dd'' = replicate 4 (CHR ''d'') @ CHR ''-'' # replicate 2 (CHR ''d'') @ CHR ''-'' #
     replicate 2 (CHR ''d'') @ CHR '' '' # replicate 2 (CHR ''d'') @ CHR '':'' #
     replicate 2 (CHR ''d'') @ CHR '':'' # replicate 2 (CHR ''d'') @ []"
  by (simp add: numeral_eq_Suc)

lemma canonical_format_date: "valid_date d \<Longrightarrow> canonical_date_body (format_date d)"
proof -
  assume "valid_date d"
  note b = valid_date_bounds [OF this]
  have "format_date d = zpad 4 (d_year d) @ CHR ''-'' # zpad 2 (d_month d) @ CHR ''-'' # zpad 2 (d_day d) @ []"
    by (simp add: format_date_def)
  with b show ?thesis
    unfolding canonical_date_body_def date_pattern by (simp add: fits_zpad_append fits_mark del: append_Nil2)
qed

lemma length_format_date: "valid_date d \<Longrightarrow> length (format_date d) = 10"
  using valid_date_bounds [of d] by (simp add: format_date_def)

lemma canonical_format_timestamp:
  assumes "valid_datetime t"
  shows "canonical_timestamp_body (format_timestamp t)"
proof -
  have v: "valid_date (dt_date t)" "dt_hour t < 10 ^ 2" "dt_minute t < 10 ^ 2" "dt_second t < 10 ^ 2"
    "dt_micro t < 10 ^ 6"
    using assms by (auto simp: valid_datetime_def)
  note b = valid_date_bounds [OF v(1)]
  define front where "front = zpad 4 (d_year (dt_date t)) @ CHR ''-'' # zpad 2 (d_month (dt_date t)) @
    CHR ''-'' # zpad 2 (d_day (dt_date t)) @ CHR '' '' # zpad 2 (dt_hour t) @ CHR '':'' #
    zpad 2 (dt_minute t) @ CHR '':'' # zpad 2 (dt_second t) @ []"
  have f: "format_timestamp t = front @ CHR ''.'' # zpad 6 (dt_micro t)"
    by (simp add: format_timestamp_def format_date_def format_hms_def front_def)
  have l: "length front = 19" using b v by (simp add: front_def)
  have "fits ''dddd-dd-dd dd:dd:dd'' front"
    unfolding stamp_pattern front_def
    using b v by (simp add: fits_zpad_append fits_mark del: append_Nil2)
  with l v(5) show ?thesis
    by (simp add: canonical_timestamp_body_def f)
qed

lemma literal_of_canonical:
  assumes "wm_valid w" "str_lower ty = wm_kind w"
  shows "\<exists>lit. literal (VStr (wm_text w)) ty = Inr lit"
proof (cases w)
  case (WNum d)
  then show ?thesis using assms dec_parse_str by (simp add: literal_def Let_def)
next
  case (WDate d)
  then show ?thesis
    using assms canonical_format_date by (simp add: literal_def Let_def re_dollar_def)
next
  case (WStamp t)
  then show ?thesis
    using assms canonical_format_timestamp by (simp add: literal_def Let_def re_dollar_def)
qed


section \<open>What a window selects\<close>

text \<open>The comparison Oracle makes of a row's watermark \<open>x\<close> with the value of a bound.\<close>

fun op_holds :: "cmp_op \<Rightarrow> wm_value \<Rightarrow> wm_value \<Rightarrow> bool" where
  "op_holds OpGe x v = (wm_gt v x = Inr False)"
| "op_holds OpGt x v = (wm_gt x v = Inr True)"
| "op_holds OpLt x v = (wm_gt v x = Inr True)"

fun predicate_holds :: "string \<Rightarrow> wm_value \<Rightarrow> predicate \<Rightarrow> bool" where
  "predicate_holds ty x (Compare _ op b _) = (case parse b ty of Inr v \<Rightarrow> op_holds op x v | Inl _ \<Rightarrow> False)"
| "predicate_holds ty x (Filter _) = True"

definition window_selects ::
  "run_spec \<Rightarrow> string option \<Rightarrow> string option \<Rightarrow> wm_value \<Rightarrow> bool" where
  "window_selects spec lower upper x =
     (case predicate_list spec lower upper of
        Inr ps \<Rightarrow> list_all (predicate_holds (scn_or_type (incremental spec)) x) ps
      | Inl _ \<Rightarrow> False)"

text \<open>Values of one type that compare: not a NaN.\<close>

fun wm_ordered :: "wm_value \<Rightarrow> bool" where
  "wm_ordered (WNum d) = (\<not> is_nan d)"
| "wm_ordered _ = True"

fun wm_less :: "wm_value \<Rightarrow> wm_value \<Rightarrow> bool" where
  "wm_less (WNum a) (WNum b) = dec_less a b"
| "wm_less (WDate a) (WDate b) = (a < b)"
| "wm_less (WStamp a) (WStamp b) = (a < b)"
| "wm_less _ _ = False"

lemma wm_gt_less:
  "wm_ordered a \<Longrightarrow> wm_ordered b \<Longrightarrow> wm_kind a = wm_kind b \<Longrightarrow> wm_gt a b = Inr (wm_less b a)"
  by (cases a; cases b) (simp_all add: dec_gt_def)

lemma dec_less_negtrans: "\<not> is_nan b \<Longrightarrow> dec_less a c \<Longrightarrow> dec_less a b \<or> dec_less b c"
  by (cases a; cases b; cases c) (auto simp: not_less)

lemma wm_less_negtrans:
  "wm_ordered b \<Longrightarrow> wm_kind a = wm_kind b \<Longrightarrow> wm_kind c = wm_kind b \<Longrightarrow> wm_less a c \<Longrightarrow>
   wm_less a b \<or> wm_less b c"
  by (cases a; cases b; cases c) (auto dest: dec_less_negtrans)

lemma wm_less_asym: "wm_less a b \<Longrightarrow> \<not> wm_less b a"
  by (cases a; cases b) (auto dest: dec_less_trans)

lemma wm_less_trans: "wm_less a b \<Longrightarrow> wm_less b c \<Longrightarrow> wm_less a c"
  by (cases a; cases b; cases c) (auto dest: dec_less_trans)

lemma bound_predicate_canonical:
  assumes "wm_valid w" "str_lower ty = wm_kind w"
  shows "\<exists>lit. bound_predicate col ty op (Some (wm_text w)) = Inr [Compare col op (wm_text w) lit]"
  using literal_of_canonical [OF assms] by (auto simp: bound_predicate_def)

lemma window_selects_bounds:
  assumes "is_incremental (rs_extraction spec)"
    "effective_watermark_column (incremental spec) = Some col" "sql_identifier col = Inr col'"
    "wm_valid a" "wm_valid b" "str_lower (scn_or_type (incremental spec)) = wm_kind a" "wm_kind b = wm_kind a"
  shows "window_selects spec (Some (wm_text a)) (Some (wm_text b)) x \<longleftrightarrow>
    op_holds (if lower_bound_is_inclusive spec then OpGe else OpGt) x a \<and> op_holds OpLt x b"
proof -
  let ?ty = "scn_or_type (incremental spec)"
  let ?op = "if lower_bound_is_inclusive spec then OpGe else OpGt"
  have "present (Some col)" using assms(3) by (auto simp: sql_identifier_def present_def split: if_splits)
  moreover obtain l1 where "bound_predicate col' ?ty ?op (Some (wm_text a)) = Inr [Compare col' ?op (wm_text a) l1]"
    using bound_predicate_canonical [OF assms(4,6)] by blast
  moreover have kb: "str_lower ?ty = wm_kind b" using assms(6,7) by simp
  then obtain l2 where "bound_predicate col' ?ty OpLt (Some (wm_text b)) = Inr [Compare col' OpLt (wm_text b) l2]"
    using bound_predicate_canonical [OF assms(5)] by blast
  moreover have "parse (wm_text a) ?ty = Inr a" "parse (wm_text b) ?ty = Inr b"
    using parse_wm_text assms(4,5,6) kb by blast+
  ultimately show ?thesis
    using assms(1,2,3)
    by (auto simp: window_selects_def predicate_list_def text_of_def Let_def)
qed

section \<open>Placeholders\<close>

text \<open>The words \<open>:name\<close> of the templates: a colon, then word characters.\<close>

definition colon_word :: "string \<Rightarrow> bool" where
  "colon_word p = (\<exists>w. p = CHR '':'' # w \<and> w \<noteq> [] \<and> list_all word_char w)"

lemma colon_not_word [simp]: "\<not> word_char (CHR '':'')"
  by (simp add: word_char_def is_alpha_def is_upper_def is_lower_def is_digit_def chr_code_def)

text \<open>
  An occurrence of a word that no substitution of another word can disturb: what follows is
  the end of the text, or a character that is neither a word character nor a colon.
\<close>

definition isolated :: "string \<Rightarrow> bool" where
  "isolated rest = (rest = [] \<or> (\<not> word_char (hd rest) \<and> hd rest \<noteq> CHR '':''))"

fun has_isolated :: "string \<Rightarrow> string \<Rightarrow> bool" where
  "has_isolated q [] = False"
| "has_isolated q (c # s) =
     ((starts_with (c # s) q \<and> isolated (drop (length q) (c # s))) \<or> has_isolated q s)"

lemma isolated_word_ends: "isolated s \<Longrightarrow> word_ends s"
  by (auto simp: isolated_def word_ends_def)

lemma has_isolated_word: "has_isolated q s \<Longrightarrow> has_word q s"
  by (induction s) (auto simp: isolated_word_ends)

lemma has_isolated_append: "has_isolated q t \<Longrightarrow> has_isolated q (v @ t)"
  by (induction v) auto

lemma isolated_subst: "colon_word p \<Longrightarrow> isolated s \<Longrightarrow> isolated (subst_word p v s)"
  by (cases s) (auto simp: isolated_def colon_word_def)

lemma subst_word_over:
  assumes "list_all word_char w" "colon_word p"
  shows "subst_word p v (w @ s) = w @ subst_word p v s"
  using assms(1)
proof (induction w)
  case (Cons c w)
  obtain u where p: "p = CHR '':'' # u" using assms(2) by (auto simp: colon_word_def)
  have "c \<noteq> CHR '':''" using Cons.prems by auto
  then have "\<not> starts_with (c # w @ s) p" by (simp add: p)
  then show ?case using Cons by simp
qed simp

lemma word_prefix_eq:
  assumes "w @ s = u @ t" "list_all word_char w" "list_all word_char u" "word_ends s" "word_ends t"
  shows "w = u"
proof -
  have "takeWhile word_char (w @ s) = w" if "list_all word_char w" "word_ends s" for w s
    using that by (cases s) (auto simp: takeWhile_append list_all_iff word_ends_def)
  with assms show ?thesis by metis
qed

lemma has_isolated_skip:
  assumes "colon_word q"
  shows "list_all word_char u \<Longrightarrow> has_isolated q (u @ s) \<Longrightarrow> has_isolated q s"
proof (induction u)
  case (Cons c u)
  obtain w where q: "q = CHR '':'' # w" using assms by (auto simp: colon_word_def)
  have "c \<noteq> CHR '':''" using Cons.prems(1) by auto
  then show ?case using Cons by (auto simp: q)
qed simp

lemma has_isolated_subst:
  assumes "colon_word p" "colon_word q" "p \<noteq> q"
  shows "has_isolated q s \<Longrightarrow> has_isolated q (subst_word p v s)"
proof (induction s rule: measure_induct_rule [of length])
  case (less s)
  obtain u where p: "p = CHR '':'' # u" and u: "list_all word_char u"
    using assms(1) by (auto simp: colon_word_def)
  obtain w where q: "q = CHR '':'' # w" and w: "list_all word_char w"
    using assms(2) by (auto simp: colon_word_def)
  from less.prems obtain c t where s: "s = c # t" by (cases s) auto
  show ?case
  proof (cases "starts_with s p \<and> word_ends (drop (length p) s)")
    case True
    then obtain rest where rest: "s = p @ rest" "word_ends rest" by (auto simp: starts_with_iff)
    then have t: "t = u @ rest" "c = CHR '':''" by (auto simp: s p)
    have "has_isolated q rest"
    proof (cases "starts_with s q \<and> isolated (drop (length q) s)")
      case True
      then obtain r where "s = q @ r" "isolated r" by (auto simp: starts_with_iff)
      then have "u = w"
        using word_prefix_eq [of u rest w r] rest u w isolated_word_ends by (simp add: p q)
      then show ?thesis using assms(3) p q by simp
    next
      case False
      then have "has_isolated q (u @ rest)" using less.prems by (auto simp: s t)
      then show ?thesis by (rule has_isolated_skip [OF assms(2) u])
    qed
    moreover have "length rest < length s" by (simp add: rest p)
    ultimately have "has_isolated q (subst_word p v rest)" using less.IH by blast
    then have "has_isolated q (v @ subst_word p v rest)" by (rule has_isolated_append)
    moreover have "subst_word p v s = v @ subst_word p v rest"
      using True by (simp add: s t p)
    ultimately show ?thesis by simp
  next
    case False
    then have sub: "subst_word p v s = c # subst_word p v t" by (auto simp: s)
    show ?thesis
    proof (cases "starts_with s q \<and> isolated (drop (length q) s)")
      case True
      then obtain r where r: "s = q @ r" "isolated r" by (auto simp: starts_with_iff)
      then have "t = w @ r" "c = CHR '':''" by (auto simp: s q)
      then have "subst_word p v s = q @ subst_word p v r"
        using sub subst_word_over [OF w assms(1)] by (simp add: q)
      moreover have "isolated (subst_word p v r)"
        using isolated_subst [OF assms(1) r(2)] .
      moreover have "has_isolated q (q @ z)" if "isolated z" for z
        using that starts_with_append [of q z] by (simp add: q)
      ultimately show ?thesis by simp
    next
      case False
      then have "has_isolated q t" using less.prems by (auto simp: s)
      then have "has_isolated q (subst_word p v t)" using less.IH [of t] by (simp add: s)
      then show ?thesis by (simp add: sub)
    qed
  qed
qed

lemma colon_placeholder: "n \<in> set placeholders \<Longrightarrow> colon_word (CHR '':'' # n)"
proof -
  have "list_all (\<lambda>n. n \<noteq> [] \<and> list_all word_char n) placeholders" by code_simp
  then show "n \<in> set placeholders \<Longrightarrow> colon_word (CHR '':'' # n)"
    by (auto simp: list_all_iff colon_word_def)
qed

lemma has_isolated_fold:
  "colon_word q \<Longrightarrow> list_all (\<lambda>(p, v). colon_word p \<and> p \<noteq> q) reps \<Longrightarrow>
   has_isolated q t \<Longrightarrow> has_isolated q (foldl (\<lambda>t pv. subst_word (fst pv) (snd pv) t) t reps)"
proof (induction reps arbitrary: t)
  case (Cons pv reps)
  then have "has_isolated q (subst_word (fst pv) (snd pv) t)"
    using has_isolated_subst [of "fst pv" q t "snd pv"] by (cases pv) auto
  with Cons show ?case by auto
qed simp

lemma set_template_replacements:
  "template_replacements spec None upper = Inr reps \<Longrightarrow>
   set (map fst reps) \<subseteq> {'':env'', '':table_fqn'', '':upper_bound''}"
  by (auto simp: template_replacements_def bindE_Inr_iff Let_def split: option.splits)

definition sample_spec :: "string \<Rightarrow> string \<Rightarrow> run_spec" where
  "sample_spec mode write_mode =
     \<lparr>rs_env = ''dev'',
      rs_table = \<lparr>ti_domain = ''hr'', ti_name = ''emp'', ti_source_schema = ''HR'',
        ti_source_object = ''EMP'', ti_business_key = [], ti_description = None, ti_owner = None,
        ti_depends_on = []\<rparr>,
      rs_source = default_source,
      rs_extraction = default_extraction
        \<lparr>ex_mode := mode,
         ex_incremental := default_incremental
           \<lparr>in_watermark_column := Some ''TS'', in_watermark_type := ''date''\<rparr>\<rparr>,
      rs_target = (default_target ''main'' ''raw'' ''emp'')\<lparr>tg_write_mode := write_mode\<rparr>,
      rs_control = \<lparr>cs_catalog = ''main'', cs_schema = ''ops''\<rparr>,
      rs_quality = default_quality, rs_runtime = default_runtime,
      rs_alerting = default_alerting, rs_schedule = default_schedule,
      rs_log_level = ''INFO'', rs_config_hash = ''h''\<rparr>"

section \<open>Properties\<close>




text \<open>C4: Windows hand over exactly: with an inclusive lower bound and the upper bound of one
  batch as the lower bound of the next, a row whose watermark lies between the outer bounds
  is selected by one of the two batches and not by both, so nothing is missed or read twice.\<close>

theorem window_handover:
  assumes "is_incremental (rs_extraction spec)"
    "effective_watermark_column (incremental spec) = Some col" "sql_identifier col = Inr col'"
    "lower_bound_is_inclusive spec"
    "\<forall>w\<in>{a, b, c, x}. wm_valid w \<and> wm_ordered w \<and> str_lower (scn_or_type (incremental spec)) = wm_kind w"
    "\<not> wm_less b a" "\<not> wm_less c b"
  shows "(window_selects spec (Some (wm_text a)) (Some (wm_text b)) x \<or>
      window_selects spec (Some (wm_text b)) (Some (wm_text c)) x \<longleftrightarrow>
      window_selects spec (Some (wm_text a)) (Some (wm_text c)) x) \<and>
    \<not> (window_selects spec (Some (wm_text a)) (Some (wm_text b)) x \<and>
       window_selects spec (Some (wm_text b)) (Some (wm_text c)) x)"
proof -
  have m: "wm_valid u \<and> wm_ordered u \<and> str_lower (scn_or_type (incremental spec)) = wm_kind u"
    if "u \<in> {a, b, c, x}" for u
    using assms(5) that by blast
  have k: "wm_kind u = wm_kind v" if "u \<in> {a, b, c, x}" "v \<in> {a, b, c, x}" for u v
    using m that by metis
  have gt: "wm_gt u v = Inr (wm_less v u)" if "u \<in> {a, b, c, x}" "v \<in> {a, b, c, x}" for u v
    using m k that by (intro wm_gt_less) blast+
  have sel: "window_selects spec (Some (wm_text u)) (Some (wm_text v)) x \<longleftrightarrow> \<not> wm_less x u \<and> wm_less x v"
    if uv: "u \<in> {a, b, c, x}" "v \<in> {a, b, c, x}" for u v
  proof -
    have x: "x \<in> {a, b, c, x}" by simp
    show ?thesis
      using window_selects_bounds [OF assms(1-3), of u v x] m [OF uv(1)] m [OF uv(2)]
        k [OF uv(2,1)] gt [OF uv(1) x] gt [OF uv(2) x] assms(4)
      by simp
  qed
  have "wm_less x b \<Longrightarrow> wm_less x c" "wm_less x a \<Longrightarrow> wm_less x b"
    using wm_less_negtrans [of c x b] wm_less_negtrans [of b x a] m [of b] m [of c] k [of x b] k [of b c]
      k [of a b] assms(6,7) by auto
  then show ?thesis using sel [of a b] sel [of b c] sel [of a c] by blast
qed

lemma sample_window:
  "is_incremental (rs_extraction (sample_spec ''incremental'' m))"
  "effective_watermark_column (incremental (sample_spec ''incremental'' m)) = Some ''TS''"
  "sql_identifier ''TS'' = Inr ''TS''"
  "lower_bound_is_inclusive (sample_spec ''incremental'' m) = (m \<noteq> ''append'')"
  "str_lower (scn_or_type (incremental (sample_spec ''incremental'' m))) = ''date''"
  by (simp_all add: sample_spec_def default_extraction_def default_incremental_def is_incremental_def
      effective_watermark_column_def uses_scn_def lower_bound_is_inclusive_def scn_or_type_def
      default_target_def, simp_all add: evals)

lemma sample_dates:
  "valid_date (PDate 2024 3 2)" "valid_date (PDate 2024 3 3)" "valid_date (PDate 2024 3 4)"
  "\<not> PDate 2024 3 3 < PDate 2024 3 2" "\<not> PDate 2024 3 4 < PDate 2024 3 3"
  by (simp_all add: valid_date_def days_in_month_def less_pdate_def date_key_def)

lemma window_handover_witness:
  "\<not> (window_selects (sample_spec ''incremental'' ''merge'') (Some (wm_text (WDate (PDate 2024 3 2))))
        (Some (wm_text (WDate (PDate 2024 3 3)))) (WDate (PDate 2024 3 3)) \<and>
      window_selects (sample_spec ''incremental'' ''merge'') (Some (wm_text (WDate (PDate 2024 3 3))))
        (Some (wm_text (WDate (PDate 2024 3 4)))) (WDate (PDate 2024 3 3)))"
  using window_handover [OF sample_window(1,2,3), of "''merge''" "WDate (PDate 2024 3 2)"
      "WDate (PDate 2024 3 3)" "WDate (PDate 2024 3 4)" "WDate (PDate 2024 3 3)"]
    sample_window(4,5) [of "''merge''"] sample_dates
  by (simp only: wm_valid.simps wm_ordered.simps wm_kind.simps wm_less.simps ball_simps insert_iff
      empty_iff simp_thms) blast

text \<open>With an exclusive lower bound, which is what \<open>auto\<close> chooses for an append target, the
  boundary is lost: a row stamped exactly with the pinned upper bound of a batch is selected
  neither by that batch nor by the next.\<close>

theorem exclusive_windows_skip_boundary:
  assumes "is_incremental (rs_extraction spec)"
    "effective_watermark_column (incremental spec) = Some col" "sql_identifier col = Inr col'"
    "\<not> lower_bound_is_inclusive spec"
    "\<forall>w\<in>{a, b, c}. wm_valid w \<and> wm_ordered w \<and> str_lower (scn_or_type (incremental spec)) = wm_kind w"
  shows "\<not> window_selects spec (Some (wm_text a)) (Some (wm_text b)) b \<and>
    \<not> window_selects spec (Some (wm_text b)) (Some (wm_text c)) b"
proof -
  have gt: "wm_gt b b = Inr False"
    using wm_gt_less [of b b] wm_less_asym [of b b] assms(5) by auto
  then show ?thesis
    using window_selects_bounds [OF assms(1-3), of a b b] window_selects_bounds [OF assms(1-3), of b c b]
      assms(4,5) by auto
qed

lemma exclusive_windows_skip_boundary_witness:
  "\<not> window_selects (sample_spec ''incremental'' ''append'') (Some (wm_text (WDate (PDate 2024 3 2))))
      (Some (wm_text (WDate (PDate 2024 3 3)))) (WDate (PDate 2024 3 3)) \<and>
   \<not> window_selects (sample_spec ''incremental'' ''append'') (Some (wm_text (WDate (PDate 2024 3 3))))
      (Some (wm_text (WDate (PDate 2024 3 4)))) (WDate (PDate 2024 3 3))"
  by (rule exclusive_windows_skip_boundary [OF sample_window(1,2,3)])
    (simp add: sample_window, simp only: wm_valid.simps wm_ordered.simps wm_kind.simps
      sample_window(5) sample_dates ball_simps simp_thms)

text \<open>A query template is never sent with a placeholder in it: what \<open>render_query_template\<close>
  returns contains none of the four, and a template that uses the lower bound, set off from
  a following placeholder, in a run that has none is refused rather than left to read the
  whole table.\<close>

theorem template_placeholders_resolved:
  "(render_query_template template spec lower upper = Inr sql \<longrightarrow>
     (\<forall>n\<in>set placeholders. \<not> has_word (CHR '':'' # n) sql)) \<and>
   (has_isolated '':lower_bound'' (rstrip (\<lambda>c. c = CHR '';'') (str_strip template)) \<longrightarrow>
     (\<exists>e. render_query_template template spec None upper = Inl e))"
proof (intro conjI impI)
  assume "render_query_template template spec lower upper = Inr sql"
  then have l: "sorted_set (filter (\<lambda>n. has_word (CHR '':'' # n) sql) placeholders) = []"
    by (auto simp: render_query_template_def bindE_Inr_iff Let_def split: if_splits)
  have "set (filter (\<lambda>n. has_word (CHR '':'' # n) sql) placeholders) = {}"
    using set_sorted_set [of "filter (\<lambda>n. has_word (CHR '':'' # n) sql) placeholders"] unfolding l by simp
  then show "\<forall>n\<in>set placeholders. \<not> has_word (CHR '':'' # n) sql" by auto
next
  let ?t = "rstrip (\<lambda>c. c = CHR '';'') (str_strip template)"
  assume a: "has_isolated '':lower_bound'' ?t"
  show "\<exists>e. render_query_template template spec None upper = Inl e"
  proof (cases "template_replacements spec None upper")
    case (Inr reps)
    let ?r = "foldl (\<lambda>t pv. subst_word (fst pv) (snd pv) t) ?t reps"
    have cw: "colon_word '':lower_bound''" "colon_word '':upper_bound''" "colon_word '':env''"
      "colon_word '':table_fqn''"
      using colon_placeholder by (simp_all add: placeholders_def)
    have "fst pv \<in> {'':env'', '':table_fqn'', '':upper_bound''}" if "pv \<in> set reps" for pv
      using set_template_replacements [OF Inr] that by auto
    then have "list_all (\<lambda>(p, v). colon_word p \<and> p \<noteq> '':lower_bound'') reps"
      using cw by (fastforce simp: list_all_iff)
    from has_isolated_word [OF has_isolated_fold [OF cw(1) this a]]
    have "''lower_bound'' \<in> set (sorted_set (filter (\<lambda>n. has_word (CHR '':'' # n) ?r) placeholders))"
      by (simp add: placeholders_def)
    then have "sorted_set (filter (\<lambda>n. has_word (CHR '':'' # n) ?r) placeholders) \<noteq> []"
      by (metis empty_iff empty_set)
    with Inr show ?thesis by (simp add: render_query_template_def Let_def)
  qed (simp add: render_query_template_def)
qed

lemma template_placeholders_resolved_witness:
  "\<exists>e. render_query_template ''SELECT * FROM T WHERE D > :lower_bound AND D < :upper_bound;''
     (sample_spec ''query'' ''merge'') None (Some ''2024-03-02'') = Inl e"
proof -
  have "rstrip (\<lambda>c. c = CHR '';'') (str_strip ''SELECT * FROM T WHERE D > :lower_bound AND D < :upper_bound;'') =
      ''SELECT * FROM T WHERE D > :lower_bound AND D < :upper_bound''" by code_simp
  moreover have "has_isolated '':lower_bound'' ''SELECT * FROM T WHERE D > :lower_bound AND D < :upper_bound''"
    by code_simp
  ultimately show ?thesis by (metis template_placeholders_resolved)
qed

lemma build_projection_columns:
  assumes "build_projection spec = Inr (text, columns)" "ex_columns (rs_extraction spec) = Columns cs"
    "excluded = map str_upper (ex_exclude_columns (rs_extraction spec))"
  shows "\<exists>extra. columns = filter (\<lambda>c. str_upper c \<notin> set excluded) cs @ extra \<and>
    set extra \<subseteq> {scn_column @ '' AS '' @ scn_column}"
proof -
  have id: "mapE sql_identifier cs = Inr ys \<Longrightarrow> ys = cs" for ys
    by (rule mapE_id) (auto simp: sql_identifier_def split: if_splits)
  let ?K = "filter (\<lambda>c. str_upper c \<notin> set excluded) cs"
  have k: "k = ?K" if "(if excluded \<noteq> [] then let kept = ?K in
      if kept = [] then Inl (SqlBuildError ''exclude_columns'') else Inr kept else Inr cs) = Inr k" for k
    using that by (cases "excluded = []") (auto simp: Let_def split: if_splits)
  from assms(1,2) obtain ys k where "mapE sql_identifier cs = Inr ys"
    "(if excluded \<noteq> [] then let kept = filter (\<lambda>c. str_upper c \<notin> set excluded) ys in
      if kept = [] then Inl (SqlBuildError ''exclude_columns'') else Inr kept else Inr ys) = Inr k"
    "columns = k @ (if is_incremental (rs_extraction spec) \<and> uses_scn (incremental spec)
       then [scn_column @ '' AS '' @ scn_column] else [])"
    unfolding build_projection_def Let_def assms(3)
    by (auto simp: selects_all_columns_def column_list_def bindE_Inr_iff simp del: set_map)
  with id k show ?thesis by auto
qed

text \<open>A listed column that is excluded, in whatever case, is never projected; with the
  default \<open>*\<close> the exclusions have no effect at all on the projection.\<close>

theorem projection_excludes:
  "(build_projection spec = Inr (text, columns) \<and> ex_columns (rs_extraction spec) = Columns cs \<and>
      c \<in> set columns \<and> c \<noteq> scn_column @ '' AS '' @ scn_column \<longrightarrow>
      c \<in> set cs \<and> str_upper c \<notin> set (map str_upper (ex_exclude_columns (rs_extraction spec)))) \<and>
   (ex_columns (rs_extraction spec) = AllColumns \<longrightarrow>
      build_projection (spec\<lparr>rs_extraction := (rs_extraction spec)\<lparr>ex_exclude_columns := xs\<rparr>\<rparr>) =
      build_projection spec)"
proof (intro conjI impI)
  assume a: "build_projection spec = Inr (text, columns) \<and> ex_columns (rs_extraction spec) = Columns cs \<and>
    c \<in> set columns \<and> c \<noteq> scn_column @ '' AS '' @ scn_column"
  with build_projection_columns [OF _ _ refl, of spec _ columns cs]
  show "c \<in> set cs" "str_upper c \<notin> set (map str_upper (ex_exclude_columns (rs_extraction spec)))"
    by fastforce+
qed (simp add: build_projection_def selects_all_columns_def is_incremental_def uses_scn_def Let_def)

definition column_spec :: run_spec where
  "column_spec =
     (sample_spec ''full'' ''merge'')\<lparr>rs_extraction := default_extraction
        \<lparr>ex_columns := Columns [''ID'', ''Notes''], ex_exclude_columns := [''NOTES'']\<rparr>\<rparr>"

lemma projection_excludes_witness:
  "build_projection column_spec = Inr (''ID'', [''ID'']) \<and> str_upper ''ID'' \<notin> {str_upper ''NOTES''}"
proof
  show b: "build_projection column_spec = Inr (''ID'', [''ID''])"
    by (simp add: column_spec_def sample_spec_def default_extraction_def default_incremental_def
        build_projection_def selects_all_columns_def column_list_def is_incremental_def)
      (simp add: evals)
  have "''ID'' \<noteq> scn_column @ '' AS '' @ scn_column" by (simp add: scn_column_def)
  with projection_excludes [of column_spec "''ID''" "[''ID'']" "[''ID'', ''Notes'']" "''ID''"] b
  show "str_upper ''ID'' \<notin> {str_upper ''NOTES''}"
    by (simp add: column_spec_def default_extraction_def)
qed

end
