(* ===== verification/Transformer.thy ===== *)
theory Transformer
  imports SqlBuilder
begin

text \<open>
  Staging a batch (engine/transformer.py): view names, the audit columns, the staging
  statement with its dedupe, and the counting queries, as the texts the code builds; and,
  beside the statement, the relation between a raw batch and what its ROW_NUMBER filter may
  leave of it.
\<close>

section \<open>Names\<close>

definition raw_view :: string where
  "raw_view = ''_ingest_raw''"

definition staged_view :: string where
  "staged_view = ''_ingest_staged''"

definition row_number_column :: string where
  "row_number_column = ''_rn''"

record view_names =
  vn_raw :: string
  vn_staged :: string

text \<open>\<open>re.sub("[^A-Za-z0-9]", "_", ...)\<close> and \<open>strip("_")\<close>.\<close>

definition safe_char :: "char \<Rightarrow> char" where
  "safe_char c = (if is_alpha c \<or> is_digit c then c else CHR ''_'')"

definition strip_char :: "char \<Rightarrow> string \<Rightarrow> string" where
  "strip_char c s = rstrip (\<lambda>x. x = c) (lstrip (\<lambda>x. x = c) s)"

definition make_view_names :: "string \<Rightarrow> string \<Rightarrow> int \<Rightarrow> view_names" where
  "make_view_names fqn rid attempt =
     (let suffix = strip_char (CHR ''_'')
            (map safe_char (fqn @ ''_'' @ rid @ ''_'' @ str_int attempt))
      in \<lparr>vn_raw = raw_view @ ''_'' @ suffix, vn_staged = staged_view @ ''_'' @ suffix\<rparr>)"

definition audit_columns :: "string list" where
  "audit_columns =
     [''_ingested_at'', ''_ingested_date'', ''_run_id'', ''_batch_id'', ''_source_op'',
      ''_first_ingested_at'']"

definition insert_only_audit_columns :: "string list" where
  "insert_only_audit_columns = [''_first_ingested_at'']"

definition normalize_column :: "string \<Rightarrow> string \<Rightarrow> string" where
  "normalize_column name column_case = (if column_case = ''lower'' then str_lower name else name)"

definition normalize_columns :: "string list \<Rightarrow> string \<Rightarrow> string list" where
  "normalize_columns names column_case = map (\<lambda>n. normalize_column n column_case) names"

text \<open>\<open>text.split(sep)\<close> for a separator of several characters.\<close>

fun split_str :: "string \<Rightarrow> string \<Rightarrow> string list" where
  "split_str p [] = [[]]"
| "split_str p (c # s) =
     (if p \<noteq> [] \<and> starts_with (c # s) p then [] # split_str p (drop (length p - 1) s)
      else case split_str p s of [] \<Rightarrow> [[c]] | x # xs \<Rightarrow> (c # x) # xs)"

definition source_column_name :: "string \<Rightarrow> string" where
  "source_column_name name = strip_char dquote (str_strip (last (split_str '' AS '' name)))"

section \<open>Literals\<close>

definition safe_literal_char :: "char \<Rightarrow> bool" where
  "safe_literal_char c =
     (is_alpha c \<or> is_digit c \<or>
      c \<in> {CHR ''_'', CHR ''.'', CHR '':'', CHR ''+'', CHR ''-''})"

fun spark_literal :: "pyval \<Rightarrow> string res" where
  "spark_literal VNone = Inr ''NULL''"
| "spark_literal (VDatetime t) = Inr (''TIMESTAMP '' @ [quote] @ format_timestamp t @ [quote])"
| "spark_literal (VDate d) = Inr (''DATE '' @ [quote] @ format_date d @ [quote])"
| "spark_literal v =
     (if re_dollar (list_all safe_literal_char) (py_str v)
      then Inr ([quote] @ py_str v @ [quote]) else Inl (SqlBuildError (py_str v)))"

section \<open>The staging statement\<close>

record stage_query =
  st_sql :: string
  st_columns :: "string list"
  st_data_columns :: "string list"
  st_dedupe_applied :: bool
  st_dedupe_keys :: "string list"
  st_order_by :: "string option"

definition stage_audit_columns :: "stage_query \<Rightarrow> string list" where
  "stage_audit_columns q = filter (\<lambda>c. c \<in> set audit_columns) (st_columns q)"

definition dedupe_order_expression :: "run_spec \<Rightarrow> string list \<Rightarrow> string" where
  "dedupe_order_expression spec available =
     (let upper = map str_upper available;
          wm = effective_watermark_column (incremental spec);
          by_mark = (if present wm \<and> str_upper (text_of wm) \<in> set upper
                     then [text_of wm @ '' DESC NULLS LAST''] else []);
          by_scn = (if scn_column \<in> set upper \<and> (\<not> present wm \<or> str_upper (text_of wm) \<noteq> scn_column)
                    then [scn_column @ '' DESC NULLS LAST''] else []);
          parts = by_mark @ by_scn
      in join '', '' (if parts = [] then [''monotonically_increasing_id() DESC''] else parts))"

definition needs_dedupe :: "run_spec \<Rightarrow> bool" where
  "needs_dedupe spec = (is_merge (rs_target spec) \<and> tg_merge_keys (rs_target spec) \<noteq> [])"

definition data_projection :: "string list \<Rightarrow> string list \<Rightarrow> string list" where
  "data_projection incoming data_columns =
     map (\<lambda>(raw, final). if raw = final then raw else raw @ '' AS '' @ final)
       (zip incoming data_columns)"

definition audit_projection :: "string \<Rightarrow> string \<Rightarrow> pdatetime \<Rightarrow> string list res" where
  "audit_projection rid batch_id ingested_at =
     bindE (spark_literal (VDatetime ingested_at)) (\<lambda>at_lit.
     bindE (spark_literal (VDate (dt_date ingested_at))) (\<lambda>date_lit.
     bindE (spark_literal (VStr rid)) (\<lambda>run_lit.
     bindE (spark_literal (VStr batch_id)) (\<lambda>batch_lit.
     Inr [at_lit @ '' AS _ingested_at'', date_lit @ '' AS _ingested_date'',
          run_lit @ '' AS _run_id'', batch_lit @ '' AS _batch_id'',
          [quote] @ ''I'' @ [quote] @ '' AS _source_op'', at_lit @ '' AS _first_ingested_at'']))))"

definition stage_sql :: "string \<Rightarrow> string \<Rightarrow> string" where
  "stage_sql select_list view =
     ''SELECT'' @ [newline] @ ''  '' @ select_list @ [newline] @ ''FROM '' @ view"

definition dedupe_sql :: "string \<Rightarrow> string \<Rightarrow> string \<Rightarrow> string \<Rightarrow> string" where
  "dedupe_sql select_list partition_by order_by view =
     ''SELECT'' @ [newline] @ ''  '' @ select_list @ [newline] @
     ''FROM ('' @ [newline] @
     ''  SELECT *, ROW_NUMBER() OVER ('' @ [newline] @
     ''    PARTITION BY '' @ partition_by @ [newline] @
     ''    ORDER BY '' @ order_by @ [newline] @
     ''  ) AS '' @ row_number_column @ [newline] @
     ''  FROM '' @ view @ [newline] @
     '')'' @ [newline] @
     ''WHERE '' @ row_number_column @ '' = 1''"

definition build_stage_query ::
  "run_spec \<Rightarrow> string list \<Rightarrow> string \<Rightarrow> string \<Rightarrow> pdatetime \<Rightarrow> string \<Rightarrow> stage_query res" where
  "build_stage_query spec source_columns rid batch_id ingested_at view =
     (if source_columns = [] then Inl (SqlBuildError ''source_columns'')
      else
        let col_case = tg_column_case (rs_target spec);
            incoming = map source_column_name source_columns;
            data_columns = normalize_columns incoming col_case in
        bindE
          (if tg_add_audit_columns (rs_target spec)
           then audit_projection rid batch_id ingested_at else Inr [])
          (\<lambda>audit.
             let columns = data_columns @
                   (if tg_add_audit_columns (rs_target spec) then audit_columns else []);
                 select_list = join ('','' @ [newline] @ ''  '')
                   (data_projection incoming data_columns @ audit)
             in
             if \<not> needs_dedupe spec then
               Inr \<lparr>st_sql = stage_sql select_list view, st_columns = columns,
                    st_data_columns = data_columns, st_dedupe_applied = False,
                    st_dedupe_keys = [], st_order_by = None\<rparr>
             else
               let keys = normalize_columns (tg_merge_keys (rs_target spec)) col_case;
                   missing = filter (\<lambda>k. str_upper k \<notin> set (map str_upper data_columns)) keys
               in
               if missing \<noteq> [] then Inl (SqlBuildError (join '', '' missing))
               else
                 let order_by = dedupe_order_expression spec incoming;
                     partition_by = join '', '' (tg_merge_keys (rs_target spec))
                 in Inr \<lparr>st_sql = dedupe_sql select_list partition_by order_by view,
                         st_columns = columns, st_data_columns = data_columns,
                         st_dedupe_applied = True, st_dedupe_keys = keys,
                         st_order_by = Some order_by\<rparr>))"

definition build_duplicate_count_query :: "run_spec \<Rightarrow> string \<Rightarrow> string res" where
  "build_duplicate_count_query spec view =
     (if tg_merge_keys (rs_target spec) = [] then Inl (SqlBuildError ''merge keys'')
      else Inr (''SELECT COUNT(*) - COUNT(DISTINCT '' @ join '', '' (tg_merge_keys (rs_target spec)) @
                '') AS DUPLICATE_ROWS FROM '' @ view))"

definition build_null_key_query :: "run_spec \<Rightarrow> string \<Rightarrow> string res" where
  "build_null_key_query spec view =
     (if tg_merge_keys (rs_target spec) = [] then Inl (SqlBuildError ''merge keys'')
      else Inr (''SELECT COUNT(*) AS NULL_KEY_ROWS FROM '' @ view @ '' WHERE '' @
                join '' OR '' (map (\<lambda>k. k @ '' IS NULL'') (tg_merge_keys (rs_target spec)))))"

declare raw_view_def [evals] staged_view_def [evals] row_number_column_def [evals]
  safe_char_def [evals] strip_char_def [evals] make_view_names_def [evals]
  audit_columns_def [evals] insert_only_audit_columns_def [evals] normalize_column_def [evals]
  normalize_columns_def [evals] source_column_name_def [evals] safe_literal_char_def [evals]
  stage_audit_columns_def [evals] dedupe_order_expression_def [evals] needs_dedupe_def [evals]
  data_projection_def [evals] audit_projection_def [evals] stage_sql_def [evals]
  dedupe_sql_def [evals] build_stage_query_def [evals] build_duplicate_count_query_def [evals]
  build_null_key_query_def [evals]

section \<open>What staging leaves\<close>

text \<open>
  Rows of a batch or of a table, as values by column name, and the comparisons of SQL on
  them: NULL is equal to nothing and ordered with nothing.
\<close>

type_synonym row = "string \<Rightarrow> pyval"

definition sql_eq :: "pyval \<Rightarrow> pyval \<Rightarrow> bool" where
  "sql_eq a b = (a \<noteq> VNone \<and> b \<noteq> VNone \<and> py_eq a b)"

definition sql_ge :: "pyval \<Rightarrow> pyval \<Rightarrow> bool" where
  "sql_ge a b =
     (case (num_value a, num_value b) of
        (Some x, Some y) \<Rightarrow> y \<le> x
      | _ \<Rightarrow>
          (case (a, b) of
             (VDate x, VDate y) \<Rightarrow> y \<le> x
           | (VDatetime x, VDatetime y) \<Rightarrow> y \<le> x
           | (VStr x, VStr y) \<Rightarrow> y \<le> x
           | _ \<Rightarrow> False))"

text \<open>PARTITION BY groups equal values, and NULL with NULL.\<close>

definition same_group :: "string list \<Rightarrow> row \<Rightarrow> row \<Rightarrow> bool" where
  "same_group keys a b = list_all (\<lambda>k. py_eq (a k) (b k)) keys"

text \<open>
  \<open>ORDER BY g DESC NULLS LAST\<close>: one row comes strictly before another.
\<close>

definition newer_by :: "string option \<Rightarrow> row \<Rightarrow> row \<Rightarrow> bool" where
  "newer_by g a b =
     (case g of
        None \<Rightarrow> False
      | Some c \<Rightarrow>
          (b c = VNone \<and> a c \<noteq> VNone) \<or> (sql_ge (a c) (b c) \<and> \<not> sql_ge (b c) (a c)))"

text \<open>
  What \<open>ROW_NUMBER() = 1\<close> may leave of a batch: some of its rows, one of every group and none
  that another row of its group comes before; which one among equally new rows is the
  engine's choice.
\<close>

definition deduped :: "string list \<Rightarrow> string option \<Rightarrow> row list \<Rightarrow> row list \<Rightarrow> bool" where
  "deduped keys g batch staged =
     (set staged \<subseteq> set batch \<and>
      (\<forall>b\<in>set batch. \<exists>s\<in>set staged. same_group keys b s) \<and>
      (\<forall>s\<in>set staged. \<forall>b\<in>set batch. same_group keys b s \<longrightarrow> \<not> newer_by g b s) \<and>
      sorted_wrt (\<lambda>a b. \<not> same_group keys a b) staged)"

lemma sql_eq_sym: "sql_eq a b = sql_eq b a"
  by (auto simp: sql_eq_def py_eq_sym)

lemma sql_eq_trans: "sql_eq a b \<Longrightarrow> sql_eq b c \<Longrightarrow> sql_eq a c"
  by (auto simp: sql_eq_def intro: py_eq_trans)

lemma sql_eq_py_eq: "sql_eq a b \<Longrightarrow> py_eq a b"
  by (simp add: sql_eq_def)

text \<open>
  The views of two tables of one run can have the same names: the dot between domain and
  table and an underscore within one of them become the same character.
\<close>

lemma view_names_collide:
  "make_view_names ''hr.emp_x'' rid attempt = make_view_names ''hr_emp.x'' rid attempt"
proof -
  have "map safe_char ''hr.emp_x'' = map safe_char ''hr_emp.x''" by code_simp
  then show ?thesis by (simp only: make_view_names_def map_append)
qed

lemma normalize_columns_length [simp]: "length (normalize_columns names c) = length names"
  by (simp add: normalize_columns_def)

lemma audit_projection_Inr:
  assumes "audit_projection rid bid t = Inr audit"
  shows "list_all2 (\<lambda>item c. \<exists>e. item = e @ '' AS '' @ c) audit audit_columns"
  using assms by (auto simp: audit_projection_def audit_columns_def bindE_Inr_iff)

lemma data_projection_names:
  "length a = length b \<Longrightarrow>
   list_all2 (\<lambda>item c. item = c \<or> (\<exists>e. item = e @ '' AS '' @ c)) (data_projection a b) b"
  by (induction a b rule: list_induct2) (auto simp: data_projection_def)

lemma build_stage_query_Inr:
  assumes "build_stage_query spec cols rid bid t view = Inr q"
  shows "\<exists>audit. (if tg_add_audit_columns (rs_target spec) then audit_projection rid bid t else Inr []) = Inr audit \<and>
    st_data_columns q = normalize_columns (map source_column_name cols) (tg_column_case (rs_target spec)) \<and>
    st_columns q = st_data_columns q @ (if tg_add_audit_columns (rs_target spec) then audit_columns else []) \<and>
    st_dedupe_applied q = needs_dedupe spec \<and>
    (needs_dedupe spec \<longrightarrow>
      st_dedupe_keys q = normalize_columns (tg_merge_keys (rs_target spec)) (tg_column_case (rs_target spec)) \<and>
      (\<forall>k\<in>set (st_dedupe_keys q). str_upper k \<in> set (map str_upper (st_data_columns q))))"
  using assms
  by (auto simp: build_stage_query_def Let_def bindE_Inr_iff filter_empty_conv split: if_splits)

section \<open>Properties\<close>

text \<open>A staging statement projects exactly its columns, in their order and each under its
  own name, followed by the audit columns when they are on; it dedupes exactly when the
  target is merged on keys, and then every key is one of the extracted columns; a merge key
  the batch does not have, or an empty batch schema, is refused.\<close>

theorem stage_projects_columns:
  "(build_stage_query spec cols rid bid t view = Inr q \<longrightarrow>
     (\<exists>items. list_all2 (\<lambda>item c. item = c \<or> (\<exists>e. item = e @ '' AS '' @ c)) items (st_columns q) \<and>
        st_columns q = normalize_columns (map source_column_name cols) (tg_column_case (rs_target spec)) @
          (if tg_add_audit_columns (rs_target spec) then audit_columns else []) \<and>
        st_dedupe_applied q = needs_dedupe spec \<and>
        (needs_dedupe spec \<longrightarrow>
          (\<forall>k\<in>set (tg_merge_keys (rs_target spec)).
             str_upper k \<in> set (map str_upper (st_data_columns q)))))) \<and>
   (cols = [] \<longrightarrow> (\<exists>e. build_stage_query spec cols rid bid t view = Inl e))"
proof (intro conjI impI)
  assume "build_stage_query spec cols rid bid t view = Inr q"
  from build_stage_query_Inr [OF this] obtain audit where
    audit: "(if tg_add_audit_columns (rs_target spec) then audit_projection rid bid t else Inr []) = Inr audit"
    and q: "st_data_columns q = normalize_columns (map source_column_name cols) (tg_column_case (rs_target spec))"
      "st_columns q = st_data_columns q @ (if tg_add_audit_columns (rs_target spec) then audit_columns else [])"
      "st_dedupe_applied q = needs_dedupe spec"
    and keys: "needs_dedupe spec \<longrightarrow>
      st_dedupe_keys q = normalize_columns (tg_merge_keys (rs_target spec)) (tg_column_case (rs_target spec)) \<and>
      (\<forall>k\<in>set (st_dedupe_keys q). str_upper k \<in> set (map str_upper (st_data_columns q)))"
    by blast
  let ?P = "\<lambda>item c. item = c \<or> (\<exists>e. item = e @ '' AS '' @ c)"
  have "list_all2 ?P (data_projection (map source_column_name cols) (st_data_columns q)) (st_data_columns q)"
    by (rule data_projection_names) (simp add: q)
  moreover have "list_all2 ?P audit (if tg_add_audit_columns (rs_target spec) then audit_columns else [])"
    using audit audit_projection_Inr [of rid bid t audit] list_all2_mono [of _ audit audit_columns ?P]
    by (auto split: if_splits)
  ultimately have "list_all2 ?P (data_projection (map source_column_name cols) (st_data_columns q) @ audit) (st_columns q)"
    unfolding q(2) by (rule list_all2_appendI)
  moreover have "str_upper (normalize_column k c) = str_upper k" for k c
    by (simp add: normalize_column_def)
  ultimately show "\<exists>items. list_all2 ?P items (st_columns q) \<and>
        st_columns q = normalize_columns (map source_column_name cols) (tg_column_case (rs_target spec)) @
          (if tg_add_audit_columns (rs_target spec) then audit_columns else []) \<and>
        st_dedupe_applied q = needs_dedupe spec \<and>
        (needs_dedupe spec \<longrightarrow>
          (\<forall>k\<in>set (tg_merge_keys (rs_target spec)).
             str_upper k \<in> set (map str_upper (st_data_columns q))))"
    using q keys by (intro exI conjI) (auto simp: normalize_columns_def)
qed (simp add: build_stage_query_def)


definition plain_spec :: run_spec where
  "plain_spec =
     (sample_spec ''full'' ''merge'')\<lparr>rs_target :=
        (default_target ''main'' ''raw'' ''emp'')
          \<lparr>tg_add_audit_columns := False, tg_merge_keys := [''id''], tg_column_case := ''lower''\<rparr>\<rparr>"

lemma stage_projects_columns_witness:
  "\<exists>q. build_stage_query plain_spec [''ID''] ''r1'' ''b1'' some_time ''v'' = Inr q \<and>
     st_columns q = [''id''] \<and> st_dedupe_applied q"
proof -
  have m: "is_merge (rs_target plain_spec)" "tg_merge_keys (rs_target plain_spec) = [''id'']"
    "tg_add_audit_columns (rs_target plain_spec) = False" "tg_column_case (rs_target plain_spec) = ''lower''"
    by (simp_all add: plain_spec_def sample_spec_def default_target_def is_merge_def)
  have n: "source_column_name ''ID'' = ''ID''" "normalize_column ''ID'' ''lower'' = ''id''"
    "str_upper ''id'' = ''ID''" "normalize_column ''id'' ''lower'' = ''id''"
    by code_simp+
  obtain q where q: "build_stage_query plain_spec [''ID''] ''r1'' ''b1'' some_time ''v'' = Inr q"
    using m n by (auto simp: build_stage_query_def needs_dedupe_def normalize_columns_def Let_def)
  with stage_projects_columns [of plain_spec "[''ID'']" "''r1''" "''b1''" some_time "''v''" q] m n
  show ?thesis by (auto simp: needs_dedupe_def normalize_columns_def)
qed

end
