(* ===== verification/Loader.thy ===== *)
theory Loader
  imports Transformer
begin

text \<open>
  Writing a staged batch (engine/loader.py): the MERGE as a plan that is rendered to the text
  the code builds and, as the standard defines MERGE, applied to the rows of a table; the
  CREATE TABLE text; and the reading of Delta's operation metrics.
\<close>

section \<open>The MERGE\<close>

definition delta_identifier :: "string \<Rightarrow> string res" where
  "delta_identifier name =
     (if name = [] \<or> \<not> valid_identifier name then Inl (SqlBuildError name) else Inr name)"

definition merge_guard_column :: "run_spec \<Rightarrow> string option" where
  "merge_guard_column spec =
     (if tg_merge_guard (rs_target spec) \<noteq> ''watermark'' then None
      else
        let wm = effective_watermark_column (incremental spec) in
        if \<not> present wm then None
        else Some (normalize_column (text_of wm) (tg_column_case (rs_target spec))))"

text \<open>What the statement says, clause by clause.\<close>

record merge_plan =
  pl_target :: string
  pl_view :: string
  pl_keys :: "string list"
  pl_set :: "string list"
  pl_flag :: bool
  pl_columns :: "string list"
  pl_guard :: "string option"

definition updatable_columns :: "string list \<Rightarrow> string list \<Rightarrow> string list" where
  "updatable_columns keys columns =
     filter (\<lambda>c. str_upper c \<notin> set (map str_upper keys) \<and> c \<notin> set insert_only_audit_columns) columns"

definition build_merge_plan :: "run_spec \<Rightarrow> string list \<Rightarrow> string \<Rightarrow> merge_plan res" where
  "build_merge_plan spec columns view =
     (if tg_merge_keys (rs_target spec) = [] then Inl (SqlBuildError ''merge_keys'')
      else if columns = [] then Inl (SqlBuildError ''columns'')
      else
        let keys = normalize_columns (tg_merge_keys (rs_target spec)) (tg_column_case (rs_target spec));
            column_set = map str_upper columns;
            missing = filter (\<lambda>k. str_upper k \<notin> set column_set) keys in
        if missing \<noteq> [] then Inl (SqlBuildError (join '', '' missing))
        else
          bindE (mapE delta_identifier keys) (\<lambda>key_ids.
          bindE (mapE delta_identifier
                  (filter (\<lambda>c. c \<noteq> ''_source_op'') (updatable_columns keys columns))) (\<lambda>set_ids.
          bindE (mapE delta_identifier columns) (\<lambda>column_ids.
          bindE (case merge_guard_column spec of
                   None \<Rightarrow> Inr None
                 | Some g \<Rightarrow>
                     if str_upper g \<notin> set column_set then Inl (SqlBuildError g)
                     else bindE (delta_identifier g) (\<lambda>i. Inr (Some i))) (\<lambda>guard.
          Inr \<lparr>pl_target = target_fqn (rs_target spec), pl_view = view, pl_keys = key_ids,
               pl_set = set_ids, pl_flag = (''_source_op'' \<in> set columns),
               pl_columns = column_ids, pl_guard = guard\<rparr>)))))"

definition merge_sql :: "merge_plan \<Rightarrow> string" where
  "merge_sql p =
     (let sep = '','' @ [newline] @ ''  '';
          on = join '' AND '' (map (\<lambda>k. ''t.'' @ k @ '' = s.'' @ k) (pl_keys p));
          sets = map (\<lambda>c. ''t.'' @ c @ '' = s.'' @ c) (pl_set p) @
            (if pl_flag p then [''t._source_op = '' @ [quote] @ ''U'' @ [quote]] else []);
          matched = (case pl_guard p of
              None \<Rightarrow> ''WHEN MATCHED''
            | Some g \<Rightarrow> ''WHEN MATCHED AND (t.'' @ g @ '' IS NULL OR s.'' @ g @ '' >= t.'' @ g @ '')'')
      in ''MERGE INTO '' @ pl_target p @ '' AS t'' @ [newline] @
         ''USING '' @ pl_view p @ '' AS s'' @ [newline] @
         ''ON '' @ on @ [newline] @
         matched @ '' THEN UPDATE SET'' @ [newline] @ ''  '' @ join sep sets @ [newline] @
         ''WHEN NOT MATCHED THEN INSERT ('' @ [newline] @ ''  '' @ join '', '' (pl_columns p) @ [newline] @
         '') VALUES ('' @ [newline] @ ''  '' @ join '', '' (map (\<lambda>c. ''s.'' @ c) (pl_columns p)) @
         [newline] @ '')'')"

definition build_merge_sql :: "run_spec \<Rightarrow> string list \<Rightarrow> string \<Rightarrow> string res" where
  "build_merge_sql spec columns view =
     bindE (build_merge_plan spec columns view) (\<lambda>p. Inr (merge_sql p))"

text \<open>
  The effect of the statement: a target row matched by one staged row is updated when the
  guard lets it; one matched by several is an error of the engine; a staged row that matches
  no target row is inserted, its other columns NULL.  The counts are those of the metrics.
\<close>

definition key_match :: "string list \<Rightarrow> row \<Rightarrow> row \<Rightarrow> bool" where
  "key_match keys t s = list_all (\<lambda>k. sql_eq (t k) (s k)) keys"

definition guard_lets :: "string option \<Rightarrow> row \<Rightarrow> row \<Rightarrow> bool" where
  "guard_lets g t s = (case g of None \<Rightarrow> True | Some c \<Rightarrow> t c = VNone \<or> sql_ge (s c) (t c))"

definition update_row :: "merge_plan \<Rightarrow> row \<Rightarrow> row \<Rightarrow> row" where
  "update_row p t s =
     (\<lambda>c. if c = ''_source_op'' \<and> pl_flag p then VStr ''U''
          else if c \<in> set (pl_set p) then s c else t c)"

definition insert_row :: "merge_plan \<Rightarrow> row \<Rightarrow> row" where
  "insert_row p s = (\<lambda>c. if c \<in> set (pl_columns p) then s c else VNone)"

definition merge_target_row :: "merge_plan \<Rightarrow> row list \<Rightarrow> row \<Rightarrow> (row \<times> bool) res" where
  "merge_target_row p staged t =
     (case filter (key_match (pl_keys p) t) staged of
        [] \<Rightarrow> Inr (t, False)
      | [s] \<Rightarrow> if guard_lets (pl_guard p) t s then Inr (update_row p t s, True) else Inr (t, False)
      | _ \<Rightarrow> Inl (External ''multiple source rows matched''))"

record merge_result =
  mr_rows :: "row list"
  mr_updated :: nat
  mr_inserted :: nat

definition merge_effect :: "merge_plan \<Rightarrow> row list \<Rightarrow> row list \<Rightarrow> merge_result res" where
  "merge_effect p staged target =
     bindE (mapE (merge_target_row p staged) target) (\<lambda>kept.
       let new = filter (\<lambda>s. \<not> list_ex (\<lambda>t. key_match (pl_keys p) t s) target) staged
       in Inr \<lparr>mr_rows = map fst kept @ map (insert_row p) new,
               mr_updated = length (filter snd kept), mr_inserted = length new\<rparr>)"

section \<open>Creating the table\<close>

definition build_create_table_sql :: "run_spec \<Rightarrow> (string \<times> string) list \<Rightarrow> string res" where
  "build_create_table_sql spec columns =
     (let tg = rs_target spec in
      if columns = [] then Inl (SqlBuildError ''columns'')
      else
        bindE (qualify [tg_catalog tg, tg_schema tg, tg_table_name tg]) (\<lambda>target.
        bindE (mapE (\<lambda>(n, ty). bindE (delta_identifier n) (\<lambda>i. Inr (i @ '' '' @ ty))) columns) (\<lambda>body.
        bindE
          (if tg_partition_by tg \<noteq> [] then
             bindE (mapE delta_identifier (tg_partition_by tg)) (\<lambda>cs.
             Inr [''PARTITIONED BY ('' @ join '', '' cs @ '')''])
           else if tg_cluster_by tg \<noteq> [] then
             bindE (mapE delta_identifier (tg_cluster_by tg)) (\<lambda>cs.
             Inr [''CLUSTER BY ('' @ join '', '' cs @ '')''])
           else Inr []) (\<lambda>layout.
          let comment = (if present (ti_description (rs_table spec))
                then [''COMMENT '' @ [quote] @ escape (text_of (ti_description (rs_table spec))) @ [quote]]
                else []);
              props1 = (if tg_enable_cdf tg
                then dict_set (tg_table_properties tg) ''delta.enableChangeDataFeed'' ''true''
                else tg_table_properties tg);
              props2 = dict_setdefault props1 ''ingestion.source_table'' (source_fqn (rs_table spec));
              props3 = dict_setdefault props2 ''ingestion.managed_by'' ''ingestion-framework'';
              rendered = join '', '' (map (\<lambda>(k, v). [quote] @ k @ [quote] @ '' = '' @ [quote] @ v @ [quote])
                (sort_key fst props3))
          in Inr (join [newline]
               ([''CREATE TABLE IF NOT EXISTS '' @ target @ '' ('',
                 ''  '' @ join ('','' @ [newline] @ ''  '') body, '')'', ''USING DELTA''] @
                comment @ layout @ [''TBLPROPERTIES ('' @ rendered @ '')'']))))))"

section \<open>Metrics\<close>

definition build_history_metrics_query :: "run_spec \<Rightarrow> string" where
  "build_history_metrics_query spec =
     ''SELECT operationMetrics FROM (DESCRIBE HISTORY '' @ target_fqn (rs_target spec) @
     '') ORDER BY version DESC LIMIT 1''"

record load_metrics =
  lm_rows_inserted :: "int option"
  lm_rows_updated :: "int option"
  lm_rows_deleted :: "int option"
  lm_rows_written :: "int option"

text \<open>Delta reports a map of texts; a value that is no integer counts as absent.\<close>

definition metric :: "(string, string option) dict \<Rightarrow> string \<Rightarrow> int option" where
  "metric metrics key =
     (case dict_get metrics key of Some (Some text) \<Rightarrow> int_of_text text | _ \<Rightarrow> None)"

definition parse_operation_metrics :: "(string, string option) dict option \<Rightarrow> load_metrics" where
  "parse_operation_metrics metrics =
     (let m = (case metrics of None \<Rightarrow> [] | Some d \<Rightarrow> d);
          inserted = metric m ''numTargetRowsInserted'';
          updated = metric m ''numTargetRowsUpdated'';
          written = metric m ''numOutputRows''
      in \<lparr>lm_rows_inserted = inserted, lm_rows_updated = updated,
          lm_rows_deleted = metric m ''numTargetRowsDeleted'',
          lm_rows_written =
            (case (written, inserted) of
               (None, Some n) \<Rightarrow> Some (n + (case updated of Some u \<Rightarrow> u | None \<Rightarrow> 0))
             | _ \<Rightarrow> written)\<rparr>)"

record load_result =
  lr_target :: string
  lr_write_mode :: string
  lr_metrics :: load_metrics
  lr_table_created :: bool
  lr_schema_evolved :: bool
  lr_statements :: "string list"

definition no_metrics :: load_metrics where
  "no_metrics =
     \<lparr>lm_rows_inserted = None, lm_rows_updated = None, lm_rows_deleted = None,
      lm_rows_written = None\<rparr>"

definition new_load_result :: "run_spec \<Rightarrow> load_result" where
  "new_load_result spec =
     \<lparr>lr_target = target_fqn (rs_target spec), lr_write_mode = tg_write_mode (rs_target spec),
      lr_metrics = no_metrics, lr_table_created = False, lr_schema_evolved = False,
      lr_statements = []\<rparr>"

text \<open>The options of the DataFrame writer: schema evolution, then partitioning.\<close>

definition writer_option :: "run_spec \<Rightarrow> string \<Rightarrow> string option" where
  "writer_option spec mode =
     (if tg_schema_evolution (rs_target spec)
      then Some (if mode = ''overwrite'' then ''overwriteSchema'' else ''mergeSchema'') else None)"

declare delta_identifier_def [evals] merge_guard_column_def [evals] updatable_columns_def [evals]
  build_merge_plan_def [evals] merge_sql_def [evals] build_merge_sql_def [evals]
  key_match_def [evals] guard_lets_def [evals] update_row_def [evals] insert_row_def [evals]
  merge_target_row_def [evals] merge_effect_def [evals] build_create_table_sql_def [evals]
  build_history_metrics_query_def [evals] metric_def [evals] parse_operation_metrics_def [evals]
  no_metrics_def [evals] new_load_result_def [evals] writer_option_def [evals]

section \<open>Lemmas\<close>

lemma delta_identifier_Inr: "delta_identifier n = Inr i \<Longrightarrow> i = n"
  by (simp add: delta_identifier_def split: if_splits)

lemma mapE_delta_identifier: "mapE delta_identifier ns = Inr is \<Longrightarrow> is = ns"
  by (rule mapE_id) (auto dest: delta_identifier_Inr)

lemma build_merge_plan_Inr:
  assumes "build_merge_plan spec columns view = Inr p"
  defines "keys \<equiv> normalize_columns (tg_merge_keys (rs_target spec)) (tg_column_case (rs_target spec))"
  shows "pl_keys p = keys \<and> pl_keys p \<noteq> [] \<and>
    pl_set p = filter (\<lambda>c. c \<noteq> ''_source_op'') (updatable_columns keys columns) \<and>
    pl_columns p = columns \<and> pl_flag p = (''_source_op'' \<in> set columns) \<and>
    pl_guard p = merge_guard_column spec \<and>
    (\<forall>k\<in>set keys. str_upper k \<in> set (map str_upper columns))"
proof -
  from assms(1) obtain ks ss cs where
    ids: "mapE delta_identifier keys = Inr ks"
      "mapE delta_identifier (filter (\<lambda>c. c \<noteq> ''_source_op'') (updatable_columns keys columns)) = Inr ss"
      "mapE delta_identifier columns = Inr cs"
    and p: "pl_keys p = ks" "pl_set p = ss" "pl_columns p = cs" "pl_flag p = (''_source_op'' \<in> set columns)"
    and g: "(case merge_guard_column spec of None \<Rightarrow> Inr None
       | Some g \<Rightarrow> if str_upper g \<notin> set (map str_upper columns) then Inl (SqlBuildError g)
                   else bindE (delta_identifier g) (\<lambda>i. Inr (Some i))) = Inr (pl_guard p)"
    and m: "filter (\<lambda>k. str_upper k \<notin> set (map str_upper columns)) keys = []"
      "tg_merge_keys (rs_target spec) \<noteq> []"
    by (auto simp: build_merge_plan_def keys_def Let_def bindE_Inr_iff simp del: set_map split: if_splits)
  have "pl_guard p = merge_guard_column spec"
    using g by (auto simp: bindE_Inr_iff dest: delta_identifier_Inr split: option.splits if_splits)
  moreover have "keys \<noteq> []" using m(2) by (simp add: keys_def normalize_columns_def)
  ultimately show ?thesis
    using ids [THEN mapE_delta_identifier] p m(1) by (auto simp: filter_empty_conv)
qed

text \<open>What the statement does not set it keeps: the keys, \<open>_first_ingested_at\<close>, unknown columns.\<close>

lemma update_row_keeps:
  assumes "build_merge_plan spec columns view = Inr p" "c \<noteq> ''_source_op''"
    "str_upper c \<in> set (map str_upper (pl_keys p)) \<or> c \<in> set insert_only_audit_columns \<or> c \<notin> set columns"
  shows "update_row p t s c = t c"
proof -
  note p = build_merge_plan_Inr [OF assms(1)]
  then have "c \<notin> set (pl_set p)" using assms(3) by (auto simp: updatable_columns_def)
  with assms(2) show ?thesis by (simp add: update_row_def)
qed

lemma merge_target_row_Inr:
  "merge_target_row p staged t = Inr (t', b) \<longleftrightarrow>
    (if b then (\<exists>s. filter (key_match (pl_keys p) t) staged = [s] \<and> guard_lets (pl_guard p) t s \<and>
       t' = update_row p t s)
     else t' = t \<and> (filter (key_match (pl_keys p) t) staged = [] \<or>
       (\<exists>s. filter (key_match (pl_keys p) t) staged = [s] \<and> \<not> guard_lets (pl_guard p) t s)))"
  by (auto simp: merge_target_row_def split: list.splits)


text \<open>Keys are kept by an update, so matching is not changed by it.\<close>

lemma key_match_cong: "\<forall>k\<in>set keys. a k = b k \<Longrightarrow> key_match keys a s = key_match keys b s"
  by (induction keys) (auto simp: key_match_def)

lemma key_match_update:
  assumes "build_merge_plan spec columns view = Inr p" "''_source_op'' \<notin> set (pl_keys p)"
  shows "key_match (pl_keys p) (update_row p t s) s' = key_match (pl_keys p) t s'"
proof (rule key_match_cong, rule ballI)
  fix k assume "k \<in> set (pl_keys p)"
  with assms show "update_row p t s k = t k"
    by (intro update_row_keeps [OF assms(1)]) auto
qed

lemma filter_match_unique:
  assumes "sorted_wrt (\<lambda>a b. \<not> key_match keys a b) staged" "s \<in> set staged"
    "\<forall>s\<in>set staged. \<forall>k\<in>set keys. s k \<noteq> VNone"
  shows "filter (key_match keys s) staged = [s]"
proof -
  have sym: "key_match keys a b \<longleftrightarrow> key_match keys b a" for a b
    by (simp add: key_match_def sql_eq_sym)
  have refl: "key_match keys s s" using assms(2,3) by (simp add: key_match_def sql_eq_def list_all_iff)
  obtain xs ys where xy: "staged = xs @ s # ys" using assms(2) by (meson split_list)
  then have "\<forall>x\<in>set xs. \<not> key_match keys s x" "\<forall>y\<in>set ys. \<not> key_match keys s y"
    using assms(1) sym by (auto simp: sorted_wrt_append)
  with refl xy show ?thesis by (simp add: filter_empty_conv)
qed

definition agree :: "row \<Rightarrow> row \<Rightarrow> bool" where
  "agree a b = (\<forall>c. c \<noteq> ''_source_op'' \<longrightarrow> a c = b c)"

lemma agree_refl [simp]: "agree a a"
  by (simp add: agree_def)

lemma agree_update:
  "(\<And>c. c \<in> set (pl_set p) \<Longrightarrow> t c = s c) \<Longrightarrow> agree t (update_row p t s)"
  by (auto simp: agree_def update_row_def)

lemma remerge_row:
  assumes plan: "build_merge_plan spec columns view = Inr p" "''_source_op'' \<notin> set (pl_keys p)"
    and row: "merge_target_row p staged t = Inr (t', b)"
  shows "\<exists>t'' b'. merge_target_row p staged t' = Inr (t'', b') \<and> agree t' t''"
proof (cases b)
  case False
  then have "t' = t" using row by (simp add: merge_target_row_Inr)
  with row False show ?thesis by auto
next
  case True
  then obtain s where s: "filter (key_match (pl_keys p) t) staged = [s]" "t' = update_row p t s"
    using row by (auto simp: merge_target_row_Inr)
  then have m: "filter (key_match (pl_keys p) t') staged = [s]"
    by (simp add: key_match_update [OF plan] cong: filter_cong)
  have "t' c = s c" if "c \<in> set (pl_set p)" for c
  proof -
    have "c \<noteq> ''_source_op''" using that build_merge_plan_Inr [OF plan(1)] by auto
    with that show ?thesis by (simp add: s update_row_def)
  qed
  then have "agree t' (update_row p t' s)" by (rule agree_update)
  with m show ?thesis by (cases "guard_lets (pl_guard p) t' s") (auto simp: merge_target_row_def)
qed

lemma mapE_agree:
  "list_all (\<lambda>x. \<exists>y b. f x = Inr (y, b) \<and> P x y) xs \<Longrightarrow>
   \<exists>ys. mapE f xs = Inr ys \<and> list_all2 P xs (map fst ys)"
  by (induction xs) fastforce+

section \<open>Counting\<close>

lemma sum_list_swap:
  "(\<Sum>x\<leftarrow>xs. \<Sum>y\<leftarrow>ys. f x y) = (\<Sum>y\<leftarrow>ys. \<Sum>x\<leftarrow>xs. f x y :: nat)"
  by (induction xs) (auto simp: sum_list_addf)

lemma length_filter_sum: "length (filter P xs) = (\<Sum>x\<leftarrow>xs. of_bool (P x))"
  by (induction xs) auto

lemma sum_list_filter_one:
  "length (filter P xs) \<le> 1 \<Longrightarrow> (\<Sum>x\<leftarrow>xs. of_bool (P x \<and> Q x)) = (of_bool (\<exists>x\<in>set xs. P x \<and> Q x) :: nat)"
proof (induction xs)
  case (Cons x xs)
  show ?case
  proof (cases "P x")
    case True
    with Cons.prems have "filter P xs = []" by simp
    then have "\<forall>y\<in>set xs. \<not> P y" by (simp add: filter_empty_conv)
    moreover from this have "(\<Sum>x\<leftarrow>xs. of_bool (P x \<and> Q x)) = (0 :: nat)" by (induction xs) auto
    ultimately show ?thesis using True by auto
  next
    case False
    with Cons show ?thesis by auto
  qed
qed simp

lemma merge_counts:
  assumes "merge_effect p staged target = Inr res"
    "\<forall>s\<in>set staged. length (filter (\<lambda>t. key_match (pl_keys p) t s) target) \<le> 1"
  shows "mr_updated res + mr_inserted res +
      length (filter (\<lambda>s. \<exists>t\<in>set target. key_match (pl_keys p) t s \<and> \<not> guard_lets (pl_guard p) t s) staged) =
    length staged"
proof -
  let ?m = "\<lambda>t s. key_match (pl_keys p) t s" and ?g = "\<lambda>t s. guard_lets (pl_guard p) t s"
  obtain kept where kept: "mapE (merge_target_row p staged) target = Inr kept"
    and res: "mr_updated res = length (filter snd kept)"
      "mr_inserted res = length (filter (\<lambda>s. \<not> list_ex (\<lambda>t. ?m t s) target) staged)"
    using assms(1) by (auto simp: merge_effect_def bindE_Inr_iff Let_def)
  have row: "length (filter (?m t) staged) \<le> 1 \<and> (b \<longleftrightarrow> (\<exists>s\<in>set staged. ?m t s \<and> ?g t s))"
    if "merge_target_row p staged t = Inr (t', b)" for t t' b
  proof -
    define F where "F = filter (?m t) staged"
    have mem: "s \<in> set staged \<and> ?m t s \<longleftrightarrow> s \<in> set F" for s by (auto simp: F_def)
    then have ex: "(\<exists>s\<in>set staged. ?m t s \<and> ?g t s) \<longleftrightarrow> (\<exists>s\<in>set F. ?g t s)" by blast
    from that have "(b \<and> (\<exists>s. F = [s] \<and> ?g t s)) \<or> (\<not> b \<and> (F = [] \<or> (\<exists>s. F = [s] \<and> \<not> ?g t s)))"
      by (auto simp: merge_target_row_Inr F_def split: if_splits)
    then show ?thesis unfolding ex F_def [symmetric] by auto
  qed
  have "length (filter snd kept) = (\<Sum>t\<leftarrow>target. of_bool (\<exists>s\<in>set staged. ?m t s \<and> ?g t s))"
    using kept
  proof (induction target arbitrary: kept)
    case (Cons t ts)
    then obtain t' b aa where k: "merge_target_row p staged t = Inr (t', b)"
      "mapE (merge_target_row p staged) ts = Inr aa" "kept = (t', b) # aa"
      by (auto simp: bindE_Inr_iff)
    with row [OF k(1)] Cons.IH [OF k(2)] show ?case by simp
  qed simp
  also have "\<dots> = (\<Sum>t\<leftarrow>target. \<Sum>s\<leftarrow>staged. of_bool (?m t s \<and> ?g t s))"
    using kept
  proof (induction target arbitrary: kept)
    case (Cons t ts)
    then obtain t' b aa where k: "merge_target_row p staged t = Inr (t', b)"
      "mapE (merge_target_row p staged) ts = Inr aa"
      by (auto simp: bindE_Inr_iff)
    with sum_list_filter_one [of "?m t" staged "?g t"] row [OF k(1)] Cons.IH [OF k(2)] show ?case by simp
  qed simp
  also have "\<dots> = (\<Sum>s\<leftarrow>staged. \<Sum>t\<leftarrow>target. of_bool (?m t s \<and> ?g t s))"
    by (rule sum_list_swap)
  also have "\<dots> = (\<Sum>s\<leftarrow>staged. of_bool (\<exists>t\<in>set target. ?m t s \<and> ?g t s))"
    using assms(2) sum_list_filter_one [of "\<lambda>t. ?m t s" target "\<lambda>t. ?g t s" for s]
    by (intro arg_cong [where f = sum_list] map_cong) auto
  finally have upd: "mr_updated res = (\<Sum>s\<leftarrow>staged. of_bool (\<exists>t\<in>set target. ?m t s \<and> ?g t s))"
    by (simp add: res)
  have one: "of_bool (\<exists>t\<in>set target. ?m t s \<and> ?g t s) + of_bool (\<not> list_ex (\<lambda>t. ?m t s) target) +
      of_bool (\<exists>t\<in>set target. ?m t s \<and> \<not> ?g t s) = (1 :: nat)"
    if "s \<in> set staged" for s
  proof -
    have le: "length (filter (\<lambda>t. ?m t s) target) \<le> 1" using assms(2) that by blast
    have "t = u" if "t \<in> set target" "u \<in> set target" "?m t s" "?m u s" for t u
    proof -
      have "t \<in> set (filter (\<lambda>t. ?m t s) target)" "u \<in> set (filter (\<lambda>t. ?m t s) target)" using that by auto
      with le show ?thesis by (cases "filter (\<lambda>t. ?m t s) target") auto
    qed
    then show ?thesis by (auto simp: list_ex_iff)
  qed
  have "length staged = (\<Sum>s\<leftarrow>staged. 1)" by (simp add: sum_list_triv)
  also have "\<dots> = (\<Sum>s\<leftarrow>staged. of_bool (\<exists>t\<in>set target. ?m t s \<and> ?g t s) +
      of_bool (\<not> list_ex (\<lambda>t. ?m t s) target) + of_bool (\<exists>t\<in>set target. ?m t s \<and> \<not> ?g t s))"
    using one by (intro arg_cong [where f = sum_list] map_cong) auto
  finally show ?thesis
    by (simp add: sum_list_addf upd res(2) length_filter_sum)
qed


lemma merge_effect_Inr:
  assumes "merge_effect p staged target = Inr res"
  obtains kept where "mapE (merge_target_row p staged) target = Inr kept"
    "mr_rows res = map fst kept @
      map (insert_row p) (filter (\<lambda>s. \<not> list_ex (\<lambda>t. key_match (pl_keys p) t s) target) staged)"
    "mr_inserted res = length (filter (\<lambda>s. \<not> list_ex (\<lambda>t. key_match (pl_keys p) t s) target) staged)"
  using assms that by (auto simp: merge_effect_def bindE_Inr_iff Let_def)

lemma insert_row_match:
  "set (pl_keys p) \<subseteq> set (pl_columns p) \<Longrightarrow>
   key_match (pl_keys p) (insert_row p s) s' = key_match (pl_keys p) s s'"
  by (rule key_match_cong) (auto simp: insert_row_def)

lemma kept_match:
  assumes "build_merge_plan spec columns view = Inr p" "''_source_op'' \<notin> set (pl_keys p)"
    "mapE (merge_target_row p staged) target = Inr kept" "t \<in> set target" "key_match (pl_keys p) t s"
  shows "list_ex (\<lambda>t. key_match (pl_keys p) t s) (map fst kept)"
  using assms(3,4)
proof (induction target arbitrary: kept)
  case (Cons u us)
  then obtain t' b ks where k: "merge_target_row p staged u = Inr (t', b)"
    "mapE (merge_target_row p staged) us = Inr ks" "kept = (t', b) # ks"
    by (auto simp: bindE_Inr_iff)
  show ?case
  proof (cases "t = u")
    case True
    have "key_match (pl_keys p) t' s"
      using k(1) assms(5) True key_match_update [OF assms(1,2)]
      by (auto simp: merge_target_row_Inr split: if_splits)
    then show ?thesis by (simp add: k)
  next
    case False
    with Cons k show ?thesis by auto
  qed
qed simp

text \<open>A target whose columns are all keys, without audit columns, gives an empty SET list.\<close>

lemma key_only_set_list:
  assumes "build_merge_plan spec columns view = Inr p"
    "\<forall>c\<in>set columns. str_upper c \<in> set (map str_upper (pl_keys p))" "''_source_op'' \<notin> set columns"
  shows "pl_set p = [] \<and> \<not> pl_flag p"
  using build_merge_plan_Inr [OF assms(1)] assms(2,3)
  by (auto simp: updatable_columns_def filter_empty_conv)

section \<open>Properties\<close>


text \<open>C14: The merge is idempotent: when the staged rows have non-NULL keys and differ in them, as
  the dedupe leaves them, applying the same batch again to the result succeeds, inserts
  nothing, and leaves every row as it was but for the operation flag; so a retried load
  cannot duplicate or corrupt a merged table.\<close>

theorem merge_is_idempotent:
  assumes "build_merge_plan spec columns view = Inr p"
    "set (pl_keys p) \<subseteq> set columns" "''_source_op'' \<notin> set (pl_keys p)"
    "\<forall>s\<in>set staged. \<forall>k\<in>set (pl_keys p). s k \<noteq> VNone"
    "sorted_wrt (\<lambda>a b. \<not> key_match (pl_keys p) a b) staged"
    "merge_effect p staged target = Inr res"
  shows "\<exists>res'. merge_effect p staged (mr_rows res) = Inr res' \<and> mr_inserted res' = 0 \<and>
    list_all2 agree (mr_rows res) (mr_rows res')"
proof -
  note plan = build_merge_plan_Inr [OF assms(1)]
  let ?new = "filter (\<lambda>s. \<not> list_ex (\<lambda>t. key_match (pl_keys p) t s) target) staged"
  obtain kept where kept: "mapE (merge_target_row p staged) target = Inr kept"
    and rows: "mr_rows res = map fst kept @ map (insert_row p) ?new"
    using merge_effect_Inr [OF assms(6)] by blast
  have keys: "set (pl_keys p) \<subseteq> set (pl_columns p)" using plan assms(2) by simp
  have again: "\<exists>t'' b'. merge_target_row p staged t' = Inr (t'', b') \<and> agree t' t''"
    if "t' \<in> set (mr_rows res)" for t'
  proof (cases "t' \<in> fst ` set kept")
    case True
    then obtain b where "(t', b) \<in> set kept" by auto
    then obtain t where "merge_target_row p staged t = Inr (t', b)"
      using kept by (auto simp: mapE_Inr_iff in_set_conv_nth list_all2_conv_all_nth)
    then show ?thesis by (rule remerge_row [OF assms(1,3)])
  next
    case False
    then obtain s where s: "s \<in> set staged" "t' = insert_row p s"
      using \<open>t' \<in> set (mr_rows res)\<close> unfolding rows by auto
    have f: "filter (key_match (pl_keys p) t') staged = [s]"
      using filter_match_unique [OF assms(5) s(1) assms(4)]
      by (simp add: s(2) insert_row_match [OF keys] cong: filter_cong)
    have "agree t' (update_row p t' s)"
      using plan by (intro agree_update) (auto simp: s(2) insert_row_def updatable_columns_def)
    with f show ?thesis by (cases "guard_lets (pl_guard p) t' s") (auto simp: merge_target_row_def)
  qed
  from mapE_agree [of "merge_target_row p staged" agree "mr_rows res"] again
  obtain kept' where kept': "mapE (merge_target_row p staged) (mr_rows res) = Inr kept'"
    "list_all2 agree (mr_rows res) (map fst kept')" by (auto simp: list_all_iff)
  have "list_ex (\<lambda>t. key_match (pl_keys p) t s) (mr_rows res)" if "s \<in> set staged" for s
  proof (cases "list_ex (\<lambda>t. key_match (pl_keys p) t s) target")
    case True
    then obtain t where "t \<in> set target" "key_match (pl_keys p) t s" by (auto simp: list_ex_iff)
    from kept_match [OF assms(1,3) kept this] show ?thesis by (simp add: rows)
  next
    case False
    then have "insert_row p s \<in> set (mr_rows res)" using that by (auto simp: rows)
    moreover have "key_match (pl_keys p) s s"
      using assms(4) that by (simp add: key_match_def sql_eq_def list_all_iff)
    then have "key_match (pl_keys p) (insert_row p s) s" by (simp add: insert_row_match [OF keys])
    ultimately show ?thesis by (auto simp: list_ex_iff)
  qed
  then have "filter (\<lambda>s. \<not> list_ex (\<lambda>t. key_match (pl_keys p) t s) (mr_rows res)) staged = []"
    by (simp add: filter_empty_conv)
  with kept' show ?thesis by (simp add: merge_effect_def)
qed


definition keyed_spec :: run_spec where
  "keyed_spec =
     (sample_spec ''full'' ''merge'')\<lparr>rs_target :=
        (default_target ''main'' ''raw'' ''emp'')\<lparr>tg_merge_keys := [''id''], tg_merge_guard := ''none''\<rparr>\<rparr>"

definition keyed_plan :: merge_plan where
  "keyed_plan =
     \<lparr>pl_target = target_fqn (rs_target keyed_spec), pl_view = ''v'', pl_keys = [''id''],
      pl_set = [''name''], pl_flag = True, pl_columns = [''id'', ''name'', ''_source_op''],
      pl_guard = None\<rparr>"

lemma keyed_plan: "build_merge_plan keyed_spec [''id'', ''name'', ''_source_op''] ''v'' = Inr keyed_plan"
proof -
  have i: "delta_identifier ''id'' = Inr ''id''" "delta_identifier ''name'' = Inr ''name''"
    "delta_identifier ''_source_op'' = Inr ''_source_op''"
    by code_simp+
  have u: "updatable_columns [''id''] [''id'', ''name'', ''_source_op''] = [''name'', ''_source_op'']"
    by code_simp
  have k: "normalize_columns [''id''] ''preserve'' = [''id'']" by code_simp
  have t: "tg_merge_keys (rs_target keyed_spec) = [''id'']" "tg_column_case (rs_target keyed_spec) = ''preserve''"
    "merge_guard_column keyed_spec = None"
    by (simp_all add: keyed_spec_def sample_spec_def default_target_def merge_guard_column_def)
  show ?thesis
    using i u k t by (simp add: build_merge_plan_def keyed_plan_def)
qed

definition sample_row :: "int \<Rightarrow> string \<Rightarrow> row" where
  "sample_row n name =
     (\<lambda>c. if c = ''id'' then VInt n else if c = ''name'' then VStr name
          else if c = ''_source_op'' then VStr ''I'' else VNone)"

lemma sample_key: "key_match [''id''] (sample_row a x) (sample_row b y) \<longleftrightarrow> a = b"
  by (simp add: key_match_def sample_row_def sql_eq_def py_eq_def)

lemma sample_merge:
  "\<exists>res. merge_effect keyed_plan [sample_row 1 ''new'', sample_row 2 ''two''] [sample_row 1 ''old''] = Inr res \<and>
     mr_updated res = 1 \<and> mr_inserted res = 1"
  by (simp add: merge_effect_def merge_target_row_def guard_lets_def keyed_plan_def sample_key)


lemma merge_is_idempotent_witness:
  "\<exists>res res'. merge_effect keyed_plan [sample_row 1 ''new'', sample_row 2 ''two''] [sample_row 1 ''old''] = Inr res \<and>
     merge_effect keyed_plan [sample_row 1 ''new'', sample_row 2 ''two''] (mr_rows res) = Inr res' \<and>
     mr_inserted res' = 0"
proof -
  obtain res where res: "merge_effect keyed_plan [sample_row 1 ''new'', sample_row 2 ''two''] [sample_row 1 ''old''] = Inr res"
    using sample_merge by blast
  have "sorted_wrt (\<lambda>a b. \<not> key_match (pl_keys keyed_plan) a b) [sample_row 1 ''new'', sample_row 2 ''two'']"
    by (simp add: keyed_plan_def sample_key)
  from merge_is_idempotent [OF keyed_plan _ _ _ this res] res show ?thesis
    by (auto simp: keyed_plan_def sample_row_def)
qed

end
