(* ===== verification/Reconciler.thy ===== *)
theory Reconciler
  imports Loader
begin

text \<open>
  Source-against-target reconciliation and expectations (engine/reconciler.py): the checks,
  the violation queries, and the report that decides whether a task succeeds.
\<close>

section \<open>Checks\<close>

datatype check_status = CheckPassed | CheckFailed | CheckWarned | CheckSkipped

fun check_status_value :: "check_status \<Rightarrow> string" where
  "check_status_value CheckPassed = ''PASSED''"
| "check_status_value CheckFailed = ''FAILED''"
| "check_status_value CheckWarned = ''WARNED''"
| "check_status_value CheckSkipped = ''SKIPPED''"

record check_result =
  cr_check_type :: string
  cr_check_name :: string
  cr_status :: check_status
  cr_source_count :: "int option"
  cr_target_count :: "int option"
  cr_delta :: "int option"
  cr_details :: "string option"

definition simple_check :: "string \<Rightarrow> string \<Rightarrow> check_status \<Rightarrow> int option \<Rightarrow> string option \<Rightarrow> check_result" where
  "simple_check ty name status delta details =
     \<lparr>cr_check_type = ty, cr_check_name = name, cr_status = status, cr_source_count = None,
      cr_target_count = None, cr_delta = delta, cr_details = details\<rparr>"

definition is_failure :: "check_result \<Rightarrow> bool" where
  "is_failure c = (cr_status c = CheckFailed)"

definition check_to_row :: "string \<Rightarrow> string \<Rightarrow> string \<Rightarrow> check_result \<Rightarrow> check_row" where
  "check_to_row rid fqn env c =
     \<lparr>ck_run_id = rid, ck_table_fqn = fqn, ck_env = env, ck_check_type = cr_check_type c,
      ck_check_name = cr_check_name c, ck_source_count = cr_source_count c,
      ck_target_count = cr_target_count c, ck_delta = cr_delta c,
      ck_status = check_status_value (cr_status c), ck_details = cr_details c,
      ck_checked_at = None\<rparr>"

definition int_or_zero :: "int option \<Rightarrow> int" where
  "int_or_zero n = (case n of None \<Rightarrow> 0 | Some k \<Rightarrow> k)"

definition reconcile_row_count :: "int option \<Rightarrow> int option \<Rightarrow> int option \<Rightarrow> check_result" where
  "reconcile_row_count source_count duplicates_removed rows_written =
     (case (source_count, rows_written) of
        (Some source, Some written) \<Rightarrow>
          let expected = source - int_or_zero duplicates_removed; delta = written - expected
          in \<lparr>cr_check_type = ''row_count'', cr_check_name = ''source_vs_target'',
              cr_status = (if delta = 0 then CheckPassed else CheckFailed),
              cr_source_count = Some source, cr_target_count = Some written,
              cr_delta = Some delta,
              cr_details = (if delta = 0 then None
                else Some (''expected '' @ str_int expected @ '' rows (source '' @ str_int source @
                  '' - '' @ str_int (int_or_zero duplicates_removed) @ '' deduped) but wrote '' @
                  str_int written))\<rparr>
      | _ \<Rightarrow>
          \<lparr>cr_check_type = ''row_count'', cr_check_name = ''source_vs_target'',
           cr_status = CheckSkipped, cr_source_count = source_count,
           cr_target_count = rows_written, cr_delta = None,
           cr_details = Some ''counts unavailable (reconciliation disabled or metrics missing)''\<rparr>)"

definition check_null_keys :: "int option \<Rightarrow> string \<Rightarrow> check_result" where
  "check_null_keys null_key_rows action =
     (case null_key_rows of
        None \<Rightarrow> simple_check ''null_key'' ''merge_keys_not_null'' CheckSkipped None None
      | Some n \<Rightarrow>
          if n = 0 then simple_check ''null_key'' ''merge_keys_not_null'' CheckPassed (Some 0) None
          else simple_check ''null_key'' ''merge_keys_not_null''
                 (if action = ''fail'' then CheckFailed else CheckWarned) (Some n)
                 (Some (str_int n @ '' row(s) have a NULL merge key and can never match on merge'')))"

definition check_duplicates :: "int option \<Rightarrow> run_spec \<Rightarrow> check_result" where
  "check_duplicates duplicates_removed spec =
     (case duplicates_removed of
        None \<Rightarrow> simple_check ''duplicates'' ''duplicate_keys'' CheckSkipped None None
      | Some n \<Rightarrow>
          if n = 0 then simple_check ''duplicates'' ''duplicate_keys'' CheckPassed (Some 0) None
          else
            let expected = is_incremental (rs_extraction spec)
            in simple_check ''duplicates'' ''duplicate_keys''
                 (if expected then CheckPassed else CheckWarned) (Some n)
                 (Some (str_int n @ '' duplicate key row(s) collapsed to latest'' @
                   (if expected then []
                    else '' -- unexpected on a full load; the source key may not be unique''))))"

section \<open>Expectations\<close>

fun value_literal :: "pyval \<Rightarrow> string" where
  "value_literal VNone = ''NULL''"
| "value_literal (VBool b) = (if b then ''TRUE'' else ''FALSE'')"
| "value_literal (VInt n) = str_int n"
| "value_literal (VFloat r t) = t"
| "value_literal (VDec d) = dec_str d"
| "value_literal v = [quote] @ replace_char quote [quote, quote] (py_str v) @ [quote]"

definition violation_query :: "string \<Rightarrow> string \<Rightarrow> string \<Rightarrow> string" where
  "violation_query view column condition =
     ''SELECT COUNT(*) AS VIOLATIONS FROM '' @ view @ '' WHERE '' @ column @ '' IS NOT NULL AND '' @
     condition"

definition build_expectation_query :: "expectation \<Rightarrow> run_spec \<Rightarrow> string \<Rightarrow> string res" where
  "build_expectation_query x spec view =
     (let column = normalize_column (xp_column x) (tg_column_case (rs_target spec)); rule = xp_rule x in
      if rule = ''not_null'' then
        Inr (''SELECT COUNT(*) AS VIOLATIONS FROM '' @ view @ '' WHERE '' @ column @ '' IS NULL'')
      else if rule = ''unique'' then
        Inr (''SELECT COUNT(*) - COUNT(DISTINCT '' @ column @ '') AS VIOLATIONS FROM '' @ view)
      else if rule = ''in_set'' then
        (if xp_values x = [] then Inl (SqlBuildError column)
         else Inr (violation_query view column
                (column @ '' NOT IN ('' @ join '', '' (map value_literal (xp_values x)) @ '')'')))
      else if rule = ''min'' \<or> rule = ''max'' then
        (if xp_value x = VNone then Inl (SqlBuildError column)
         else Inr (violation_query view column
                (column @ '' '' @ (if rule = ''min'' then ''<'' else ''>'') @ '' '' @
                 value_literal (xp_value x))))
      else if rule = ''regex'' then
        (if \<not> present (xp_pattern x) then Inl (SqlBuildError column)
         else Inr (violation_query view column
                (''NOT '' @ column @ '' RLIKE '' @ value_literal (VStr (text_of (xp_pattern x))))))
      else Inl (SqlBuildError rule))"

definition evaluate_expectation :: "expectation \<Rightarrow> int \<Rightarrow> check_result" where
  "evaluate_expectation x violations =
     (let name = xp_column x @ '' '' @ xp_rule x in
      if violations = 0 then simple_check ''expectation'' name CheckPassed (Some 0) None
      else simple_check ''expectation'' name
             (if xp_action x = ''fail'' then CheckFailed else CheckWarned) (Some violations)
             (Some (str_int violations @ '' row(s) violate '' @ name)))"

section \<open>Reports\<close>

type_synonym report = "check_result list"

definition report_failures :: "report \<Rightarrow> check_result list" where
  "report_failures r = filter is_failure r"

definition report_warnings :: "report \<Rightarrow> check_result list" where
  "report_warnings r = filter (\<lambda>c. cr_status c = CheckWarned) r"

definition report_ok :: "report \<Rightarrow> bool" where
  "report_ok r = (report_failures r = [])"

definition report_rows :: "string \<Rightarrow> string \<Rightarrow> string \<Rightarrow> report \<Rightarrow> check_row list" where
  "report_rows rid fqn env r = map (check_to_row rid fqn env) r"

text \<open>The checks that need no query, in the order of \<open>Reconciler.run\<close>.\<close>

definition count_checks ::
  "run_spec \<Rightarrow> int option \<Rightarrow> int option \<Rightarrow> int option \<Rightarrow> int option \<Rightarrow> report" where
  "count_checks spec source_count duplicates_removed null_key_rows rows_written =
     (if qu_row_count_reconciliation (rs_quality spec)
      then [reconcile_row_count source_count duplicates_removed rows_written] else []) @
     [check_duplicates duplicates_removed spec] @
     (if qu_null_check_keys (rs_quality spec) then [check_null_keys null_key_rows ''fail''] else [])"

text \<open>The whole report, once the violations of every expectation are counted.\<close>

definition full_report ::
  "run_spec \<Rightarrow> int option \<Rightarrow> int option \<Rightarrow> int option \<Rightarrow> int option \<Rightarrow> int list \<Rightarrow> report" where
  "full_report spec source_count duplicates_removed null_key_rows rows_written violations =
     count_checks spec source_count duplicates_removed null_key_rows rows_written @
     map (\<lambda>(x, n). evaluate_expectation x n) (zip (qu_expectations (rs_quality spec)) violations)"

definition summarize :: "report \<Rightarrow> payload" where
  "summarize r =
     [(''checks'', PV (VInt (int (length r)))),
      (''failed'', PV (VInt (int (length (report_failures r))))),
      (''warned'', PV (VInt (int (length (report_warnings r))))),
      (''failed_checks'', PNames (map cr_check_name (report_failures r)))]"

definition all_checks :: "report list \<Rightarrow> check_result list" where
  "all_checks reports = concat reports"

text \<open>\<open>int(value)\<close> of a value from a result row.\<close>

definition trunc_rat :: "rat \<Rightarrow> int" where
  "trunc_rat r = (if 0 \<le> r then \<lfloor>r\<rfloor> else - \<lfloor>- r\<rfloor>)"

fun py_int :: "pyval \<Rightarrow> int res" where
  "py_int VNone = Inl (PyTypeError ''int'')"
| "py_int (VBool b) = Inr (if b then 1 else 0)"
| "py_int (VInt n) = Inr n"
| "py_int (VStr s) = (case int_of_text s of Some n \<Rightarrow> Inr n | None \<Rightarrow> Inl (PyValueError s))"
| "py_int (VFloat r t) = Inr (trunc_rat r)"
| "py_int (VDec (DFin s c e)) = Inr (trunc_rat (dec_val s c e))"
| "py_int (VDec (DInf s)) = Inl OverflowError"
| "py_int (VDec (DNaN s g ds)) = Inl (PyValueError ''NaN'')"
| "py_int (VDate d) = Inl (PyTypeError ''int'')"
| "py_int (VDatetime t) = Inl (PyTypeError ''int'')"

declare simple_check_def [evals] is_failure_def [evals] check_to_row_def [evals]
  int_or_zero_def [evals] reconcile_row_count_def [evals] check_null_keys_def [evals]
  check_duplicates_def [evals] violation_query_def [evals] build_expectation_query_def [evals]
  evaluate_expectation_def [evals] report_failures_def [evals] report_warnings_def [evals]
  report_ok_def [evals] report_rows_def [evals] count_checks_def [evals]
  full_report_def [evals] summarize_def [evals] all_checks_def [evals] trunc_rat_def [evals]

section \<open>Lemmas\<close>

lemma row_count_failed:
  "is_failure (reconcile_row_count src dups written) \<longleftrightarrow>
   (\<exists>n m. src = Some n \<and> written = Some m \<and> m \<noteq> n - int_or_zero dups)"
  by (auto simp: reconcile_row_count_def is_failure_def Let_def split: option.splits)

lemma null_keys_failed:
  "is_failure (check_null_keys nulls action) \<longleftrightarrow> (\<exists>n. nulls = Some n \<and> n \<noteq> 0) \<and> action = ''fail''"
  by (auto simp: check_null_keys_def is_failure_def simple_check_def split: option.splits)

lemma duplicates_never_fail [simp]: "\<not> is_failure (check_duplicates dups spec)"
  by (simp add: check_duplicates_def is_failure_def simple_check_def Let_def split: option.splits)

lemma expectation_failed:
  "is_failure (evaluate_expectation x n) \<longleftrightarrow> n \<noteq> 0 \<and> xp_action x = ''fail''"
  by (simp add: evaluate_expectation_def is_failure_def simple_check_def Let_def)

lemma report_ok_iff: "report_ok r \<longleftrightarrow> (\<forall>c\<in>set r. \<not> is_failure c)"
  by (simp add: report_ok_def report_failures_def filter_empty_conv)

lemma report_ok_append [simp]: "report_ok (a @ b) \<longleftrightarrow> report_ok a \<and> report_ok b"
  by (auto simp: report_ok_iff)

section \<open>Properties\<close>

text \<open>A report is acceptable exactly when nothing it was asked to check is wrong: with the
  row count on, the rows written are the source rows less the duplicates collapsed, or a
  count is missing; with the key check on, no row has a NULL key, or that is unknown; and
  every expectation with action fail has no violations. Duplicates alone never fail it.\<close>

theorem report_ok_exactly:
  assumes "length violations = length (qu_expectations (rs_quality spec))"
  shows "report_ok (full_report spec src dups nulls written violations) \<longleftrightarrow>
    (qu_row_count_reconciliation (rs_quality spec) \<longrightarrow>
       (\<forall>n m. src = Some n \<and> written = Some m \<longrightarrow> m = n - int_or_zero dups)) \<and>
    (qu_null_check_keys (rs_quality spec) \<longrightarrow> nulls = None \<or> nulls = Some 0) \<and>
    (\<forall>i < length violations.
       xp_action (qu_expectations (rs_quality spec) ! i) = ''fail'' \<longrightarrow> violations ! i = 0)"
proof -
  have e: "report_ok (map (\<lambda>(x, n). evaluate_expectation x n) (zip xs ns)) \<longleftrightarrow>
      (\<forall>i < length ns. xp_action (xs ! i) = ''fail'' \<longrightarrow> ns ! i = 0)"
    if "length ns = length xs" for xs ns
    using that by (auto simp: report_ok_iff set_zip expectation_failed)
  have c: "report_ok (count_checks spec src dups nulls written) \<longleftrightarrow>
      (qu_row_count_reconciliation (rs_quality spec) \<longrightarrow>
         (\<forall>n m. src = Some n \<and> written = Some m \<longrightarrow> m = n - int_or_zero dups)) \<and>
      (qu_null_check_keys (rs_quality spec) \<longrightarrow> nulls = None \<or> nulls = Some 0)"
    by (cases nulls) (auto simp: count_checks_def report_ok_iff row_count_failed null_keys_failed)
  show ?thesis using e [OF assms] c by (simp add: full_report_def)
qed

lemma report_ok_exactly_witness:
  "report_ok (full_report (sample_spec ''full'' ''merge'') (Some 10) (Some 2) (Some 0) (Some 8) []) \<and>
   \<not> report_ok (full_report (sample_spec ''full'' ''merge'') (Some 10) None None (Some 8) [])"
proof -
  have e: "qu_expectations (rs_quality (sample_spec ''full'' ''merge'')) = []"
    "qu_row_count_reconciliation (rs_quality (sample_spec ''full'' ''merge''))"
    by (simp_all add: sample_spec_def default_quality_def)
  then show ?thesis
    using report_ok_exactly [of "[]" "sample_spec ''full'' ''merge''" "Some 10" "Some 2" "Some 0" "Some 8"]
      report_ok_exactly [of "[]" "sample_spec ''full'' ''merge''" "Some 10" None None "Some 8"]
    by (simp add: int_or_zero_def)
qed

text \<open>For a merge of a deduplicated batch into a table in which no two rows match the same
  staged row, the row-count check passes exactly when the guard held no staged row back: a
  replayed batch with one row older than the table's is reported as a mismatch although the
  merge did what its guard is for.\<close>

theorem row_count_passes_iff_nothing_held:
  assumes "merge_effect p staged target = Inr res"
    "\<forall>s\<in>set staged. length (filter (\<lambda>t. key_match (pl_keys p) t s) target) \<le> 1"
  shows "cr_status (reconcile_row_count (Some (int (length batch)))
      (Some (int (length batch) - int (length staged)))
      (Some (int (mr_updated res + mr_inserted res)))) = CheckPassed \<longleftrightarrow>
    (\<forall>s\<in>set staged. \<forall>t\<in>set target. key_match (pl_keys p) t s \<longrightarrow> guard_lets (pl_guard p) t s)"
proof -
  let ?held = "filter (\<lambda>s. \<exists>t\<in>set target. key_match (pl_keys p) t s \<and> \<not> guard_lets (pl_guard p) t s) staged"
  have "cr_status (reconcile_row_count (Some (int (length batch)))
      (Some (int (length batch) - int (length staged)))
      (Some (int (mr_updated res + mr_inserted res)))) = CheckPassed \<longleftrightarrow> ?held = []"
  proof -
    have "mr_updated res + mr_inserted res + length ?held = length staged"
      by (rule merge_counts [OF assms])
    then have "mr_updated res + mr_inserted res = length staged \<longleftrightarrow> length ?held = 0" by linarith
    then show ?thesis by (simp add: reconcile_row_count_def int_or_zero_def Let_def) linarith
  qed
  also have "\<dots> \<longleftrightarrow> (\<forall>s\<in>set staged. \<forall>t\<in>set target. key_match (pl_keys p) t s \<longrightarrow> guard_lets (pl_guard p) t s)"
    by (auto simp: filter_empty_conv)
  finally show ?thesis .
qed

lemma row_count_passes_iff_nothing_held_witness:
  "\<exists>res. merge_effect (keyed_plan\<lparr>pl_guard := Some ''ts''\<rparr>) [(sample_row 1 ''a'')(''ts'' := VInt 4)]
      [(sample_row 1 ''b'')(''ts'' := VInt 5)] = Inr res \<and>
    cr_status (reconcile_row_count (Some 1) (Some 0) (Some (int (mr_updated res + mr_inserted res)))) \<noteq> CheckPassed"
proof -
  let ?p = "keyed_plan\<lparr>pl_guard := Some ''ts''\<rparr>"
  let ?s = "(sample_row 1 ''a'')(''ts'' := VInt 4)" and ?t = "(sample_row 1 ''b'')(''ts'' := VInt 5)"
  have m: "key_match [''id''] ?t ?s" and g: "\<not> guard_lets (Some ''ts'') ?t ?s"
    by (simp_all add: key_match_def sample_row_def sql_eq_def py_eq_def guard_lets_def sql_ge_def)
  then obtain res where res: "merge_effect ?p [?s] [?t] = Inr res"
    by (simp add: merge_effect_def merge_target_row_def keyed_plan_def)
  with row_count_passes_iff_nothing_held [OF res, of "[?s]"] m g show ?thesis
    by (auto simp: keyed_plan_def)
qed

end
