(* ===== verification/Alerts.thy ===== *)
theory Alerts
  imports Reconciler
begin

text \<open>
  Alert channels and dispatch (observability/alerts.py).  A sender is a value of a type
  parameter; what sending does is a parameter, the exception it raises or \<open>None\<close>.
\<close>

datatype alert_event = TaskFailedAlert | ReconciliationMismatch | FreshnessBreach | ExpectationFailed

fun alert_event_value :: "alert_event \<Rightarrow> string" where
  "alert_event_value TaskFailedAlert = ''task_failed''"
| "alert_event_value ReconciliationMismatch = ''reconciliation_mismatch''"
| "alert_event_value FreshnessBreach = ''freshness_breach''"
| "alert_event_value ExpectationFailed = ''expectation_failed''"

record alert =
  at_event :: alert_event
  at_subject :: string
  at_body :: string
  at_table_fqn :: "string option"
  at_env :: "string option"
  at_run_id :: "string option"
  at_details :: payload

definition text_value :: "string option \<Rightarrow> payload_value" where
  "text_value s = PV (case s of None \<Rightarrow> VNone | Some t \<Rightarrow> VStr t)"

definition alert_payload :: "alert \<Rightarrow> payload" where
  "alert_payload a =
     dict_update
       [(''event'', PV (VStr (alert_event_value (at_event a)))), (''subject'', PV (VStr (at_subject a))),
        (''body'', PV (VStr (at_body a))), (''table_fqn'', text_value (at_table_fqn a)),
        (''env'', text_value (at_env a)), (''run_id'', text_value (at_run_id a))]
       (at_details a)"

record channel =
  ch_kind :: string
  ch_target :: string

definition channel_text :: "channel \<Rightarrow> string" where
  "channel_text c = ch_kind c @ '':'' @ ch_target c"

definition parse_channel :: "string \<Rightarrow> channel res" where
  "parse_channel spec =
     (case split_once (CHR '':'') (str_strip spec) of
        None \<Rightarrow> Inl (ChannelParseError spec)
      | Some (k, t) \<Rightarrow>
          let kind = str_lower (str_strip k); target = str_strip t
          in if kind = [] \<or> target = [] then Inl (ChannelParseError spec)
             else Inr \<lparr>ch_kind = kind, ch_target = target\<rparr>)"

text \<open>An \<open>except Exception\<close> clause catches everything but an interrupt.\<close>

fun is_exception :: "pyerr \<Rightarrow> bool" where
  "is_exception (Interrupted _) = False"
| "is_exception _ = True"

record dispatch_result =
  dr_delivered :: "channel list"
  dr_failed :: "(channel \<times> pyerr) list"
  dr_unroutable :: "string list"

definition register_sender :: "string \<Rightarrow> 's \<Rightarrow> (string, 's) dict \<Rightarrow> (string, 's) dict" where
  "register_sender kind sender senders = dict_set senders (str_lower kind) sender"

definition route :: "(string, 's) dict \<Rightarrow> 's \<Rightarrow> channel \<Rightarrow> 's" where
  "route senders fallback c = (case dict_get senders (ch_kind c) of Some s \<Rightarrow> s | None \<Rightarrow> fallback)"

text \<open>One round of the loop of \<open>dispatch\<close>; the result is that of the exception that escapes.\<close>

definition dispatch_one ::
  "(string, 's) dict \<Rightarrow> 's \<Rightarrow> ('s \<Rightarrow> channel \<Rightarrow> alert \<Rightarrow> pyerr option) \<Rightarrow> alert \<Rightarrow> string \<Rightarrow>
   dispatch_result \<Rightarrow> dispatch_result res" where
  "dispatch_one senders fallback send a spec r =
     (case parse_channel spec of
        Inl _ \<Rightarrow> Inr (r\<lparr>dr_unroutable := dr_unroutable r @ [spec]\<rparr>)
      | Inr c \<Rightarrow>
          (case send (route senders fallback c) c a of
             None \<Rightarrow> Inr (r\<lparr>dr_delivered := dr_delivered r @ [c]\<rparr>)
           | Some e \<Rightarrow>
               if is_exception e then Inr (r\<lparr>dr_failed := dr_failed r @ [(c, e)]\<rparr>) else Inl e))"

fun dispatch_loop ::
  "(string, 's) dict \<Rightarrow> 's \<Rightarrow> ('s \<Rightarrow> channel \<Rightarrow> alert \<Rightarrow> pyerr option) \<Rightarrow> alert \<Rightarrow> string list \<Rightarrow>
   dispatch_result \<Rightarrow> dispatch_result res" where
  "dispatch_loop senders fallback send a [] r = Inr r"
| "dispatch_loop senders fallback send a (spec # specs) r =
     bindE (dispatch_one senders fallback send a spec r) (dispatch_loop senders fallback send a specs)"

definition dispatch ::
  "(string, 's) dict \<Rightarrow> 's \<Rightarrow> ('s \<Rightarrow> channel \<Rightarrow> alert \<Rightarrow> pyerr option) \<Rightarrow> alert \<Rightarrow> string list \<Rightarrow>
   dispatch_result res" where
  "dispatch senders fallback send a channels =
     dispatch_loop senders fallback send a channels
       \<lparr>dr_delivered = [], dr_failed = [], dr_unroutable = []\<rparr>"

definition attempted :: "dispatch_result \<Rightarrow> nat" where
  "attempted r = length (dr_delivered r) + length (dr_failed r)"

definition build_failure_alert ::
  "string \<Rightarrow> string \<Rightarrow> string \<Rightarrow> string \<Rightarrow> string \<Rightarrow> int \<Rightarrow> alert" where
  "build_failure_alert fqn env rid error_type error_text attempt =
     \<lparr>at_event = TaskFailedAlert, at_subject = ''['' @ env @ ''] ingestion failed: '' @ fqn,
      at_body = error_type @ '': '' @ error_text, at_table_fqn = Some fqn, at_env = Some env,
      at_run_id = Some rid,
      at_details = [(''attempt'', PV (VInt attempt)), (''error_type'', PV (VStr error_type))]\<rparr>"

definition build_reconciliation_alert ::
  "string \<Rightarrow> string \<Rightarrow> string \<Rightarrow> check_result list \<Rightarrow> alert" where
  "build_reconciliation_alert fqn env rid failures =
     \<lparr>at_event = ReconciliationMismatch,
      at_subject = ''['' @ env @ ''] reconciliation failed: '' @ fqn,
      at_body = str_int (int (length failures)) @ '' check(s) failed: '' @
        join '', '' (map cr_check_name failures),
      at_table_fqn = Some fqn, at_env = Some env, at_run_id = Some rid,
      at_details = [(''failed_checks'', PNames (map cr_check_name failures))]\<rparr>"

declare text_value_def [evals] alert_payload_def [evals] channel_text_def [evals]
  parse_channel_def [evals] register_sender_def [evals] route_def [evals]
  dispatch_one_def [evals] dispatch_def [evals] attempted_def [evals]
  build_failure_alert_def [evals] build_reconciliation_alert_def [evals]

section \<open>Lemmas\<close>

text \<open>The channels a list of specifications names, and those among them sent without error.\<close>

definition channels_of :: "string list \<Rightarrow> channel list" where
  "channels_of specs = concat (map (\<lambda>s. case parse_channel s of Inr c \<Rightarrow> [c] | Inl _ \<Rightarrow> []) specs)"

lemma channels_of_simps [simp]:
  "channels_of [] = []"
  "channels_of (s # ss) = (case parse_channel s of Inr c \<Rightarrow> [c] | Inl _ \<Rightarrow> []) @ channels_of ss"
  by (simp_all add: channels_of_def)

lemma dispatch_loop_ok:
  assumes "\<And>c e. send (route senders fallback c) c a = Some e \<Longrightarrow> is_exception e"
  shows "\<exists>r'. dispatch_loop senders fallback send a specs r = Inr r' \<and>
    dr_delivered r' = dr_delivered r @
      filter (\<lambda>c. send (route senders fallback c) c a = None) (channels_of specs) \<and>
    map fst (dr_failed r') = map fst (dr_failed r) @
      filter (\<lambda>c. send (route senders fallback c) c a \<noteq> None) (channels_of specs) \<and>
    dr_unroutable r' = dr_unroutable r @ filter (\<lambda>s. \<not> is_ok (parse_channel s)) specs"
proof (induction specs arbitrary: r)
  case (Cons s specs)
  show ?case
  proof (cases "parse_channel s")
    case (Inl e)
    then show ?thesis
      using Cons [of "r\<lparr>dr_unroutable := dr_unroutable r @ [s]\<rparr>"]
      by (auto simp: dispatch_one_def)
  next
    case (Inr c)
    show ?thesis
    proof (cases "send (route senders fallback c) c a")
      case None
      with Inr show ?thesis
        using Cons [of "r\<lparr>dr_delivered := dr_delivered r @ [c]\<rparr>"]
        by (auto simp: dispatch_one_def)
    next
      case (Some e)
      with Inr assms [OF Some] show ?thesis
        using Cons [of "r\<lparr>dr_failed := dr_failed r @ [(c, e)]\<rparr>"]
        by (auto simp: dispatch_one_def)
    qed
  qed
qed simp

section \<open>Properties\<close>

text \<open>Dispatching an alert never raises as long as the senders raise only exceptions, and it
  accounts for every configured channel, in order: the specifications that do not parse are
  listed as unroutable, and of the channels the others name, those sent without error are
  delivered and the rest recorded as failed; a failed delivery stops none of the others.\<close>

theorem dispatch_accounts_for_all:
  assumes "\<And>c e. send (route senders fallback c) c a = Some e \<Longrightarrow> is_exception e"
  shows "\<exists>r. dispatch senders fallback send a specs = Inr r \<and>
    dr_delivered r = filter (\<lambda>c. send (route senders fallback c) c a = None) (channels_of specs) \<and>
    map fst (dr_failed r) = filter (\<lambda>c. send (route senders fallback c) c a \<noteq> None) (channels_of specs) \<and>
    dr_unroutable r = filter (\<lambda>s. \<not> is_ok (parse_channel s)) specs \<and>
    attempted r + length (dr_unroutable r) = length specs"
proof -
  have loop: "\<exists>r'. dispatch_loop senders fallback send a specs r = Inr r' \<and>
    dr_delivered r' = dr_delivered r @
      filter (\<lambda>c. send (route senders fallback c) c a = None) (channels_of specs) \<and>
    map fst (dr_failed r') = map fst (dr_failed r) @
      filter (\<lambda>c. send (route senders fallback c) c a \<noteq> None) (channels_of specs) \<and>
    dr_unroutable r' = dr_unroutable r @ filter (\<lambda>s. \<not> is_ok (parse_channel s)) specs" for r
    by (rule dispatch_loop_ok) (rule assms)
  obtain r where r: "dispatch senders fallback send a specs = Inr r"
    "dr_delivered r = filter (\<lambda>c. send (route senders fallback c) c a = None) (channels_of specs)"
    "map fst (dr_failed r) = filter (\<lambda>c. send (route senders fallback c) c a \<noteq> None) (channels_of specs)"
    "dr_unroutable r = filter (\<lambda>s. \<not> is_ok (parse_channel s)) specs"
    using loop [of "\<lparr>dr_delivered = [], dr_failed = [], dr_unroutable = []\<rparr>"]
    by (auto simp: dispatch_def)
  have "length (channels_of specs) + length (filter (\<lambda>s. \<not> is_ok (parse_channel s)) specs) = length specs"
    by (induction specs) (auto simp: is_ok_def split: sum.splits)
  moreover have "length (dr_delivered r) + length (map fst (dr_failed r)) = length (channels_of specs)"
    unfolding r(2,3) by (rule sum_length_filter_compl)
  ultimately have "attempted r + length (dr_unroutable r) = length specs"
    by (simp add: attempted_def r(4))
  with r show ?thesis by blast
qed

definition failing_send :: "bool \<Rightarrow> channel \<Rightarrow> alert \<Rightarrow> pyerr option" where
  "failing_send s c a = (if s then Some (External ''down'') else None)"

lemma dispatch_accounts_for_all_witness:
  "\<exists>r. dispatch [(''slack'', True)] False failing_send
       (build_failure_alert ''d.a'' ''dev'' ''r1'' ''LoadError'' ''x'' 1)
       [''slack:#ops'', ''oncall'', ''Email: a@b''] = Inr r \<and>
     attempted r + length (dr_unroutable r) = length [''slack:#ops'', ''oncall'', ''Email: a@b'']"
proof -
  have "is_exception e" if "failing_send s c a = Some e" for s c a e
    using that by (auto simp: failing_send_def split: if_splits)
  then show ?thesis
    using dispatch_accounts_for_all [of failing_send "[(''slack'', True)]" False
        "build_failure_alert ''d.a'' ''dev'' ''r1'' ''LoadError'' ''x'' 1"
        "[''slack:#ops'', ''oncall'', ''Email: a@b'']"]
    by blast
qed

end
