(* ===== verification/Extractor.thy ===== *)
theory Extractor
  imports Reconciler
begin

text \<open>
  Assembling the source read (engine/extractor.py): the JDBC options, the partition bounds,
  the source count, the choice of the next watermark and the redaction of credentials, as
  functions of what the source answered.  The calls themselves are in the theory of the
  world.
\<close>

record credentials =
  cd_username :: string
  cd_password :: string

record extract_result =
  er_columns :: "string list"
  er_query :: source_query
  er_lower_bound :: "string option"
  er_upper_bound :: "string option"
  er_new_watermark :: "string option"
  er_source_count :: "int option"
  er_partition_bounds :: "(pyval \<times> pyval) option"
  er_num_partitions :: int
  er_options :: "(string, pyval) dict"

definition is_empty_batch :: "extract_result \<Rightarrow> bool" where
  "is_empty_batch r = (er_new_watermark r = None)"

definition opt_value :: "string option \<Rightarrow> pyval" where
  "opt_value s = (case s of None \<Rightarrow> VNone | Some t \<Rightarrow> VStr t)"

text \<open>The scope the credentials come from; a missing one is an error before anything is read.\<close>

definition secret_scope :: "run_spec \<Rightarrow> string res" where
  "secret_scope spec =
     (if present (so_secret_scope (rs_source spec)) then Inr (text_of (so_secret_scope (rs_source spec)))
      else Inl (ExtractionError (table_fqn spec)))"

definition connection_options :: "run_spec \<Rightarrow> credentials \<Rightarrow> (string, pyval) dict" where
  "connection_options spec c =
     [(''url'', opt_value (so_url (rs_source spec))), (''driver'', VStr (so_driver (rs_source spec))),
      (''user'', VStr (cd_username c)), (''password'', VStr (cd_password c))]"

definition session_init :: "run_spec \<Rightarrow> (string, pyval) dict \<Rightarrow> (string, pyval) dict" where
  "session_init spec options =
     (if present (so_session_init (rs_source spec))
      then dict_set options ''sessionInitStatement'' (opt_value (so_session_init (rs_source spec)))
      else options)"

definition jdbc_options ::
  "run_spec \<Rightarrow> source_query \<Rightarrow> credentials \<Rightarrow> (pyval \<times> pyval) option \<Rightarrow> (string, pyval) dict" where
  "jdbc_options spec q c bounds =
     (let base = session_init spec
            (dict_set (connection_options spec c) ''fetchsize'' (VInt (so_fetch_size (rs_source spec))));
          read = so_read (rs_source spec);
          options =
            (case bounds of
               Some (lo, hi) \<Rightarrow>
                 if is_parallel read \<and> lo \<noteq> VNone \<and> hi \<noteq> VNone then
                   dict_set (dict_set (dict_set (dict_set (dict_set base
                     ''dbtable'' (VStr (as_subquery q)))
                     ''partitionColumn'' (opt_value (rd_partition_column read)))
                     ''lowerBound'' lo) ''upperBound'' hi)
                     ''numPartitions'' (VInt (rd_num_partitions read))
                 else dict_set base ''query'' (VStr (sq_sql q))
             | None \<Rightarrow> dict_set base ''query'' (VStr (sq_sql q)))
      in dict_update options (so_options (rs_source spec)))"

text \<open>The options of a probe, for the statement given.\<close>

definition probe_options :: "run_spec \<Rightarrow> credentials \<Rightarrow> string \<Rightarrow> (string, pyval) dict" where
  "probe_options spec c sql =
     session_init spec (dict_set (connection_options spec c) ''query'' (VStr sql))"

text \<open>\<open>_scalar\<close>: the first column of the first row, if there is one.\<close>

definition scalar :: "pyval list list \<Rightarrow> pyval" where
  "scalar rows = (case rows of [] \<Rightarrow> VNone | r # _ \<Rightarrow> (case r of [] \<Rightarrow> VNone | v # _ \<Rightarrow> v))"

definition wants_upper_bound :: "run_spec \<Rightarrow> bool" where
  "wants_upper_bound spec =
     (tracks_watermark (rs_extraction spec) \<and> in_use_upper_bound (incremental spec))"

text \<open>The canonical text of a bound the source answered with.\<close>

definition probed_mark :: "run_spec \<Rightarrow> pyval \<Rightarrow> string option res" where
  "probed_mark spec v = (if v = VNone then Inr None else canonicalize v (scn_or_type (incremental spec)))"

datatype bounds_source = NoBounds | FixedBounds pyval pyval | ProbeBounds

definition partition_bounds_source :: "run_spec \<Rightarrow> bounds_source res" where
  "partition_bounds_source spec =
     (let read = so_read (rs_source spec) in
      if \<not> is_parallel read then Inr NoBounds
      else if rd_bounds_strategy read = ''explicit'' then
        (if rd_lower_bound read = VNone \<or> rd_upper_bound read = VNone
         then Inl (ExtractionError (table_fqn spec))
         else Inr (FixedBounds (rd_lower_bound read) (rd_upper_bound read)))
      else Inr ProbeBounds)"

definition probed_bounds :: "pyval list list \<Rightarrow> (pyval \<times> pyval) option" where
  "probed_bounds rows = (case rows of (lo # hi # _) # _ \<Rightarrow> Some (lo, hi) | _ \<Rightarrow> None)"

definition source_count_value :: "pyval \<Rightarrow> int option res" where
  "source_count_value v = (if v = VNone then Inr None else bindE (py_int v) (\<lambda>n. Inr (Some n)))"

text \<open>\<open>upper_bound or self.probe_max_watermark(...)\<close>: whether the maximum is asked for.\<close>

definition needs_max_probe :: "string option \<Rightarrow> bool" where
  "needs_max_probe upper = (\<not> present upper)"

definition query_bounds :: "run_spec \<Rightarrow> watermark_window \<Rightarrow> string option" where
  "query_bounds spec w = (if tracks_watermark (rs_extraction spec) then ww_lower_bound w else None)"

definition redact :: "(string, pyval) dict \<Rightarrow> (string, pyval) dict" where
  "redact options =
     map (\<lambda>(k, v). (k, if str_lower k \<in> {''password'', ''user''} then VStr ''***'' else v)) options"

definition extract_result_of ::
  "run_spec \<Rightarrow> watermark_window \<Rightarrow> string list \<Rightarrow> source_query \<Rightarrow> string option \<Rightarrow> string option \<Rightarrow>
   int option \<Rightarrow> (pyval \<times> pyval) option \<Rightarrow> (string, pyval) dict \<Rightarrow> extract_result" where
  "extract_result_of spec w columns q upper new_mark source_count bounds options =
     \<lparr>er_columns = columns, er_query = q, er_lower_bound = ww_lower_bound w,
      er_upper_bound = upper, er_new_watermark = new_mark, er_source_count = source_count,
      er_partition_bounds = bounds,
      er_num_partitions = (if bounds = None then 1 else rd_num_partitions (so_read (rs_source spec))),
      er_options = redact options\<rparr>"

declare is_empty_batch_def [evals] opt_value_def [evals] secret_scope_def [evals]
  connection_options_def [evals] session_init_def [evals] jdbc_options_def [evals]
  probe_options_def [evals] scalar_def [evals] wants_upper_bound_def [evals]
  probed_mark_def [evals] partition_bounds_source_def [evals] probed_bounds_def [evals]
  source_count_value_def [evals] needs_max_probe_def [evals] query_bounds_def [evals]
  redact_def [evals] extract_result_of_def [evals]

section \<open>Lemmas\<close>

text \<open>
  A timestamp is never the text of a number: the clock answer of a batch whose watermark is
  numeric, but not an SCN, cannot become a bound.
\<close>

lemma dec_parse_datetime: "valid_datetime t \<Longrightarrow> dec_parse (str_datetime t) = None"
proof -
  assume "valid_datetime t"
  then have d: "valid_date (dt_date t)" by (rule valid_dt_date)
  define r where "r = CHR ''-'' # zpad 2 (d_month (dt_date t)) @ ''-'' @ zpad 2 (d_day (dt_date t)) @
    '' '' @ format_hms t @ (if dt_micro t = 0 then [] else ''.'' @ zpad 6 (dt_micro t))"
  define y where "y = zpad 4 (d_year (dt_date t))"
  have s: "str_datetime t = y @ r"
    by (simp add: str_datetime_def format_date_def r_def y_def)
  have y: "list_all is_digit y" "y \<noteq> []" "is_digit (hd y)" using zpad_hd_last by (simp_all add: y_def)
  have last: "is_digit (last (str_datetime t))"
    using zpad_hd_last by (simp add: str_datetime_def format_date_def format_hms_def)
  have hd: "is_digit (hd (str_datetime t))" using y by (simp add: s hd_append)
  have strip: "str_strip (str_datetime t) = str_datetime t"
    using hd last by (intro str_strip_id) simp
  have nu: "CHR ''_'' \<notin> set (str_datetime t)"
  proof -
    have "\<not> is_digit (CHR ''_'')" by (simp add: is_digit_def chr_code_def)
    then show ?thesis using zpad_all_digits
      by (auto simp: str_datetime_def format_date_def format_hms_def)
  qed
  have f: "filter (\<lambda>c. c \<noteq> CHR ''_'') (str_strip (str_datetime t)) = str_datetime t"
    unfolding strip filter_id_conv using nu by auto
  have sign: "take_sign (str_datetime t) = (False, str_datetime t)"
    using hd by (intro take_sign_digit) simp
  have sp: "span_digits (str_datetime t) = (y, r)"
    unfolding s by (rule span_digits_append) (simp_all add: y r_def)
  have num: "parse_number (str_datetime t) = None"
    using y by (simp add: parse_number_def sp) (simp add: r_def parse_exponent_def)
  obtain a b where ab: "str_datetime t = a # b" using y by (cases "str_datetime t") (auto simp: s)
  then have "is_digit a" using hd by simp
  then have low: "lower_char a = a" "a \<noteq> CHR ''i''" "a \<noteq> CHR ''n''" "a \<noteq> CHR ''s''"
    by (auto simp: is_digit_def chr_code_def)
  have "parse_special False (str_datetime t) = None"
    unfolding parse_special_def ab using low by (simp add: str_lower_def)
  then show ?thesis by (simp add: dec_parse_def f sign num)
qed

section \<open>Properties\<close>

text \<open>A table with a numeric watermark that is not an SCN cannot use the default upper bound:
  the query asks the source for SYSTIMESTAMP, and whatever timestamp it answers, making a
  numeric mark of it raises, so every such extract fails until the bound is switched off.\<close>

theorem numeric_upper_bound_fails:
  assumes "\<not> uses_scn (incremental spec)" "str_lower (in_watermark_type (incremental spec)) = ''number''"
    "in_watermark_type (incremental spec) \<noteq> ''date''" "valid_datetime t"
  shows "build_upper_bound_query spec = ''SELECT SYSTIMESTAMP AS UPPER_BOUND FROM DUAL'' \<and>
    probed_mark spec (VDatetime t) = Inl (WatermarkError (str_datetime t))"
  using assms dec_parse_datetime [OF assms(4)]
  by (simp add: build_upper_bound_query_def probed_mark_def scn_or_type_def canonicalize_def decimal_of_def)

definition number_spec :: run_spec where
  "number_spec =
     (sample_spec ''incremental'' ''merge'')\<lparr>rs_extraction := default_extraction
        \<lparr>ex_mode := ''incremental'',
         ex_incremental := default_incremental
           \<lparr>in_watermark_column := Some ''ID'', in_watermark_type := ''number''\<rparr>\<rparr>\<rparr>"

lemma numeric_upper_bound_fails_witness:
  "wants_upper_bound number_spec \<and>
   probed_mark number_spec (VDatetime some_time) = Inl (WatermarkError (str_datetime some_time))"
proof
  show "wants_upper_bound number_spec"
    by (simp add: wants_upper_bound_def number_spec_def default_extraction_def default_incremental_def
        tracks_watermark_def is_incremental_def)
  have "str_lower ''number'' = ''number''" by code_simp
  moreover have "valid_datetime some_time"
    by (simp add: some_time_def valid_midnight sample_dates)
  ultimately show "probed_mark number_spec (VDatetime some_time) = Inl (WatermarkError (str_datetime some_time))"
    using numeric_upper_bound_fails [of number_spec some_time]
    by (simp add: number_spec_def default_extraction_def default_incremental_def uses_scn_def)
qed

text \<open>C39: Credentials do not travel with the result: of the options it records, whatever the
  table configures, every user or password entry, in any case, reads \<open>***\<close>; all others are
  those of the read.\<close>

theorem redact_hides_credentials:
  "(dict_get (er_options (extract_result_of spec w columns q upper mark n bounds options)) k = Some v \<longrightarrow>
     str_lower k \<in> {''password'', ''user''} \<longrightarrow> v = VStr ''***'') \<and>
   (str_lower k \<notin> {''password'', ''user''} \<longrightarrow>
     dict_get (er_options (extract_result_of spec w columns q upper mark n bounds options)) k = dict_get options k)"
proof -
  have "dict_get (redact options) k =
      (if str_lower k \<in> {''password'', ''user''} then map_option (\<lambda>_. VStr ''***'') (dict_get options k)
       else dict_get options k)"
    by (induction options) (auto simp: redact_def)
  then show ?thesis by (auto simp: extract_result_of_def split: if_splits)
qed

definition first_window :: watermark_window where
  "first_window =
     \<lparr>ww_lower_bound = None, ww_stored_value = None, ww_overlap_applied = False,
      ww_is_first_run = True\<rparr>"

definition number_query :: source_query where
  "number_query =
     \<lparr>sq_sql = ''SELECT * FROM HR.EMP'', sq_mode = ''incremental'', sq_lower_bound = None,
      sq_upper_bound = None, sq_lower_inclusive = True, sq_watermark_column = Some ''ID'',
      sq_projected_columns = [''*'']\<rparr>"

lemma redact_hides_credentials_witness:
  "dict_get (er_options (extract_result_of number_spec first_window [] number_query None None None None
     [(''Password'', VStr ''s3cret'')])) ''Password'' = Some (VStr ''***'')"
proof -
  have "str_lower ''Password'' = ''password''" by code_simp
  then show ?thesis
    using redact_hides_credentials [of number_spec first_window "[]" number_query None None None None "[(''Password'', VStr ''s3cret'')]"
      "''Password''"]
    by (simp add: extract_result_of_def redact_def)
qed

end
