(* ===== verification/World.thy ===== *)
theory World
  imports Alerts Extractor
begin

text \<open>
  The world a run acts on, and the calls that change it.  The state is the control tables,
  the audit log, what was written to the targets and what the engine was asked for; an
  action is a function of the state that returns a value or the exception that escapes,
  together with the state it leaves (explicit state passing: a raise keeps every effect
  that came before it).  Whatever is not under \<open>src/\<close> is in the environment: the clock, the
  identifiers, the answers of the source and of Spark, and for every call a fault.
\<close>

section \<open>Exceptions, state and environment\<close>

datatype exn = PyError pyerr | ReconciliationFailure report

text \<open>The exceptions an \<open>except Exception\<close> clause catches.\<close>

fun catchable :: "exn \<Rightarrow> bool" where
  "catchable (PyError e) = is_exception e"
| "catchable (ReconciliationFailure r) = True"

text \<open>
  A write to a target table that the engine committed: a MERGE statement, or a frame saved
  in a mode, with the schema option it sets and the columns it partitions by.
\<close>

datatype data_write = MergeWrite string | FrameWrite string "string option" "string list"

record commit =
  cm_target :: string
  cm_write :: data_write

record world =
  wd_runs :: "run_row list"
  wd_tasks :: "task_row list"
  wd_marks :: "wm_row list"
  wd_registry :: "registry_row list"
  wd_checks :: "check_row list"
  wd_audit :: audit_state
  wd_tables :: "string list"
  wd_commits :: "commit list"
  wd_views :: "string list"
  wd_conf :: "(string, string) dict"
  wd_reads :: "(string, pyval) dict list"
  wd_alerts :: "(alert \<times> string list) list"
  wd_sleeps :: "int list"
  wd_ddl :: "string list"
  wd_calls :: nat
  wd_clock :: nat
  wd_ids :: nat

text \<open>The component a call goes to; faults are scheduled per component.\<close>

datatype call_kind =
    ControlCall | MarkCall | AuditCall | SecretCall | SourceCall | SparkCall | FileCall

text \<open>
  The environment: the n-th call of a kind fails as \<open>en_fault\<close> says; the n-th reading of the
  clock and the n-th identifier; the order in which a pool of workers takes its tables; what the
  source answers to a read with given options, the columns of the frame it gives; what Spark
  answers to a statement.
\<close>

record 's env =
  en_fault :: "call_kind \<Rightarrow> nat \<Rightarrow> fault"
  en_clock :: "nat \<Rightarrow> pdatetime"
  en_ids :: "nat \<Rightarrow> string"
  en_turns :: "nat \<Rightarrow> nat list"
  en_float_ms :: "int \<Rightarrow> int"
  en_casts :: sql_casts
  en_secrets :: "(string \<Rightarrow> string \<Rightarrow> string) option"
  en_query_file :: "string \<Rightarrow> string option"
  en_source :: "nat \<Rightarrow> (string, pyval) dict \<Rightarrow> pyval list list"
  en_columns :: "nat \<Rightarrow> (string, pyval) dict \<Rightarrow> string list"
  en_spark :: "nat \<Rightarrow> string \<Rightarrow> pyval list list"
  en_schema :: "nat \<Rightarrow> string \<Rightarrow> (string \<times> string) list"
  en_history :: "nat \<Rightarrow> string \<Rightarrow> (string, string option) dict option list"
  en_error_name :: "pyerr \<Rightarrow> string"
  en_error_text :: "pyerr \<Rightarrow> string"
  en_senders :: "(string, 's) dict"
  en_fallback :: 's
  en_send :: "nat \<Rightarrow> 's \<Rightarrow> channel \<Rightarrow> alert \<Rightarrow> pyerr option"

section \<open>Actions\<close>

type_synonym 'a act = "world \<Rightarrow> (exn + 'a) \<times> world"

definition retA :: "'a \<Rightarrow> 'a act" where
  "retA a = (\<lambda>w. (Inr a, w))"

definition raiseA :: "exn \<Rightarrow> 'a act" where
  "raiseA e = (\<lambda>w. (Inl e, w))"

definition bindA :: "'a act \<Rightarrow> ('a \<Rightarrow> 'b act) \<Rightarrow> 'b act" where
  "bindA m f = (\<lambda>w. case m w of (Inl e, w') \<Rightarrow> (Inl e, w') | (Inr a, w') \<Rightarrow> f a w')"

text \<open>\<open>try: m except BaseException as e: h e\<close>.\<close>

definition catchA :: "'a act \<Rightarrow> (exn \<Rightarrow> 'a act) \<Rightarrow> 'a act" where
  "catchA m h = (\<lambda>w. case m w of (Inl e, w') \<Rightarrow> h e w' | (Inr a, w') \<Rightarrow> (Inr a, w'))"

text \<open>\<open>try: m except Exception: pass\<close>; an interrupt goes on.\<close>

definition quietA :: "'a act \<Rightarrow> unit act" where
  "quietA m =
     catchA (bindA m (\<lambda>_. retA ())) (\<lambda>e. if catchable e then retA () else raiseA e)"

definition liftA :: "'a res \<Rightarrow> 'a act" where
  "liftA r = (case r of Inl e \<Rightarrow> raiseA (PyError e) | Inr a \<Rightarrow> retA a)"

fun eachA :: "('a \<Rightarrow> 'b act) \<Rightarrow> 'a list \<Rightarrow> 'b list act" where
  "eachA f [] = retA []"
| "eachA f (x # xs) = bindA (f x) (\<lambda>y. bindA (eachA f xs) (\<lambda>ys. retA (y # ys)))"

definition modifyA :: "(world \<Rightarrow> world) \<Rightarrow> unit act" where
  "modifyA f = (\<lambda>w. (Inr (), f w))"

definition getA :: "(world \<Rightarrow> 'a) \<Rightarrow> 'a act" where
  "getA f = (\<lambda>w. (Inr (f w), w))"

text \<open>The clock and the identifier factory.\<close>

definition nowA :: "'s env \<Rightarrow> pdatetime act" where
  "nowA env = (\<lambda>w. (Inr (en_clock env (wd_clock w)), w\<lparr>wd_clock := wd_clock w + 1\<rparr>))"

definition freshA :: "'s env \<Rightarrow> string act" where
  "freshA env = (\<lambda>w. (Inr (en_ids env (wd_ids w)), w\<lparr>wd_ids := wd_ids w + 1\<rparr>))"

text \<open>
  One call: it takes the next position of the schedule, has its effect unless it failed
  before it, and answers from the state it left, or raises.
\<close>

definition callA ::
  "'s env \<Rightarrow> call_kind \<Rightarrow> (world \<Rightarrow> world) \<Rightarrow> (nat \<Rightarrow> world \<Rightarrow> 'a) \<Rightarrow> 'a act" where
  "callA env kind effect answer = (\<lambda>w.
     let n = wd_calls w; ft = en_fault env kind n; w' = call_effect ft effect w
     in (case call_error ft of Some e \<Rightarrow> Inl (PyError e) | None \<Rightarrow> Inr (answer n w'),
         w'\<lparr>wd_calls := n + 1\<rparr>))"

definition executeA :: "'s env \<Rightarrow> call_kind \<Rightarrow> (world \<Rightarrow> world) \<Rightarrow> unit act" where
  "executeA env kind effect = callA env kind effect (\<lambda>_ _. ())"

definition queryA :: "'s env \<Rightarrow> call_kind \<Rightarrow> (nat \<Rightarrow> world \<Rightarrow> 'a) \<Rightarrow> 'a act" where
  "queryA env kind answer = callA env kind (\<lambda>w. w) answer"

section \<open>Audit log\<close>

text \<open>\<open>AuditLog.emit\<close> on the log of the world (the schedule advances by one position whether
  or not the event fills the buffer).\<close>

definition emitA ::
  "'s env \<Rightarrow> event_type \<Rightarrow> string option \<Rightarrow> payload \<Rightarrow> string option \<Rightarrow> bool \<Rightarrow> unit act" where
  "emitA env ty fqn payload rid flush_now = (\<lambda>w.
     let n = wd_calls w;
         (r, st) = emit (en_fault env AuditCall n) (en_ids env (wd_ids w)) (en_clock env (wd_clock w))
                     ty fqn payload rid flush_now (wd_audit w)
     in (case r of Inl e \<Rightarrow> Inl (PyError e) | Inr _ \<Rightarrow> Inr (),
         w\<lparr>wd_audit := st, wd_calls := n + 1, wd_clock := wd_clock w + 1, wd_ids := wd_ids w + 1\<rparr>))"

definition bind_auditA :: "string \<Rightarrow> string \<Rightarrow> unit act" where
  "bind_auditA rid env_name = modifyA (\<lambda>w.
     w\<lparr>wd_audit := (audit_bind (Some rid) (Some env_name) None (fst (wd_audit w)), snd (wd_audit w))\<rparr>)"

section \<open>Control store\<close>

definition start_runA ::
  "'s env \<Rightarrow> string \<Rightarrow> string \<Rightarrow> string \<Rightarrow> string option \<Rightarrow> int \<Rightarrow> string option \<Rightarrow> string option \<Rightarrow>
   run_context act" where
  "start_runA env rid env_name trigger triggered_by table_count job_id job_run_id =
     bindA (nowA env) (\<lambda>started.
     bindA (executeA env ControlCall (\<lambda>w. w\<lparr>wd_runs := insert_run
              (start_run_row rid env_name trigger triggered_by table_count job_id job_run_id started)
              (wd_runs w)\<rparr>)) (\<lambda>_.
     retA (start_run_context rid env_name trigger triggered_by table_count started)))"

text \<open>\<open>finish_run\<close> with the status the batch runner always gives.\<close>

definition finish_runA :: "'s env \<Rightarrow> run_context \<Rightarrow> run_status \<Rightarrow> unit act" where
  "finish_runA env run status =
     bindA (nowA env) (\<lambda>ended.
     executeA env ControlCall (\<lambda>w. w\<lparr>wd_runs := update_run (rc_run_id run) status ended
       (duration_ms (en_float_ms env) (Some (rc_started_at run)) ended) None (wd_runs w)\<rparr>))"

definition register_configA ::
  "'s env \<Rightarrow> string \<Rightarrow> string \<Rightarrow> string \<Rightarrow> string \<Rightarrow> string \<Rightarrow> unit act" where
  "register_configA env fqn env_name hash resolved_json rid =
     bindA (nowA env) (\<lambda>seen.
     executeA env ControlCall (\<lambda>w. w\<lparr>wd_registry :=
       register_config fqn env_name hash resolved_json [] (Some rid) seen (wd_registry w)\<rparr>))"

definition start_taskA ::
  "'s env \<Rightarrow> string \<Rightarrow> string \<Rightarrow> string \<Rightarrow> string \<Rightarrow> string \<Rightarrow> string \<Rightarrow> int \<Rightarrow> pdatetime \<Rightarrow> task_ref act" where
  "start_taskA env rid fqn env_name extraction_mode write_mode hash attempt started =
     bindA (executeA env ControlCall (\<lambda>w. w\<lparr>wd_tasks := insert_task
              (start_task_row rid fqn env_name extraction_mode write_mode hash attempt None started)
              (wd_tasks w)\<rparr>)) (\<lambda>_.
     retA \<lparr>tr_run_id = rid, tr_table_fqn = fqn, tr_attempt = attempt\<rparr>)"

definition finish_taskA ::
  "'s env \<Rightarrow> task_ref \<Rightarrow> task_status \<Rightarrow> task_metrics \<Rightarrow> string option \<Rightarrow> string option \<Rightarrow>
   pdatetime \<Rightarrow> pdatetime \<Rightarrow> unit act" where
  "finish_taskA env ref status metrics error_type message started ended =
     bindA (liftA (assert_transition TaskRunning status)) (\<lambda>_.
     executeA env ControlCall (\<lambda>w. w\<lparr>wd_tasks := update_task ref status metrics error_type
       (truncate_text truncate_limit message)
       (duration_ms (en_float_ms env) (Some started) ended) ended (wd_tasks w)\<rparr>))"

definition record_checksA :: "'s env \<Rightarrow> check_row list \<Rightarrow> unit act" where
  "record_checksA env checks =
     (if checks = [] then retA ()
      else
        bindA (nowA env) (\<lambda>stamp.
        executeA env ControlCall (\<lambda>w. w\<lparr>wd_checks := snd (record_checks checks stamp (wd_checks w))\<rparr>)))"

section \<open>Watermark store\<close>

definition get_markA :: "'s env \<Rightarrow> string \<Rightarrow> string \<Rightarrow> watermark_record option act" where
  "get_markA env fqn env_name = queryA env MarkCall (\<lambda>_ w. wm_get fqn env_name (wd_marks w))"

definition windowA ::
  "'s env \<Rightarrow> string \<Rightarrow> string \<Rightarrow> string \<Rightarrow> int \<Rightarrow> pyval \<Rightarrow> watermark_window act" where
  "windowA env fqn env_name watermark_type overlap lower_bound_default =
     bindA (get_markA env fqn env_name) (\<lambda>mark.
     liftA (compute_window mark watermark_type overlap lower_bound_default))"

definition advanceA ::
  "'s env \<Rightarrow> string \<Rightarrow> string \<Rightarrow> pyval \<Rightarrow> string \<Rightarrow> string option \<Rightarrow> string \<Rightarrow> pdatetime \<Rightarrow> bool act" where
  "advanceA env fqn env_name new_value rid column watermark_type updated_at =
     bindA (liftA (canonicalize new_value watermark_type)) (\<lambda>canonical.
       if canonical = None then retA False
       else
         bindA (liftA (advance_guard_sql watermark_type)) (\<lambda>_.
           let p = wm_make_params fqn env_name column watermark_type canonical rid updated_at in
           bindA (executeA env MarkCall (\<lambda>w. w\<lparr>wd_marks := merge_advance (en_casts env) p (wd_marks w)\<rparr>)) (\<lambda>_.
           bindA (get_markA env fqn env_name) (\<lambda>current.
           retA (case current of
                   None \<Rightarrow> False
                 | Some cur \<Rightarrow> wr_value cur = canonical \<and> wr_run_id cur = Some rid)))))"

section \<open>Reasoning about actions\<close>

text \<open>
  What an action does to the world, on every outcome: a reflexive and transitive relation
  between the state before and after is established call by call.
\<close>

definition steps :: "(world \<Rightarrow> world \<Rightarrow> bool) \<Rightarrow> 'a act \<Rightarrow> bool" where
  "steps R m = (\<forall>w. R w (snd (m w)))"

named_theorems frames \<open>what an action leaves alone\<close>

locale world_order =
  fixes R :: "world \<Rightarrow> world \<Rightarrow> bool"
  assumes order_refl: "R w w"
    and order_trans: "R u v \<Longrightarrow> R v w \<Longrightarrow> R u w"
begin

lemma steps_ret: "steps R (retA a)"
  by (simp add: steps_def retA_def order_refl)

lemma steps_raise: "steps R (raiseA e)"
  by (simp add: steps_def raiseA_def order_refl)

lemma steps_get: "steps R (getA f)"
  by (simp add: steps_def getA_def order_refl)

lemma steps_lift: "steps R (liftA r)"
  by (cases r) (simp_all add: liftA_def steps_ret steps_raise)

lemma steps_bind:
  assumes m: "steps R m" and f: "\<And>a. steps R (f a)"
  shows "steps R (bindA m f)"
  unfolding steps_def
proof
  fix w
  obtain r w1 where e: "m w = (r, w1)" by (cases "m w")
  then have 1: "R w w1" using m by (metis steps_def snd_conv)
  show "R w (snd (bindA m f w))"
  proof (cases r)
    case (Inr a)
    have "R w1 (snd (f a w1))" using f by (simp add: steps_def)
    with 1 show ?thesis using order_trans by (simp add: bindA_def e Inr)
  qed (simp add: bindA_def e 1)
qed

lemma steps_catch:
  assumes m: "steps R m" and h: "\<And>e. steps R (h e)"
  shows "steps R (catchA m h)"
  unfolding steps_def
proof
  fix w
  obtain r w1 where e: "m w = (r, w1)" by (cases "m w")
  then have 1: "R w w1" using m by (metis steps_def snd_conv)
  show "R w (snd (catchA m h w))"
  proof (cases r)
    case (Inl x)
    have "R w1 (snd (h x w1))" using h by (simp add: steps_def)
    with 1 show ?thesis using order_trans by (simp add: catchA_def e Inl)
  qed (simp add: catchA_def e 1)
qed

lemma steps_if: "steps R m \<Longrightarrow> steps R n \<Longrightarrow> steps R (if b then m else n)"
  by simp

lemma steps_option: "steps R m \<Longrightarrow> (\<And>a. steps R (f a)) \<Longrightarrow> steps R (case x of None \<Rightarrow> m | Some a \<Rightarrow> f a)"
  by (cases x) simp_all

lemma steps_let: "(\<And>a. steps R (f a)) \<Longrightarrow> steps R (let a = x in f a)"
  by (simp add: Let_def)

lemma steps_pair: "(\<And>a b. steps R (f a b)) \<Longrightarrow> steps R (case x of (a, b) \<Rightarrow> f a b)"
  by (cases x) simp

lemma steps_quiet: "steps R m \<Longrightarrow> steps R (quietA m)"
  unfolding quietA_def by (intro steps_catch steps_bind steps_if steps_ret steps_raise)

lemma steps_each: "(\<And>x. steps R (f x)) \<Longrightarrow> steps R (eachA f xs)"
  by (induction xs) (auto intro: steps_ret steps_bind)

lemma steps_modify: "(\<And>w. R w (f w)) \<Longrightarrow> steps R (modifyA f)"
  by (simp add: steps_def modifyA_def)

lemma steps_call:
  assumes effect: "\<And>w. R w (effect w)" and tick: "\<And>w n. R w (w\<lparr>wd_calls := n\<rparr>)"
  shows "steps R (callA env kind effect answer)"
  unfolding steps_def
proof
  fix w
  have "R w (call_effect (en_fault env kind (wd_calls w)) effect w)"
    by (cases "en_fault env kind (wd_calls w)") (simp_all add: effect order_refl)
  then show "R w (snd (callA env kind effect answer w))"
    using order_trans tick by (simp add: callA_def Let_def)
qed

lemmas steps_rules = steps_ret steps_raise steps_get steps_lift steps_bind steps_catch steps_if
  steps_option steps_let steps_pair steps_quiet steps_each

end

abbreviation keeps :: "(world \<Rightarrow> 'b) \<Rightarrow> 'a act \<Rightarrow> bool" where
  "keeps f m \<equiv> steps (\<lambda>w w'. f w' = f w) m"

interpretation frame: world_order "\<lambda>w w'. f w' = f w" for f
  by unfold_locales simp_all

text \<open>Writes to one target only, appended to the history of the engine.\<close>

definition loads_only :: "string \<Rightarrow> world \<Rightarrow> world \<Rightarrow> bool" where
  "loads_only target w w' =
     (\<exists>cs. wd_commits w' = wd_commits w @ cs \<and> list_all (\<lambda>c. cm_target c = target) cs)"

interpretation loads: world_order "loads_only target" for target
proof unfold_locales
  fix u v w assume "loads_only target u v" "loads_only target v w"
  then show "loads_only target u w" by (fastforce simp: loads_only_def)
qed (simp add: loads_only_def)

lemma loads_keeps: "keeps wd_commits m \<Longrightarrow> steps (loads_only target) m"
  by (simp add: steps_def loads_only_def)

declare frame.steps_rules [frames]

text \<open>An observation that does not look at the clock, the counters or the audit log.\<close>

definition book :: "(world \<Rightarrow> 'b) \<Rightarrow> bool" where
  "book f = ((\<forall>w n. f (w\<lparr>wd_calls := n\<rparr>) = f w) \<and> (\<forall>w n. f (w\<lparr>wd_clock := n\<rparr>) = f w) \<and>
     (\<forall>w n. f (w\<lparr>wd_ids := n\<rparr>) = f w) \<and> (\<forall>w st. f (w\<lparr>wd_audit := st\<rparr>) = f w))"

lemma book_fields [simp]:
  "book wd_runs" "book wd_tasks" "book wd_marks" "book wd_registry" "book wd_checks"
  "book wd_tables" "book wd_commits" "book wd_views" "book wd_conf" "book wd_reads" "book wd_alerts" "book wd_sleeps" "book wd_ddl"
  by (simp_all add: book_def)

lemma keeps_now [frames]: "book f \<Longrightarrow> keeps f (nowA env)"
  by (simp add: steps_def nowA_def book_def)

lemma keeps_fresh [frames]: "book f \<Longrightarrow> keeps f (freshA env)"
  by (simp add: steps_def freshA_def book_def)

lemma keeps_call:
  "book f \<Longrightarrow> (\<And>w. f (effect w) = f w) \<Longrightarrow> keeps f (callA env kind effect answer)"
  by (rule frame.steps_call) (simp_all add: book_def)

lemma keeps_execute: "book f \<Longrightarrow> (\<And>w. f (effect w) = f w) \<Longrightarrow> keeps f (executeA env kind effect)"
  unfolding executeA_def by (rule keeps_call)

lemma keeps_query [frames]: "book f \<Longrightarrow> keeps f (queryA env kind answer)"
  unfolding queryA_def by (rule keeps_call) simp_all

lemma keeps_emit [frames]: "book f \<Longrightarrow> keeps f (emitA env ty fqn payload rid flush_now)"
  unfolding steps_def emitA_def Let_def book_def by (auto split: prod.split)

lemma keeps_bind_audit [frames]: "book f \<Longrightarrow> keeps f (bind_auditA rid e)"
  by (simp add: bind_auditA_def steps_def modifyA_def book_def)

lemma keeps_start_run [frames]:
  "book f \<Longrightarrow> (\<And>w x. f (w\<lparr>wd_runs := x\<rparr>) = f w) \<Longrightarrow> keeps f (start_runA env rid e t tb n j jr)"
  unfolding start_runA_def by (intro frames keeps_execute) auto

lemma keeps_finish_run [frames]:
  "book f \<Longrightarrow> (\<And>w x. f (w\<lparr>wd_runs := x\<rparr>) = f w) \<Longrightarrow> keeps f (finish_runA env run status)"
  unfolding finish_runA_def by (intro frames keeps_execute) auto

lemma keeps_register_config [frames]:
  "book f \<Longrightarrow> (\<And>w x. f (w\<lparr>wd_registry := x\<rparr>) = f w) \<Longrightarrow> keeps f (register_configA env fqn e h j rid)"
  unfolding register_configA_def by (intro frames keeps_execute) auto

lemma keeps_start_task [frames]:
  "book f \<Longrightarrow> (\<And>w x. f (w\<lparr>wd_tasks := x\<rparr>) = f w) \<Longrightarrow> keeps f (start_taskA env rid fqn e m wm h a s)"
  unfolding start_taskA_def by (intro frames keeps_execute) auto

lemma keeps_finish_task [frames]:
  "book f \<Longrightarrow> (\<And>w x. f (w\<lparr>wd_tasks := x\<rparr>) = f w) \<Longrightarrow> keeps f (finish_taskA env ref st m et msg s e)"
  unfolding finish_taskA_def by (intro frames keeps_execute) auto

lemma keeps_record_checks [frames]:
  "book f \<Longrightarrow> (\<And>w x. f (w\<lparr>wd_checks := x\<rparr>) = f w) \<Longrightarrow> keeps f (record_checksA env checks)"
  unfolding record_checksA_def by (intro frames keeps_execute) auto

lemma keeps_get_mark [frames]: "book f \<Longrightarrow> keeps f (get_markA env fqn e)"
  unfolding get_markA_def by (rule keeps_query)

lemma keeps_window [frames]: "book f \<Longrightarrow> keeps f (windowA env fqn e ty ov lb)"
  unfolding windowA_def by (intro frames) auto

lemma keeps_advance [frames]:
  "book f \<Longrightarrow> (\<And>w x. f (w\<lparr>wd_marks := x\<rparr>) = f w) \<Longrightarrow> keeps f (advanceA env fqn e v rid col ty at_time)"
  unfolding advanceA_def by (intro frames keeps_execute) auto

text \<open>Reading a run of an action backwards, and what a kept observation gives.\<close>

lemma keepsD: "m w = (r, w') \<Longrightarrow> keeps f m \<Longrightarrow> f w' = f w"
  unfolding steps_def by (metis snd_conv)

lemma keeps_snd: "keeps f m \<Longrightarrow> f (snd (m w)) = f w"
  by (simp add: steps_def)

lemma bindA_InrE:
  assumes "bindA m f w = (Inr b, w')"
  obtains a w1 where "m w = (Inr a, w1)" "f a w1 = (Inr b, w')"
  using assms by (auto simp: bindA_def split: prod.splits sum.splits)

lemma bindA_InlE:
  assumes "bindA m f w = (Inl e, w')"
  obtains (first) "m w = (Inl e, w')" | (later) a w1 where "m w = (Inr a, w1)" "f a w1 = (Inl e, w')"
  using assms by (auto simp: bindA_def split: prod.splits sum.splits)

lemma act_simps [simp]:
  "bindA (retA a) f = f a" "retA a w = (Inr a, w)" "raiseA e w = (Inl e, w)"
  "bindA (raiseA e) f = raiseA e" "liftA (Inr a) = retA a" "liftA (Inl x) = raiseA (PyError x)"
  "getA g w = (Inr (g w), w)" "modifyA h w = (Inr (), h w)"
  by (simp_all add: bindA_def retA_def raiseA_def liftA_def getA_def modifyA_def fun_eq_iff)

lemma liftA_Inr [simp]: "liftA r w = (Inr a, w') \<longleftrightarrow> r = Inr a \<and> w' = w"
  by (cases r) (auto simp: retA_def raiseA_def)

end
