(* ===== verification/EngineCalls.thy ===== *)
theory EngineCalls
  imports World
begin

text \<open>
  The engine's operations as actions on the world: the source read (engine/extractor.py),
  staging (engine/transformer.py), the load (engine/loader.py), the reconciliation queries
  (engine/reconciler.py) and the dispatch of alerts (observability/alerts.py).  Each runs
  the calls of the code in their order; what a call answers comes from the environment.
\<close>

section \<open>Extractor\<close>

definition credentialsA :: "'s env \<Rightarrow> run_spec \<Rightarrow> credentials act" where
  "credentialsA env spec =
     bindA (liftA (secret_scope spec)) (\<lambda>scope.
     case en_secrets env of
       None \<Rightarrow> raiseA (PyError (ExtractionError ''no secret provider configured''))
     | Some secret \<Rightarrow>
         bindA (queryA env SecretCall (\<lambda>_ _. secret scope (username_key (rs_source spec)))) (\<lambda>user.
         bindA (queryA env SecretCall (\<lambda>_ _. secret scope (password_key (rs_source spec)))) (\<lambda>password.
         retA \<lparr>cd_username = user, cd_password = password\<rparr>)))"

text \<open>A read with the given options; the world keeps what was asked.\<close>

definition readA :: "'s env \<Rightarrow> (nat \<Rightarrow> (string, pyval) dict \<Rightarrow> 'a) \<Rightarrow> (string, pyval) dict \<Rightarrow> 'a act" where
  "readA env answer options =
     callA env SourceCall (\<lambda>w. w\<lparr>wd_reads := wd_reads w @ [options]\<rparr>) (\<lambda>n _. answer n options)"

definition scalarA :: "'s env \<Rightarrow> run_spec \<Rightarrow> credentials \<Rightarrow> string \<Rightarrow> pyval act" where
  "scalarA env spec c sql =
     bindA (readA env (en_source env) (probe_options spec c sql)) (\<lambda>rows. retA (scalar rows))"

definition probe_upper_boundA :: "'s env \<Rightarrow> run_spec \<Rightarrow> credentials \<Rightarrow> string option act" where
  "probe_upper_boundA env spec c =
     (if \<not> wants_upper_bound spec then retA None
      else bindA (scalarA env spec c (build_upper_bound_query spec)) (\<lambda>v. liftA (probed_mark spec v)))"

definition load_query_fileA :: "'s env \<Rightarrow> run_spec \<Rightarrow> string act" where
  "load_query_fileA env spec =
     (if \<not> present (ex_query_file (rs_extraction spec))
      then raiseA (PyError (SqlBuildError (table_fqn spec)))
      else
        case en_query_file env (text_of (ex_query_file (rs_extraction spec))) of
          None \<Rightarrow> raiseA (PyError (ExtractionError (table_fqn spec)))
        | Some sql \<Rightarrow> queryA env FileCall (\<lambda>_ _. sql))"

definition build_queryA ::
  "'s env \<Rightarrow> run_spec \<Rightarrow> watermark_window \<Rightarrow> string option \<Rightarrow> source_query act" where
  "build_queryA env spec w upper =
     bindA (if ex_mode (rs_extraction spec) = ''query''
            then bindA (load_query_fileA env spec) (\<lambda>sql. retA (Some sql))
            else retA None) (\<lambda>custom_sql.
     liftA (build_source_query spec (query_bounds spec w) upper custom_sql))"

definition probe_partition_boundsA ::
  "'s env \<Rightarrow> run_spec \<Rightarrow> source_query \<Rightarrow> credentials \<Rightarrow> (pyval \<times> pyval) option act" where
  "probe_partition_boundsA env spec q c =
     bindA (liftA (partition_bounds_source spec)) (\<lambda>source.
     case source of
       NoBounds \<Rightarrow> retA None
     | FixedBounds lo hi \<Rightarrow> retA (Some (lo, hi))
     | ProbeBounds \<Rightarrow>
         bindA (liftA (build_bounds_query spec q)) (\<lambda>sql.
         bindA (readA env (en_source env)
                  (dict_set (connection_options spec c) ''query'' (VStr sql))) (\<lambda>rows.
         retA (probed_bounds rows))))"

definition count_sourceA ::
  "'s env \<Rightarrow> run_spec \<Rightarrow> source_query \<Rightarrow> credentials \<Rightarrow> int option act" where
  "count_sourceA env spec q c =
     (if \<not> qu_row_count_reconciliation (rs_quality spec) then retA None
      else bindA (scalarA env spec c (build_count_query q)) (\<lambda>v. liftA (source_count_value v)))"

definition probe_max_watermarkA ::
  "'s env \<Rightarrow> run_spec \<Rightarrow> source_query \<Rightarrow> credentials \<Rightarrow> string option act" where
  "probe_max_watermarkA env spec q c =
     (if \<not> tracks_watermark (rs_extraction spec) then retA None
      else
        bindA (liftA (build_max_watermark_query spec q)) (\<lambda>sql.
        bindA (scalarA env spec c sql) (\<lambda>v. liftA (probed_mark spec v))))"

definition extractA :: "'s env \<Rightarrow> run_spec \<Rightarrow> watermark_window \<Rightarrow> extract_result act" where
  "extractA env spec w =
     bindA (credentialsA env spec) (\<lambda>c.
     bindA (probe_upper_boundA env spec c) (\<lambda>upper.
     bindA (build_queryA env spec w upper) (\<lambda>q.
     bindA (probe_partition_boundsA env spec q c) (\<lambda>bounds.
     let options = jdbc_options spec q c bounds in
     bindA (readA env (en_columns env) options) (\<lambda>columns.
     bindA (count_sourceA env spec q c) (\<lambda>source_count.
     bindA (if needs_max_probe upper then probe_max_watermarkA env spec q c else retA upper) (\<lambda>new_mark.
     retA (extract_result_of spec w columns q upper new_mark source_count bounds options))))))))"

section \<open>Transformer\<close>

record stage_result =
  sr_schema :: "(string \<times> string) list"
  sr_query :: stage_query
  sr_duplicates_removed :: "int option"
  sr_null_key_rows :: "int option"
  sr_views :: view_names

text \<open>\<open>collect()[0][0]\<close>.\<close>

definition first_cell :: "pyval list list \<Rightarrow> pyval res" where
  "first_cell rows = (case rows of (v # _) # _ \<Rightarrow> Inr v | _ \<Rightarrow> Inl IndexError)"

definition spark_countA :: "'s env \<Rightarrow> string res \<Rightarrow> int act" where
  "spark_countA env sql =
     bindA (liftA sql) (\<lambda>text.
     bindA (queryA env SparkCall (\<lambda>n _. en_spark env n text)) (\<lambda>rows.
     liftA (bindE (first_cell rows) py_int)))"

definition create_viewA :: "'s env \<Rightarrow> string \<Rightarrow> unit act" where
  "create_viewA env view = executeA env SparkCall (\<lambda>w. w\<lparr>wd_views := wd_views w @ [view]\<rparr>)"

definition stageA ::
  "'s env \<Rightarrow> run_spec \<Rightarrow> string list \<Rightarrow> string \<Rightarrow> string \<Rightarrow> pdatetime \<Rightarrow> view_names \<Rightarrow> stage_result act" where
  "stageA env spec columns rid batch_id ingested_at views =
     bindA (create_viewA env (vn_raw views)) (\<lambda>_.
     bindA (liftA (build_stage_query spec columns rid batch_id ingested_at (vn_raw views))) (\<lambda>q.
     bindA (if tg_merge_keys (rs_target spec) \<noteq> [] \<and> st_dedupe_applied q
            then bindA (spark_countA env (build_duplicate_count_query spec (vn_raw views))) (\<lambda>n. retA (Some n))
            else retA None) (\<lambda>duplicates.
     bindA (if tg_merge_keys (rs_target spec) \<noteq> [] \<and> qu_null_check_keys (rs_quality spec)
            then bindA (spark_countA env (build_null_key_query spec (vn_raw views))) (\<lambda>n. retA (Some n))
            else retA None) (\<lambda>null_keys.
     bindA (queryA env SparkCall (\<lambda>n _. en_schema env n (st_sql q))) (\<lambda>staged.
     bindA (create_viewA env (vn_staged views)) (\<lambda>_.
     retA \<lparr>sr_schema = staged, sr_query = q, sr_duplicates_removed = duplicates,
           sr_null_key_rows = null_keys, sr_views = views\<rparr>))))))"

section \<open>Loader\<close>

definition ensure_tableA ::
  "'s env \<Rightarrow> run_spec \<Rightarrow> (string \<times> string) list \<Rightarrow> (bool \<times> string list) act" where
  "ensure_tableA env spec frame =
     bindA (queryA env SparkCall (\<lambda>_ w. target_fqn (rs_target spec) \<in> set (wd_tables w))) (\<lambda>found.
     if found then retA (False, [])
     else
       bindA (liftA (build_create_table_sql spec (map (\<lambda>(n, ty). (n, str_upper ty)) frame))) (\<lambda>statement.
       bindA (executeA env SparkCall
                (\<lambda>w. w\<lparr>wd_tables := wd_tables w @ [target_fqn (rs_target spec)]\<rparr>)) (\<lambda>_.
       retA (True, [statement]))))"

definition commitA :: "'s env \<Rightarrow> run_spec \<Rightarrow> data_write \<Rightarrow> unit act" where
  "commitA env spec dw =
     executeA env SparkCall (\<lambda>w. w\<lparr>wd_commits := wd_commits w @
       [\<lparr>cm_target = target_fqn (rs_target spec), cm_write = dw\<rparr>]\<rparr>)"

definition auto_merge_key :: string where
  "auto_merge_key = ''spark.databricks.delta.schema.autoMerge.enabled''"

definition mergeA ::
  "'s env \<Rightarrow> run_spec \<Rightarrow> string list \<Rightarrow> string \<Rightarrow> load_result \<Rightarrow> load_result act" where
  "mergeA env spec columns view result =
     bindA (create_viewA env view) (\<lambda>_.
     bindA (if tg_schema_evolution (rs_target spec)
            then bindA (executeA env SparkCall
                   (\<lambda>w. w\<lparr>wd_conf := dict_set (wd_conf w) auto_merge_key ''true''\<rparr>)) (\<lambda>_.
                 retA (result\<lparr>lr_schema_evolved := True\<rparr>))
            else retA result) (\<lambda>result'.
     bindA (liftA (build_merge_sql spec columns view)) (\<lambda>statement.
     bindA (commitA env spec (MergeWrite statement)) (\<lambda>_.
     retA (result'\<lparr>lr_statements := lr_statements result' @ [statement]\<rparr>)))))"

definition write_dfA :: "'s env \<Rightarrow> run_spec \<Rightarrow> string \<Rightarrow> load_result \<Rightarrow> load_result act" where
  "write_dfA env spec mode result =
     bindA (commitA env spec (FrameWrite mode (writer_option spec mode) (tg_partition_by (rs_target spec)))) (\<lambda>_.
     retA (result\<lparr>lr_schema_evolved := lr_schema_evolved result \<or> tg_schema_evolution (rs_target spec)\<rparr>))"

definition collect_metricsA :: "'s env \<Rightarrow> run_spec \<Rightarrow> load_metrics act" where
  "collect_metricsA env spec =
     bindA
       (catchA
          (bindA (queryA env SparkCall (\<lambda>n _. en_history env n (build_history_metrics_query spec)))
             (\<lambda>rows. retA (Some rows)))
          (\<lambda>e. if catchable e then retA None else raiseA e))
       (\<lambda>rows. retA (case rows of Some (m # _) \<Rightarrow> parse_operation_metrics m | _ \<Rightarrow> no_metrics))"

definition writeA ::
  "'s env \<Rightarrow> run_spec \<Rightarrow> (string \<times> string) list \<Rightarrow> string \<Rightarrow> load_result act" where
  "writeA env spec frame view =
     bindA (ensure_tableA env spec frame) (\<lambda>(created, statements).
     let result = (new_load_result spec)\<lparr>lr_table_created := created, lr_statements := statements\<rparr>;
         mode = tg_write_mode (rs_target spec) in
     bindA (if mode = ''merge'' then mergeA env spec (map fst frame) view result
            else if mode = ''append'' then write_dfA env spec ''append'' result
            else if mode = ''overwrite'' then write_dfA env spec ''overwrite'' result
            else raiseA (PyError (LoadError mode))) (\<lambda>result'.
     bindA (collect_metricsA env spec) (\<lambda>metrics.
     retA (result'\<lparr>lr_metrics := metrics\<rparr>))))"

section \<open>Reconciler\<close>

definition violationsA :: "'s env \<Rightarrow> run_spec \<Rightarrow> string \<Rightarrow> expectation \<Rightarrow> int act" where
  "violationsA env spec view x =
     bindA (liftA (build_expectation_query x spec view)) (\<lambda>sql.
     bindA (queryA env SparkCall (\<lambda>n _. en_spark env n sql)) (\<lambda>rows.
     if rows = [] then retA 0 else liftA (bindE (first_cell rows) py_int)))"

definition reconcileA ::
  "'s env \<Rightarrow> run_spec \<Rightarrow> int option \<Rightarrow> int option \<Rightarrow> int option \<Rightarrow> int option \<Rightarrow> string \<Rightarrow> report act" where
  "reconcileA env spec source_count duplicates_removed null_key_rows rows_written view =
     bindA (eachA (violationsA env spec view) (qu_expectations (rs_quality spec))) (\<lambda>violations.
     retA (full_report spec source_count duplicates_removed null_key_rows rows_written violations))"

section \<open>Alerts\<close>

definition dispatchA :: "'s env \<Rightarrow> alert \<Rightarrow> string list \<Rightarrow> dispatch_result act" where
  "dispatchA env a channels = (\<lambda>w.
     (case dispatch (en_senders env) (en_fallback env) (en_send env (wd_calls w)) a channels of
        Inl e \<Rightarrow> Inl (PyError e) | Inr r \<Rightarrow> Inr r,
      w\<lparr>wd_alerts := wd_alerts w @ [(a, channels)], wd_calls := wd_calls w + 1\<rparr>))"

section \<open>Lemmas\<close>

lemma keeps_read [frames]:
  "book f \<Longrightarrow> (\<And>w x. f (w\<lparr>wd_reads := x\<rparr>) = f w) \<Longrightarrow> keeps f (readA env answer options)"
  unfolding readA_def by (rule keeps_call) simp_all

lemma keeps_extract [frames]:
  assumes "book f" "\<And>w x. f (w\<lparr>wd_reads := x\<rparr>) = f w"
  shows "keeps f (extractA env spec w)"
  unfolding extractA_def credentialsA_def probe_upper_boundA_def build_queryA_def load_query_fileA_def
    probe_partition_boundsA_def count_sourceA_def probe_max_watermarkA_def scalarA_def
  by (intro frames assms) (auto intro!: frames assms split: bounds_source.split)

lemma keeps_create_view [frames]:
  "book f \<Longrightarrow> (\<And>w x. f (w\<lparr>wd_views := x\<rparr>) = f w) \<Longrightarrow> keeps f (create_viewA env view)"
  unfolding create_viewA_def by (rule keeps_execute) simp_all

lemma keeps_spark_count [frames]: "book f \<Longrightarrow> keeps f (spark_countA env sql)"
  unfolding spark_countA_def by (intro frames) auto

lemma keeps_stage [frames]:
  assumes "book f" "\<And>w x. f (w\<lparr>wd_views := x\<rparr>) = f w"
  shows "keeps f (stageA env spec columns rid batch_id at_time views)"
  unfolding stageA_def by (intro frames assms)

lemma keeps_commit [frames]:
  "book f \<Longrightarrow> (\<And>w x. f (w\<lparr>wd_commits := x\<rparr>) = f w) \<Longrightarrow> keeps f (commitA env spec dw)"
  unfolding commitA_def by (rule keeps_execute) simp_all

lemma keeps_collect_metrics [frames]: "book f \<Longrightarrow> keeps f (collect_metricsA env spec)"
  unfolding collect_metricsA_def by (intro frames)

lemma keeps_write [frames]:
  assumes "book f" "\<And>w x. f (w\<lparr>wd_views := x\<rparr>) = f w" "\<And>w x. f (w\<lparr>wd_tables := x\<rparr>) = f w"
    "\<And>w x. f (w\<lparr>wd_conf := x\<rparr>) = f w" "\<And>w x. f (w\<lparr>wd_commits := x\<rparr>) = f w"
  shows "keeps f (writeA env spec frame view)"
  unfolding writeA_def ensure_tableA_def mergeA_def write_dfA_def
  by (intro frames keeps_execute assms)

lemma keeps_reconcile [frames]: "book f \<Longrightarrow> keeps f (reconcileA env spec sc dup nk rw view)"
  unfolding reconcileA_def violationsA_def by (intro frames)

lemma keeps_dispatch [frames]:
  "book f \<Longrightarrow> (\<And>w x. f (w\<lparr>wd_alerts := x\<rparr>) = f w) \<Longrightarrow> keeps f (dispatchA env a channels)"
  unfolding steps_def dispatchA_def book_def by auto

end
