(* ===== verification/Runner.thy ===== *)
theory Runner
  imports EngineCalls
begin

text \<open>
  The lifecycle of one table (orchestration/runner.py): start the task, read the watermark,
  extract, stage, load, reconcile, advance the watermark, close the task; and the retries.
  Logging has no effect on the world and is left out.
\<close>

section \<open>Outcomes\<close>

record task_outcome =
  to_table_fqn :: string
  to_run_id :: string
  to_status :: task_status
  to_attempt :: int
  to_metrics :: task_metrics
  to_report :: "report option"
  to_advanced :: bool
  to_error :: "exn option"
  to_duration_ms :: "int option"

definition succeeded :: "task_outcome \<Rightarrow> bool" where
  "succeeded o' = (to_status o' = TaskSucceeded)"

definition plain_outcome :: "string \<Rightarrow> string \<Rightarrow> task_status \<Rightarrow> int \<Rightarrow> task_outcome" where
  "plain_outcome fqn rid status attempt =
     \<lparr>to_table_fqn = fqn, to_run_id = rid, to_status = status, to_attempt = attempt,
      to_metrics = empty_metrics, to_report = None, to_advanced = False, to_error = None,
      to_duration_ms = None\<rparr>"

text \<open>\<open>type(error).__name__\<close>, \<open>str(error)\<close> and \<open>getattr(error, "report", None)\<close>.\<close>

fun exn_name :: "'s env \<Rightarrow> exn \<Rightarrow> string" where
  "exn_name env (PyError e) = en_error_name env e"
| "exn_name env (ReconciliationFailure r) = ''ReconciliationFailure''"

fun exn_text :: "'s env \<Rightarrow> exn \<Rightarrow> string" where
  "exn_text env (PyError e) = en_error_text env e"
| "exn_text env (ReconciliationFailure r) =
     ''reconciliation failed: '' @ join '', '' (map cr_check_name (report_failures r))"

fun exn_report :: "exn \<Rightarrow> report option" where
  "exn_report (PyError e) = None"
| "exn_report (ReconciliationFailure r) = Some r"

definition opt_int :: "int option \<Rightarrow> payload_value" where
  "opt_int n = PV (case n of None \<Rightarrow> VNone | Some k \<Rightarrow> VInt k)"

text \<open>An event of this task, buffered or flushed.\<close>

definition task_eventA ::
  "'s env \<Rightarrow> run_spec \<Rightarrow> string \<Rightarrow> event_type \<Rightarrow> payload \<Rightarrow> bool \<Rightarrow> unit act" where
  "task_eventA env spec rid ty details flush_now =
     emitA env ty (Some (table_fqn spec)) details (Some rid) flush_now"

section \<open>The lifecycle\<close>

definition read_windowA :: "'s env \<Rightarrow> run_spec \<Rightarrow> watermark_window act" where
  "read_windowA env spec =
     bindA (liftA (overlap_delta (incremental spec))) (\<lambda>overlap.
     windowA env (table_fqn spec) (rs_env spec) (in_watermark_type (incremental spec)) overlap
       (in_lower_bound_default (incremental spec)))"

definition extract_batchA :: "'s env \<Rightarrow> run_spec \<Rightarrow> string \<Rightarrow> watermark_window \<Rightarrow> extract_result act" where
  "extract_batchA env spec rid window =
     bindA (task_eventA env spec rid EXTRACT_STARTED [] False) (\<lambda>_.
     bindA (extractA env spec window) (\<lambda>extract.
     bindA (task_eventA env spec rid EXTRACT_DONE
       [(''source_count'', opt_int (er_source_count extract)),
        (''lower_bound'', text_value (er_lower_bound extract)),
        (''upper_bound'', text_value (er_upper_bound extract)),
        (''partitions'', PV (VInt (er_num_partitions extract)))] False) (\<lambda>_.
     retA extract)))"

definition stage_batchA ::
  "'s env \<Rightarrow> run_spec \<Rightarrow> string \<Rightarrow> string \<Rightarrow> view_names \<Rightarrow> extract_result \<Rightarrow> stage_result act" where
  "stage_batchA env spec rid batch_id views extract =
     bindA (nowA env) (\<lambda>ingested_at.
     stageA env spec (er_columns extract) rid batch_id ingested_at views)"

definition load_batchA ::
  "'s env \<Rightarrow> run_spec \<Rightarrow> string \<Rightarrow> view_names \<Rightarrow> stage_result \<Rightarrow> load_result act" where
  "load_batchA env spec rid views stage =
     bindA (task_eventA env spec rid LOAD_STARTED [] False) (\<lambda>_.
     bindA (writeA env spec (sr_schema stage) (vn_staged views)) (\<lambda>load.
     bindA (task_eventA env spec rid LOAD_DONE
       [(''rows_written'', opt_int (lm_rows_written (lr_metrics load))),
        (''rows_inserted'', opt_int (lm_rows_inserted (lr_metrics load))),
        (''rows_updated'', opt_int (lm_rows_updated (lr_metrics load))),
        (''table_created'', PV (VBool (lr_table_created load)))] False) (\<lambda>_.
     retA load)))"

definition reconcile_batchA ::
  "'s env \<Rightarrow> run_spec \<Rightarrow> string \<Rightarrow> view_names \<Rightarrow> extract_result \<Rightarrow> stage_result \<Rightarrow> load_result \<Rightarrow> report act" where
  "reconcile_batchA env spec rid views extract stage load =
     bindA (reconcileA env spec (er_source_count extract) (sr_duplicates_removed stage)
              (sr_null_key_rows stage) (lm_rows_written (lr_metrics load)) (vn_staged views)) (\<lambda>report.
     bindA (record_checksA env (report_rows rid (table_fqn spec) (rs_env spec) report)) (\<lambda>_.
     bindA (task_eventA env spec rid RECONCILIATION_DONE (summarize report) False) (\<lambda>_.
     retA report)))"

definition batch_metrics :: "extract_result \<Rightarrow> load_result \<Rightarrow> task_metrics" where
  "batch_metrics extract load =
     empty_metrics\<lparr>tm_source_count := er_source_count extract,
       tm_rows_read := er_source_count extract,
       tm_rows_written := lm_rows_written (lr_metrics load),
       tm_rows_inserted := lm_rows_inserted (lr_metrics load),
       tm_rows_updated := lm_rows_updated (lr_metrics load),
       tm_rows_deleted := lm_rows_deleted (lr_metrics load),
       tm_watermark_from := er_lower_bound extract,
       tm_watermark_to := er_new_watermark extract\<rparr>"

text \<open>A report with failures alerts and raises; an ok one goes on.\<close>

definition require_okA :: "'s env \<Rightarrow> run_spec \<Rightarrow> string \<Rightarrow> report \<Rightarrow> unit act" where
  "require_okA env spec rid report =
     (if report_ok report then retA ()
      else
        bindA (dispatchA env
                 (build_reconciliation_alert (table_fqn spec) (rs_env spec) rid (report_failures report))
                 (al_on_reconciliation_mismatch (rs_alerting spec))) (\<lambda>_.
        raiseA (ReconciliationFailure report)))"

text \<open>Steps 1 to 5 of \<open>_execute\<close>, up to the point where the watermark may move.\<close>

definition prepareA ::
  "'s env \<Rightarrow> run_spec \<Rightarrow> string \<Rightarrow> int \<Rightarrow> (extract_result \<times> load_result \<times> report) act" where
  "prepareA env spec rid attempt =
     bindA (freshA env) (\<lambda>batch_id.
     let views = make_view_names (table_fqn spec) rid attempt in
     bindA (read_windowA env spec) (\<lambda>window.
     bindA (extract_batchA env spec rid window) (\<lambda>extract.
     bindA (stage_batchA env spec rid batch_id views extract) (\<lambda>stage.
     bindA (load_batchA env spec rid views stage) (\<lambda>load.
     bindA (reconcile_batchA env spec rid views extract stage load) (\<lambda>report.
     bindA (require_okA env spec rid report) (\<lambda>_.
     retA (extract, load, report))))))))"

definition advance_watermarkA :: "'s env \<Rightarrow> run_spec \<Rightarrow> string \<Rightarrow> extract_result \<Rightarrow> bool act" where
  "advance_watermarkA env spec rid extract =
     (if \<not> tracks_watermark (rs_extraction spec) then retA False
      else if is_empty_batch extract then
        bindA (task_eventA env spec rid WATERMARK_HELD
          [(''reason'', PV (VStr ''no new watermark in batch''))] False) (\<lambda>_. retA False)
      else
        bindA (nowA env) (\<lambda>updated_at.
        bindA (advanceA env (table_fqn spec) (rs_env spec) (opt_value (er_new_watermark extract)) rid
                 (effective_watermark_column (incremental spec)) (scn_or_type (incremental spec))
                 updated_at) (\<lambda>advanced.
        bindA (task_eventA env spec rid (if advanced then WATERMARK_ADVANCED else WATERMARK_HELD)
          [(''value'', text_value (er_new_watermark extract)), (''advanced'', PV (VBool advanced))] False) (\<lambda>_.
        retA advanced))))"

definition close_taskA ::
  "'s env \<Rightarrow> run_spec \<Rightarrow> string \<Rightarrow> task_ref \<Rightarrow> int \<Rightarrow> pdatetime \<Rightarrow> extract_result \<Rightarrow> load_result \<Rightarrow> report \<Rightarrow>
   bool \<Rightarrow> task_outcome act" where
  "close_taskA env spec rid task attempt started extract load report advanced =
     bindA (nowA env) (\<lambda>ended.
     bindA (finish_taskA env task TaskSucceeded (batch_metrics extract load) None None started ended) (\<lambda>_.
     bindA (task_eventA env spec rid TASK_SUCCEEDED
       [(''rows_written'', opt_int (lm_rows_written (lr_metrics load))),
        (''watermark_advanced'', PV (VBool advanced))] True) (\<lambda>_.
     retA ((plain_outcome (table_fqn spec) rid TaskSucceeded attempt)
       \<lparr>to_metrics := batch_metrics extract load, to_report := Some report, to_advanced := advanced,
        to_duration_ms := duration_ms (en_float_ms env) (Some started) ended\<rparr>))))"

definition execute_taskA ::
  "'s env \<Rightarrow> run_spec \<Rightarrow> string \<Rightarrow> task_ref \<Rightarrow> int \<Rightarrow> pdatetime \<Rightarrow> task_outcome act" where
  "execute_taskA env spec rid task attempt started =
     bindA (prepareA env spec rid attempt) (\<lambda>(extract, load, report).
     bindA (advance_watermarkA env spec rid extract) (\<lambda>advanced.
     close_taskA env spec rid task attempt started extract load report advanced))"

section \<open>Skipping, failing, running\<close>

definition skip_taskA :: "'s env \<Rightarrow> run_spec \<Rightarrow> string \<Rightarrow> int \<Rightarrow> string \<Rightarrow> task_outcome act" where
  "skip_taskA env spec rid attempt reason =
     bindA (task_eventA env spec rid TASK_SKIPPED [(''reason'', PV (VStr reason))] True) (\<lambda>_.
     retA (plain_outcome (table_fqn spec) rid TaskSkipped attempt))"

definition fail_taskA ::
  "'s env \<Rightarrow> run_spec \<Rightarrow> string \<Rightarrow> task_ref \<Rightarrow> int \<Rightarrow> pdatetime \<Rightarrow> exn \<Rightarrow> task_outcome act" where
  "fail_taskA env spec rid task attempt started error =
     bindA (nowA env) (\<lambda>ended.
     bindA (quietA (finish_taskA env task TaskFailed empty_metrics (Some (exn_name env error))
              (Some (exn_text env error)) started ended)) (\<lambda>_.
     bindA (task_eventA env spec rid TASK_FAILED
       [(''error_type'', PV (VStr (exn_name env error))), (''error'', PV (VStr (exn_text env error))),
        (''attempt'', PV (VInt attempt))] True) (\<lambda>_.
     retA ((plain_outcome (table_fqn spec) rid TaskFailed attempt)
       \<lparr>to_report := exn_report error, to_error := Some error,
        to_duration_ms := duration_ms (en_float_ms env) (Some started) ended\<rparr>))))"

definition runA :: "'s env \<Rightarrow> run_spec \<Rightarrow> string \<Rightarrow> int \<Rightarrow> task_outcome act" where
  "runA env spec rid attempt =
     (if \<not> ru_enabled (rs_runtime spec) then skip_taskA env spec rid attempt ''disabled by config''
      else
        bindA (register_configA env (table_fqn spec) (rs_env spec) (rs_config_hash spec) [] rid) (\<lambda>_.
        bindA (nowA env) (\<lambda>started.
        bindA (start_taskA env rid (table_fqn spec) (rs_env spec) (ex_mode (rs_extraction spec))
                 (tg_write_mode (rs_target spec)) (rs_config_hash spec) attempt started) (\<lambda>task.
        bindA (task_eventA env spec rid TASK_STARTED
          [(''attempt'', PV (VInt attempt)), (''mode'', PV (VStr (ex_mode (rs_extraction spec))))] False) (\<lambda>_.
        catchA (execute_taskA env spec rid task attempt started)
          (fail_taskA env spec rid task attempt started))))))"

definition alert_failureA :: "'s env \<Rightarrow> run_spec \<Rightarrow> string \<Rightarrow> task_outcome \<Rightarrow> unit act" where
  "alert_failureA env spec rid o' =
     (case to_error o' of
        None \<Rightarrow> retA ()
      | Some e \<Rightarrow>
          bindA (dispatchA env
            (build_failure_alert (table_fqn spec) (rs_env spec) rid (exn_name env e) (exn_text env e)
               (to_attempt o'))
            (al_on_failure (rs_alerting spec))) (\<lambda>_. retA ()))"

text \<open>Between two attempts: the event, then the pause, if one is configured.\<close>

definition back_offA :: "'s env \<Rightarrow> run_spec \<Rightarrow> string \<Rightarrow> int \<Rightarrow> unit act" where
  "back_offA env spec rid attempt =
     (let backoff = ru_retry_backoff_seconds (rs_runtime spec) in
      bindA (task_eventA env spec rid TASK_RETRYING
        [(''attempt'', PV (VInt attempt)), (''next_attempt'', PV (VInt (attempt + 1))),
         (''backoff_s'', PV (VInt backoff))] False) (\<lambda>_.
      if backoff \<noteq> 0 then modifyA (\<lambda>w. w\<lparr>wd_sleeps := wd_sleeps w @ [backoff]\<rparr>) else retA ()))"

text \<open>The loop over \<open>range(1, attempts + 1)\<close>, with \<open>n\<close> attempts to go.\<close>

fun attemptsA ::
  "'s env \<Rightarrow> run_spec \<Rightarrow> string \<Rightarrow> int \<Rightarrow> nat \<Rightarrow> task_outcome option \<Rightarrow> task_outcome act" where
  "attemptsA env spec rid attempt 0 last_outcome =
     (case last_outcome of
        None \<Rightarrow> raiseA (PyError AssertionError)
      | Some o' \<Rightarrow> bindA (alert_failureA env spec rid o') (\<lambda>_. retA o'))"
| "attemptsA env spec rid attempt (Suc n) last_outcome =
     bindA (runA env spec rid attempt) (\<lambda>o'.
     if succeeded o' \<or> to_status o' = TaskSkipped then retA o'
     else
       bindA (if n > 0 then back_offA env spec rid attempt else retA ()) (\<lambda>_.
       attemptsA env spec rid (attempt + 1) n (Some o')))"

definition run_with_retriesA :: "'s env \<Rightarrow> run_spec \<Rightarrow> string \<Rightarrow> task_outcome act" where
  "run_with_retriesA env spec rid =
     attemptsA env spec rid 1 (nat (ru_retries (rs_runtime spec) + 1)) None"

section \<open>What the steps leave alone\<close>

lemma keeps_task_event [frames]: "book f \<Longrightarrow> keeps f (task_eventA env spec rid ty details now)"
  unfolding task_eventA_def by (rule keeps_emit)

lemma keeps_read_window [frames]: "book f \<Longrightarrow> keeps f (read_windowA env spec)"
  unfolding read_windowA_def by (intro frames)

lemma keeps_extract_batch [frames]:
  "book f \<Longrightarrow> (\<And>w x. f (w\<lparr>wd_reads := x\<rparr>) = f w) \<Longrightarrow> keeps f (extract_batchA env spec rid window)"
  unfolding extract_batchA_def by (intro frames)

lemma keeps_stage_batch [frames]:
  "book f \<Longrightarrow> (\<And>w x. f (w\<lparr>wd_views := x\<rparr>) = f w) \<Longrightarrow> keeps f (stage_batchA env spec rid b views extract)"
  unfolding stage_batchA_def by (intro frames)

lemma keeps_load_batch [frames]:
  assumes "book f" "\<And>w x. f (w\<lparr>wd_views := x\<rparr>) = f w" "\<And>w x. f (w\<lparr>wd_tables := x\<rparr>) = f w"
    "\<And>w x. f (w\<lparr>wd_conf := x\<rparr>) = f w" "\<And>w x. f (w\<lparr>wd_commits := x\<rparr>) = f w"
  shows "keeps f (load_batchA env spec rid views stage)"
  unfolding load_batchA_def by (intro frames assms)

lemma keeps_reconcile_batch [frames]:
  "book f \<Longrightarrow> (\<And>w x. f (w\<lparr>wd_checks := x\<rparr>) = f w) \<Longrightarrow>
   keeps f (reconcile_batchA env spec rid views extract stage load)"
  unfolding reconcile_batchA_def by (intro frames)

lemma keeps_require_ok [frames]:
  "book f \<Longrightarrow> (\<And>w x. f (w\<lparr>wd_alerts := x\<rparr>) = f w) \<Longrightarrow> keeps f (require_okA env spec rid report)"
  unfolding require_okA_def by (intro frames)

lemma keeps_prepare [frames]:
  assumes "book f" "\<And>w x. f (w\<lparr>wd_reads := x\<rparr>) = f w" "\<And>w x. f (w\<lparr>wd_views := x\<rparr>) = f w"
    "\<And>w x. f (w\<lparr>wd_tables := x\<rparr>) = f w" "\<And>w x. f (w\<lparr>wd_conf := x\<rparr>) = f w"
    "\<And>w x. f (w\<lparr>wd_commits := x\<rparr>) = f w" "\<And>w x. f (w\<lparr>wd_checks := x\<rparr>) = f w"
    "\<And>w x. f (w\<lparr>wd_alerts := x\<rparr>) = f w"
  shows "keeps f (prepareA env spec rid attempt)"
  unfolding prepareA_def by (intro frames assms)

lemma keeps_advance_watermark [frames]:
  "book f \<Longrightarrow> (\<And>w x. f (w\<lparr>wd_marks := x\<rparr>) = f w) \<Longrightarrow> keeps f (advance_watermarkA env spec rid extract)"
  unfolding advance_watermarkA_def by (intro frames)

lemma keeps_close_task [frames]:
  "book f \<Longrightarrow> (\<And>w x. f (w\<lparr>wd_tasks := x\<rparr>) = f w) \<Longrightarrow>
   keeps f (close_taskA env spec rid task attempt started extract load report advanced)"
  unfolding close_taskA_def by (intro frames)

lemma keeps_skip_task [frames]: "book f \<Longrightarrow> keeps f (skip_taskA env spec rid attempt reason)"
  unfolding skip_taskA_def by (intro frames)

lemma keeps_fail_task [frames]:
  "book f \<Longrightarrow> (\<And>w x. f (w\<lparr>wd_tasks := x\<rparr>) = f w) \<Longrightarrow> keeps f (fail_taskA env spec rid task attempt started e)"
  unfolding fail_taskA_def by (intro frames)

lemma keeps_back_off [frames]:
  "book f \<Longrightarrow> (\<And>w x. f (w\<lparr>wd_sleeps := x\<rparr>) = f w) \<Longrightarrow> keeps f (back_offA env spec rid attempt)"
  unfolding back_offA_def Let_def by (intro frames frame.steps_modify)

lemma keeps_alert_failure [frames]:
  "book f \<Longrightarrow> (\<And>w x. f (w\<lparr>wd_alerts := x\<rparr>) = f w) \<Longrightarrow> keeps f (alert_failureA env spec rid o')"
  unfolding alert_failureA_def by (intro frames)

section \<open>What a prepared batch has done\<close>

lemma callA_Inr:
  "callA env kind effect answer w = (Inr a, w') \<Longrightarrow>
   a = answer (wd_calls w) (effect w) \<and> w' = (effect w)\<lparr>wd_calls := wd_calls w + 1\<rparr>"
  by (auto simp: callA_def Let_def split: option.splits elim: call_error.elims
      elim!: call_effect.elims)

lemma executeA_Inr:
  "executeA env kind effect w = (Inr a, w') \<Longrightarrow> w' = (effect w)\<lparr>wd_calls := wd_calls w + 1\<rparr>"
  unfolding executeA_def by (drule callA_Inr) simp

lemma commitA_Inr:
  "commitA env spec dw w = (Inr a, w') \<Longrightarrow>
   wd_commits w' = wd_commits w @ [\<lparr>cm_target = target_fqn (rs_target spec), cm_write = dw\<rparr>]"
  unfolding commitA_def by (drule executeA_Inr) simp

definition one_load :: "run_spec \<Rightarrow> world \<Rightarrow> world \<Rightarrow> bool" where
  "one_load spec w w' =
     (\<exists>c. wd_commits w' = wd_commits w @ [c] \<and> cm_target c = target_fqn (rs_target spec))"

lemma one_load_keeps:
  "one_load spec w w1 \<Longrightarrow> wd_commits w1 = wd_commits w2 \<Longrightarrow> one_load spec w w2"
  "one_load spec w1 w2 \<Longrightarrow> wd_commits w1 = wd_commits w \<Longrightarrow> one_load spec w w2"
  by (auto simp: one_load_def)

lemma commitA_one_load: "commitA env spec dw w = (Inr a, w') \<Longrightarrow> one_load spec w w'"
  by (drule commitA_Inr) (simp add: one_load_def)

lemma mergeA_one_load:
  assumes "mergeA env spec columns view result w = (Inr load, w')"
  shows "one_load spec w w'"
proof -
  let ?evolve = "if tg_schema_evolution (rs_target spec)
            then bindA (executeA env SparkCall
                   (\<lambda>w. w\<lparr>wd_conf := dict_set (wd_conf w) auto_merge_key ''true''\<rparr>)) (\<lambda>_.
                 retA (result\<lparr>lr_schema_evolved := True\<rparr>))
            else retA result"
  have evolve: "keeps wd_commits ?evolve" by (intro frames keeps_execute) simp_all
  from assms obtain u w1 r w2 st w4 where
    1: "create_viewA env view w = (Inr u, w1)" and 2: "?evolve w1 = (Inr r, w2)" and
    3: "commitA env spec (MergeWrite st) w2 = (Inr (), w4)" "w' = w4"
    unfolding mergeA_def by (elim bindA_InrE) auto
  have "wd_commits w1 = wd_commits w" using 1 by (rule keepsD) (simp add: frames)
  moreover have "wd_commits w2 = wd_commits w1" using 2 evolve by (rule keepsD)
  ultimately show ?thesis using commitA_one_load [OF 3(1)] 3(2) by (auto intro: one_load_keeps)
qed

lemma write_dfA_one_load: "write_dfA env spec mode result w = (Inr load, w') \<Longrightarrow> one_load spec w w'"
  unfolding write_dfA_def by (elim bindA_InrE) (auto dest: commitA_one_load)

lemma writeA_one_load:
  assumes "writeA env spec frame view w = (Inr load, w')"
  shows "one_load spec w w'"
proof -
  have ensure: "keeps wd_commits (ensure_tableA env spec frame)"
    unfolding ensure_tableA_def by (intro frames keeps_execute) simp_all
  obtain st w1 res r2 w2 m w3 where
    1: "ensure_tableA env spec frame w = (Inr st, w1)" and
    2: "(if tg_write_mode (rs_target spec) = ''merge'' then mergeA env spec (map fst frame) view res
         else if tg_write_mode (rs_target spec) = ''append'' then write_dfA env spec ''append'' res
         else if tg_write_mode (rs_target spec) = ''overwrite'' then write_dfA env spec ''overwrite'' res
         else raiseA (PyError (LoadError (tg_write_mode (rs_target spec))))) w1 = (Inr r2, w2)" and
    3: "collect_metricsA env spec w2 = (Inr m, w3)" "w' = w3"
    using assms unfolding writeA_def Let_def
    by (elim bindA_InrE) (auto split: prod.splits elim!: bindA_InrE)
  have "one_load spec w1 w2"
    using 2 by (auto split: if_splits dest: mergeA_one_load write_dfA_one_load)
  moreover have "wd_commits w1 = wd_commits w" using 1 ensure by (rule keepsD)
  moreover have "wd_commits w3 = wd_commits w2" using 3(1) by (rule keepsD) (simp add: frames)
  ultimately show ?thesis using 3(2) by (auto intro: one_load_keeps)
qed

lemma load_batchA_one_load:
  assumes "load_batchA env spec rid views stage w = (Inr load, w')"
  shows "one_load spec w w'"
proof -
  obtain u w1 w2 v where
    1: "task_eventA env spec rid LOAD_STARTED [] False w = (Inr u, w1)" and
    2: "writeA env spec (sr_schema stage) (vn_staged views) w1 = (Inr load, w2)" and
    3: "task_eventA env spec rid LOAD_DONE
       [(''rows_written'', opt_int (lm_rows_written (lr_metrics load))),
        (''rows_inserted'', opt_int (lm_rows_inserted (lr_metrics load))),
        (''rows_updated'', opt_int (lm_rows_updated (lr_metrics load))),
        (''table_created'', PV (VBool (lr_table_created load)))] False w2 = (Inr v, w')"
    using assms unfolding load_batchA_def by (elim bindA_InrE) auto
  have "wd_commits w1 = wd_commits w" using 1 by (rule keepsD) (simp add: frames)
  moreover have "wd_commits w' = wd_commits w2" using 3 by (rule keepsD) (simp add: frames)
  ultimately show ?thesis using writeA_one_load [OF 2] by (auto intro: one_load_keeps)
qed

text \<open>The checks of a report as the reconciliation table holds them.\<close>

definition recorded :: "run_spec \<Rightarrow> string \<Rightarrow> report \<Rightarrow> world \<Rightarrow> world \<Rightarrow> bool" where
  "recorded spec rid report w w' =
     (\<exists>t. wd_checks w' = wd_checks w @
        map (stamp_check t) (report_rows rid (table_fqn spec) (rs_env spec) report))"

lemma record_checksA_Inr:
  "record_checksA env checks w = (Inr u, w') \<Longrightarrow>
   \<exists>t. wd_checks w' = wd_checks w @ map (stamp_check t) checks"
  unfolding record_checksA_def
  by (auto simp: nowA_def record_checks_def split: if_splits elim!: bindA_InrE dest!: executeA_Inr)

lemma reconcile_batchA_recorded:
  assumes "reconcile_batchA env spec rid views extract stage load w = (Inr report, w')"
  shows "recorded spec rid report w w'"
proof -
  obtain w1 u w2 v where
    1: "reconcileA env spec (er_source_count extract) (sr_duplicates_removed stage)
      (sr_null_key_rows stage) (lm_rows_written (lr_metrics load)) (vn_staged views) w = (Inr report, w1)" and
    2: "record_checksA env (report_rows rid (table_fqn spec) (rs_env spec) report) w1 = (Inr u, w2)" and
    3: "task_eventA env spec rid RECONCILIATION_DONE (summarize report) False w2 = (Inr v, w')"
    using assms unfolding reconcile_batchA_def by (elim bindA_InrE) auto
  have "wd_checks w1 = wd_checks w" using 1 by (rule keepsD) (simp add: frames)
  moreover have "wd_checks w' = wd_checks w2" using 3 by (rule keepsD) (simp add: frames)
  ultimately show ?thesis using record_checksA_Inr [OF 2] by (simp add: recorded_def)
qed

text \<open>
  A batch is prepared exactly when its load committed, once, its checks are recorded, and
  none of them failed.
\<close>

lemma prepareA_Inr:
  assumes "prepareA env spec rid attempt w = (Inr (extract, load, report), w')"
  shows "one_load spec w w' \<and> recorded spec rid report w w' \<and> report_ok report"
proof -
  let ?views = "make_view_names (table_fqn spec) rid attempt"
  obtain b w0 win w1 w2 st w3 w4 w5 u where
    0: "freshA env w = (Inr b, w0)" and
    1: "read_windowA env spec w0 = (Inr win, w1)" and
    2: "extract_batchA env spec rid win w1 = (Inr extract, w2)" and
    3: "stage_batchA env spec rid b ?views extract w2 = (Inr st, w3)" and
    4: "load_batchA env spec rid ?views st w3 = (Inr load, w4)" and
    5: "reconcile_batchA env spec rid ?views extract st load w4 = (Inr report, w5)" and
    6: "require_okA env spec rid report w5 = (Inr u, w')"
    using assms unfolding prepareA_def Let_def by (elim bindA_InrE) auto
  have ok: "report_ok report"
    using 6 by (auto simp: require_okA_def split: if_splits elim!: bindA_InrE)
  then have "w' = w5" using 6 by (simp add: require_okA_def)
  have before: "f w3 = f w" if f: "book f" "\<And>w x. f (w\<lparr>wd_reads := x\<rparr>) = f w"
      "\<And>w x. f (w\<lparr>wd_views := x\<rparr>) = f w" for f :: "world \<Rightarrow> 'z"
  proof -
    have "f w3 = f w2" using 3 by (rule keepsD) (intro frames f)
    also have "f w2 = f w1" using 2 by (rule keepsD) (intro frames f)
    also have "f w1 = f w0" using 1 by (rule keepsD) (intro frames f)
    also have "f w0 = f w" using 0 by (rule keepsD) (intro frames f)
    finally show ?thesis .
  qed
  have "wd_commits w3 = wd_commits w" "wd_checks w3 = wd_checks w" by (rule before; simp)+
  moreover have "wd_commits w5 = wd_commits w4" using 5 by (rule keepsD) (simp add: frames)
  moreover have "wd_checks w4 = wd_checks w3" using 4 by (rule keepsD) (simp add: frames)
  ultimately show ?thesis
    using ok load_batchA_one_load [OF 4] reconcile_batchA_recorded [OF 5] \<open>w' = w5\<close>
    by (auto simp: recorded_def intro: one_load_keeps)
qed

section \<open>Marks other than the table's own\<close>

definition other_marks :: "run_spec \<Rightarrow> world \<Rightarrow> wm_row list" where
  "other_marks spec w = filter (\<lambda>r. wm_key r \<noteq> (table_fqn spec, rs_env spec)) (wd_marks w)"

lemma other_marks_book [simp]: "book (other_marks spec)"
  by (simp add: book_def other_marks_def)

lemma other_marks_update [simp]:
  "other_marks spec (w\<lparr>wd_reads := a\<rparr>) = other_marks spec w"
  "other_marks spec (w\<lparr>wd_views := b\<rparr>) = other_marks spec w"
  "other_marks spec (w\<lparr>wd_tables := c\<rparr>) = other_marks spec w"
  "other_marks spec (w\<lparr>wd_conf := d\<rparr>) = other_marks spec w"
  "other_marks spec (w\<lparr>wd_commits := e\<rparr>) = other_marks spec w"
  "other_marks spec (w\<lparr>wd_checks := g\<rparr>) = other_marks spec w"
  "other_marks spec (w\<lparr>wd_alerts := h\<rparr>) = other_marks spec w"
  "other_marks spec (w\<lparr>wd_tasks := i\<rparr>) = other_marks spec w"
  "other_marks spec (w\<lparr>wd_registry := j\<rparr>) = other_marks spec w"
  by (simp_all add: other_marks_def)

lemma keeps_other_marks:
  "keeps (other_marks spec) (advance_watermarkA env spec rid extract)"
proof -
  have advance: "keeps (other_marks spec) (advanceA env (table_fqn spec) (rs_env spec) v rid col ty t)" for v col ty t
    unfolding advanceA_def Let_def
  proof (intro frames keeps_execute other_marks_book)
    fix c w
    show "other_marks spec (w\<lparr>wd_marks := merge_advance (en_casts env)
        (wm_make_params (table_fqn spec) (rs_env spec) col ty c rid t) (wd_marks w)\<rparr>) = other_marks spec w"
      using advanced.step_frame [of "wm_make_params (table_fqn spec) (rs_env spec) col ty c rid t"]
      by (simp add: other_marks_def wm_target_def wm_make_params_def)
  qed
  show ?thesis
    unfolding advance_watermarkA_def
    by (intro advance frame.steps_rules keeps_now keeps_task_event other_marks_book)
qed

section \<open>Running one attempt\<close>

text \<open>An action composed of a batch that is prepared and of what follows.\<close>

lemma execute_cases:
  assumes "execute_taskA env spec rid task attempt started w = (r, w')"
  obtains (unprepared) e where "prepareA env spec rid attempt w = (Inl e, w')" "r = Inl e"
  | (prepared) ex load report w1 where
      "prepareA env spec rid attempt w = (Inr (ex, load, report), w1)"
      "bindA (advance_watermarkA env spec rid ex)
         (close_taskA env spec rid task attempt started ex load report) w1 = (r, w')"
proof (cases "prepareA env spec rid attempt w")
  case (Pair p w1)
  with assms that show ?thesis
    by (cases p) (auto simp: execute_taskA_def bindA_def)
qed

lemma keeps_execute_task:
  assumes "book f" "\<And>w x. f (w\<lparr>wd_reads := x\<rparr>) = f w" "\<And>w x. f (w\<lparr>wd_views := x\<rparr>) = f w"
    "\<And>w x. f (w\<lparr>wd_tables := x\<rparr>) = f w" "\<And>w x. f (w\<lparr>wd_conf := x\<rparr>) = f w"
    "\<And>w x. f (w\<lparr>wd_commits := x\<rparr>) = f w" "\<And>w x. f (w\<lparr>wd_checks := x\<rparr>) = f w"
    "\<And>w x. f (w\<lparr>wd_alerts := x\<rparr>) = f w" "\<And>w x. f (w\<lparr>wd_tasks := x\<rparr>) = f w"
    "\<And>ex. keeps f (advance_watermarkA env spec rid ex)"
  shows "keeps f (execute_taskA env spec rid task attempt started)"
  unfolding execute_taskA_def by (intro frames assms)

lemma execute_marks:
  assumes "execute_taskA env spec rid task attempt started w = (r, w')" "wd_marks w' \<noteq> wd_marks w"
  shows "one_load spec w w' \<and> (\<exists>report. recorded spec rid report w w' \<and> report_ok report)"
  using assms(1)
proof (cases rule: execute_cases)
  case (unprepared e)
  have "wd_marks w' = wd_marks w"
    using unprepared(1) by (rule keepsD) (simp add: frames)
  with assms(2) show ?thesis by simp
next
  case (prepared ex load report w1)
  have "wd_commits w' = wd_commits w1" "wd_checks w' = wd_checks w1"
    using prepared(2) by (rule keepsD, intro frames, simp_all)+
  with prepareA_Inr [OF prepared(1)] show ?thesis
    by (auto simp: recorded_def intro: one_load_keeps)
qed

text \<open>What comes before \<open>_execute\<close>, and the cases of an enabled run.\<close>

definition openA :: "'s env \<Rightarrow> run_spec \<Rightarrow> string \<Rightarrow> int \<Rightarrow> (pdatetime \<times> task_ref) act" where
  "openA env spec rid attempt =
     bindA (register_configA env (table_fqn spec) (rs_env spec) (rs_config_hash spec) [] rid) (\<lambda>_.
     bindA (nowA env) (\<lambda>started.
     bindA (start_taskA env rid (table_fqn spec) (rs_env spec) (ex_mode (rs_extraction spec))
              (tg_write_mode (rs_target spec)) (rs_config_hash spec) attempt started) (\<lambda>task.
     bindA (task_eventA env spec rid TASK_STARTED
       [(''attempt'', PV (VInt attempt)), (''mode'', PV (VStr (ex_mode (rs_extraction spec))))] False) (\<lambda>_.
     retA (started, task)))))"

lemma bindA_assoc: "bindA (bindA m f) g = bindA m (\<lambda>a. bindA (f a) g)"
  by (auto simp: bindA_def fun_eq_iff split: prod.split sum.split)

lemma runA_open:
  "runA env spec rid attempt =
     (if \<not> ru_enabled (rs_runtime spec) then skip_taskA env spec rid attempt ''disabled by config''
      else bindA (openA env spec rid attempt) (\<lambda>(started, task).
        catchA (execute_taskA env spec rid task attempt started)
          (fail_taskA env spec rid task attempt started)))"
  by (simp add: runA_def openA_def bindA_assoc)

lemma keeps_open:
  "book f \<Longrightarrow> (\<And>w x. f (w\<lparr>wd_tasks := x\<rparr>) = f w) \<Longrightarrow> (\<And>w x. f (w\<lparr>wd_registry := x\<rparr>) = f w) \<Longrightarrow>
   keeps f (openA env spec rid attempt)"
  unfolding openA_def by (intro frames)

lemma run_cases:
  assumes "runA env spec rid attempt w = (r, w')" "ru_enabled (rs_runtime spec)"
  obtains (unopened) e where "openA env spec rid attempt w = (Inl e, w')" "r = Inl e"
  | (finished) started task w1 o' where "openA env spec rid attempt w = (Inr (started, task), w1)"
      "execute_taskA env spec rid task attempt started w1 = (Inr o', w')" "r = Inr o'"
  | (failed) started task w1 e w2 where "openA env spec rid attempt w = (Inr (started, task), w1)"
      "execute_taskA env spec rid task attempt started w1 = (Inl e, w2)"
      "fail_taskA env spec rid task attempt started e w2 = (r, w')"
proof (cases "openA env spec rid attempt w")
  case (Pair p w1)
  show ?thesis
  proof (cases p)
    case (Inl e)
    with Pair assms that(1) show ?thesis by (auto simp: runA_open bindA_def)
  next
    case (Inr st)
    obtain started task where st: "st = (started, task)" by (cases st)
    obtain q w2 where q: "execute_taskA env spec rid task attempt started w1 = (q, w2)"
      by (cases "execute_taskA env spec rid task attempt started w1")
    with Pair Inr st assms that(2,3) show ?thesis
      by (cases q) (auto simp: runA_open bindA_def catchA_def)
  qed
qed

lemma run_marks:
  assumes "runA env spec rid attempt w = (r, w')" "wd_marks w' \<noteq> wd_marks w"
  shows "ru_enabled (rs_runtime spec) \<and> one_load spec w w' \<and>
    (\<exists>report. recorded spec rid report w w' \<and> report_ok report)"
proof -
  have enabled: "ru_enabled (rs_runtime spec)"
  proof (rule ccontr)
    assume "\<not> ?thesis"
    then have "keeps wd_marks (runA env spec rid attempt)"
      unfolding runA_open by (simp add: frames)
    with assms(1) have "wd_marks w' = wd_marks w" by (rule keepsD)
    with assms(2) show False by simp
  qed
  have opened: "f w1 = f w" if "openA env spec rid attempt w = (p, w1)" "book f"
    "\<And>w x. f (w\<lparr>wd_tasks := x\<rparr>) = f w" "\<And>w x. f (w\<lparr>wd_registry := x\<rparr>) = f w"
    for f :: "world \<Rightarrow> 'z" and p w1
    using that(1) by (rule keepsD) (rule keeps_open, fact+)
  from assms(1) enabled show ?thesis
  proof (cases rule: run_cases)
    case (unopened e)
    from opened [OF unopened(1), of wd_marks] assms(2) show ?thesis by simp
  next
    case (finished started task w1 o')
    note same = opened [OF finished(1)]
    have "wd_marks w' \<noteq> wd_marks w1" using assms(2) same [of wd_marks] by simp
    from execute_marks [OF finished(2) this] same [of wd_commits] same [of wd_checks] enabled
    show ?thesis by (auto simp: recorded_def intro: one_load_keeps)
  next
    case (failed started task w1 e w2)
    note same = opened [OF failed(1)]
    have fail: "f w' = f w2" if "book f" "\<And>w x. f (w\<lparr>wd_tasks := x\<rparr>) = f w" for f :: "world \<Rightarrow> 'z"
      using failed(3) by (rule keepsD) (rule keeps_fail_task, fact+)
    have "wd_marks w2 \<noteq> wd_marks w1"
      using assms(2) same [of wd_marks] fail [of wd_marks] by simp
    from execute_marks [OF failed(2) this] same [of wd_commits] same [of wd_checks]
      fail [of wd_commits] fail [of wd_checks] enabled
    show ?thesis by (auto simp: recorded_def intro: one_load_keeps)
  qed
qed

lemma run_other_marks: "runA env spec rid attempt w = (r, w') \<Longrightarrow> other_marks spec w' = other_marks spec w"
proof (erule keepsD)
  show "keeps (other_marks spec) (runA env spec rid attempt)"
    unfolding runA_open
    by (intro frames keeps_open keeps_execute_task keeps_other_marks) simp_all
qed

section \<open>Where a reconciliation failure comes from\<close>

text \<open>Actions that raise nothing but exceptions of the code and its libraries.\<close>

definition plain :: "'a act \<Rightarrow> bool" where
  "plain m = (\<forall>w r w'. m w \<noteq> (Inl (ReconciliationFailure r), w'))"

named_theorems plains \<open>actions that raise no reconciliation failure\<close>

lemma plain_basic [plains]:
  "plain (retA a)" "plain (liftA x)" "plain (raiseA (PyError e))" "plain (nowA env)" "plain (freshA env)"
  "plain (callA env kind effect answer)" "plain (executeA env kind effect)" "plain (queryA env kind ans)"
  "plain (emitA env ty fqn payload rid now)" "plain (modifyA g)" "plain (dispatchA env al channels)"
  by (cases x; auto simp: plain_def retA_def raiseA_def nowA_def freshA_def callA_def executeA_def queryA_def
      emitA_def modifyA_def dispatchA_def Let_def liftA_def split: option.splits prod.splits sum.splits)+

lemma plain_bind [plains]: "plain m \<Longrightarrow> (\<And>a. plain (f a)) \<Longrightarrow> plain (bindA m f)"
  unfolding plain_def bindA_def by (auto split: prod.splits sum.splits)

lemma plain_catch [plains]: "(\<And>e. plain (h e)) \<Longrightarrow> plain (catchA m h)"
  unfolding plain_def catchA_def by (auto split: prod.splits sum.splits)

lemma plain_control [plains]:
  "plain m \<Longrightarrow> plain n \<Longrightarrow> plain (if b then m else n)"
  "plain m \<Longrightarrow> (\<And>a. plain (g a)) \<Longrightarrow> plain (case x of None \<Rightarrow> m | Some a \<Rightarrow> g a)"
  "(\<And>a b. plain (p a b)) \<Longrightarrow> plain (case y of (a, b) \<Rightarrow> p a b)"
  "(\<And>a. plain (q a)) \<Longrightarrow> plain (let a = z in q a)"
  by (auto split: option.split prod.split)

lemma plain_each [plains]: "(\<And>x. plain (f x)) \<Longrightarrow> plain (eachA f xs)"
  by (induction xs) (auto intro: plains)

lemma plain_calls [plains]:
  "plain (task_eventA env spec rid ty details now)" "plain (create_viewA env view)"
  "plain (get_markA env fqn e)" "plain (commitA env spec dw)" "plain (readA env answer options)"
  by (simp_all add: task_eventA_def create_viewA_def get_markA_def commitA_def readA_def plains)

lemma plain_extract [plains]: "plain (extractA env spec w)"
  unfolding extractA_def credentialsA_def probe_upper_boundA_def build_queryA_def load_query_fileA_def
    probe_partition_boundsA_def count_sourceA_def probe_max_watermarkA_def scalarA_def
  by (intro plains) (auto intro!: plains split: bounds_source.split)

lemma plain_collect: "plain (collect_metricsA env spec)"
proof -
  have m: "plain (bindA (queryA env SparkCall f) (\<lambda>rows. retA (Some rows)))" for f :: "nat \<Rightarrow> world \<Rightarrow> 'z"
    by (intro plains)
  show ?thesis
    unfolding collect_metricsA_def plain_def
    using m [unfolded plain_def]
    by (auto simp: bindA_def catchA_def split: prod.splits sum.splits if_splits)
qed

lemma plain_steps [plains]:
  "plain (read_windowA env spec)" "plain (extract_batchA env spec rid win)"
  "plain (stage_batchA env spec rid b views ex)" "plain (load_batchA env spec rid views st)"
  "plain (reconcile_batchA env spec rid views ex st load)"
  "plain (advance_watermarkA env spec rid ex)"
  "plain (close_taskA env spec rid task attempt started ex load report advanced)"
  unfolding read_windowA_def windowA_def extract_batchA_def stage_batchA_def stageA_def spark_countA_def
    load_batchA_def writeA_def ensure_tableA_def mergeA_def write_dfA_def reconcile_batchA_def
    reconcileA_def violationsA_def record_checksA_def advance_watermarkA_def advanceA_def close_taskA_def
    finish_taskA_def
  by (intro plains plain_collect)+

lemma plain_InlD: "plain m \<Longrightarrow> m w = (Inl (ReconciliationFailure r), w') \<Longrightarrow> P"
  by (simp add: plain_def)

lemma require_ok_failure:
  assumes "require_okA env spec rid report w = (Inl (ReconciliationFailure r), w')"
  shows "r = report \<and> \<not> report_ok r"
proof -
  have "plain (dispatchA env a cs)" for a cs by (rule plains)
  with assms show ?thesis
    by (auto simp: require_okA_def split: if_splits elim!: bindA_InlE dest: plain_InlD)
qed

lemma prepare_failure:
  "prepareA env spec rid attempt w = (Inl (ReconciliationFailure r), w') \<Longrightarrow> \<not> report_ok r"
  unfolding prepareA_def Let_def
  by (elim bindA_InlE) (auto dest: require_ok_failure plain_InlD [rotated] intro: plains)

lemma execute_failure:
  assumes "execute_taskA env spec rid task attempt started w = (Inl (ReconciliationFailure r), w')"
  shows "\<not> report_ok r \<and> wd_marks w' = wd_marks w"
  using assms
proof (cases rule: execute_cases)
  case (unprepared e)
  have "wd_marks w' = wd_marks w" using unprepared(1) by (rule keepsD) (simp add: frames)
  with unprepared prepare_failure show ?thesis by fastforce
next
  case (prepared ex load report w1)
  have "plain (bindA (advance_watermarkA env spec rid ex)
         (close_taskA env spec rid task attempt started ex load report))" by (intro plains)
  with prepared(2) show ?thesis by (auto dest: plain_InlD)
qed

section \<open>Outcomes and task rows\<close>

lemma close_task_Inr:
  assumes "close_taskA env spec rid task attempt started ex load report advanced w = (Inr o', w')"
  shows "to_status o' = TaskSucceeded \<and> to_report o' = Some report \<and> to_error o' = None \<and>
    to_attempt o' = attempt \<and> to_advanced o' = advanced"
  using assms by (auto simp: close_taskA_def plain_outcome_def elim!: bindA_InrE)

lemma execute_Inr:
  assumes "execute_taskA env spec rid task attempt started w = (Inr o', w')"
  shows "\<exists>report. to_status o' = TaskSucceeded \<and> to_error o' = None \<and> to_attempt o' = attempt \<and>
    to_report o' = Some report \<and> report_ok report \<and> one_load spec w w' \<and> recorded spec rid report w w'"
  using assms
proof (cases rule: execute_cases)
  case (prepared ex load report w1)
  have "wd_commits w' = wd_commits w1" "wd_checks w' = wd_checks w1"
    using prepared(2) by (rule keepsD, intro frames, simp_all)+
  with prepareA_Inr [OF prepared(1)]
  have batch: "one_load spec w w'" "recorded spec rid report w w'" "report_ok report"
    by (auto simp: recorded_def intro: one_load_keeps)
  obtain adv w2 where
    "close_taskA env spec rid task attempt started ex load report adv w2 = (Inr o', w')"
    using prepared(2) by (elim bindA_InrE) simp
  from close_task_Inr [OF this] batch show ?thesis by blast
qed simp

lemma fail_task_Inr:
  assumes "fail_taskA env spec rid task attempt started e w = (Inr o', w')"
  shows "to_status o' = TaskFailed \<and> to_error o' = Some e \<and> to_report o' = exn_report e \<and>
    to_attempt o' = attempt"
  using assms by (auto simp: fail_taskA_def plain_outcome_def elim!: bindA_InrE)

lemma run_outcome:
  assumes run: "runA env spec rid attempt w = (Inr o', w')" and on: "ru_enabled (rs_runtime spec)"
  shows "to_attempt o' = attempt \<and>
    (case to_error o' of
       None \<Rightarrow> to_status o' = TaskSucceeded \<and> one_load spec w w' \<and>
         (\<exists>report. to_report o' = Some report \<and> report_ok report \<and> recorded spec rid report w w')
     | Some e \<Rightarrow> to_status o' = TaskFailed \<and> to_report o' = exn_report e \<and>
         (\<forall>report. e = ReconciliationFailure report \<longrightarrow> \<not> report_ok report \<and> wd_marks w' = wd_marks w))"
  using run on
proof (cases rule: run_cases)
  case (finished started task w1 o1)
  have "f w1 = f w" if "book f" "\<And>w x. f (w\<lparr>wd_tasks := x\<rparr>) = f w" "\<And>w x. f (w\<lparr>wd_registry := x\<rparr>) = f w"
    for f :: "world \<Rightarrow> 'z"
    using finished(1) by (rule keepsD) (rule keeps_open, fact+)
  from this [of wd_commits] this [of wd_checks] execute_Inr [OF finished(2)] finished(3)
  show ?thesis by (auto simp: recorded_def intro: one_load_keeps)
next
  case (failed started task w1 e w2)
  have "wd_marks w1 = wd_marks w" using failed(1) by (rule keepsD) (rule keeps_open, simp_all)
  moreover have "wd_marks w' = wd_marks w2" using failed(3) by (rule keepsD) (simp add: frames)
  ultimately show ?thesis
    using fail_task_Inr [OF failed(3)] execute_failure failed(2) by fastforce
qed simp

text \<open>The control store and the audit log answer; anything else may fail at any point.\<close>

definition control_up :: "'s env \<Rightarrow> bool" where
  "control_up env =
     (\<forall>n. en_fault env ControlCall n = NoFault \<and> en_fault env AuditCall n = NoFault)"

lemma emit_up: "control_up env \<Longrightarrow> \<exists>w'. emitA env ty fqn payload rid now w = (Inr (), w')"
  by (auto simp: control_up_def emitA_def emit_def flush_def Let_def split: prod.split)

lemma event_up: "control_up env \<Longrightarrow> \<exists>w'. task_eventA env spec rid ty details now w = (Inr (), w')"
  unfolding task_eventA_def by (rule emit_up)

lemma control_call_up:
  "control_up env \<Longrightarrow> executeA env ControlCall effect w = (Inr (), (effect w)\<lparr>wd_calls := wd_calls w + 1\<rparr>)"
  by (simp add: control_up_def executeA_def callA_def)

lemma finish_task_up:
  assumes "control_up env" "task_step TaskRunning status"
  shows "\<exists>w'. finish_taskA env ref status m et msg started ended w = (Inr (), w') \<and>
    wd_tasks w' = update_task ref status m et (truncate_text truncate_limit msg)
      (duration_ms (en_float_ms env) (Some started) ended) ended (wd_tasks w)"
  using assms by (simp add: finish_taskA_def task_step_def control_call_up)

lemma open_up:
  assumes "control_up env"
  shows "\<exists>started w1. openA env spec rid attempt w =
      (Inr (started, \<lparr>tr_run_id = rid, tr_table_fqn = table_fqn spec, tr_attempt = attempt\<rparr>), w1) \<and>
    wd_tasks w1 = wd_tasks w @
      [start_task_row rid (table_fqn spec) (rs_env spec) (ex_mode (rs_extraction spec))
        (tg_write_mode (rs_target spec)) (rs_config_hash spec) attempt None started]"
proof -
  let ?ref = "\<lparr>tr_run_id = rid, tr_table_fqn = table_fqn spec, tr_attempt = attempt\<rparr>"
  let ?row = "\<lambda>started. start_task_row rid (table_fqn spec) (rs_env spec) (ex_mode (rs_extraction spec))
        (tg_write_mode (rs_target spec)) (rs_config_hash spec) attempt None started"
  obtain w1 where 1: "register_configA env (table_fqn spec) (rs_env spec) (rs_config_hash spec) [] rid w = (Inr (), w1)"
    using assms by (simp add: register_configA_def bindA_def nowA_def control_call_up)
  have t1: "wd_tasks w1 = wd_tasks w" using 1 by (rule keepsD) (simp add: frames)
  obtain started w2 where 2: "nowA env w1 = (Inr started, w2)" by (simp add: nowA_def)
  have t2: "wd_tasks w2 = wd_tasks w1" using 2 by (rule keepsD) (simp add: frames)
  obtain w3 where 3: "start_taskA env rid (table_fqn spec) (rs_env spec) (ex_mode (rs_extraction spec))
      (tg_write_mode (rs_target spec)) (rs_config_hash spec) attempt started w2 = (Inr ?ref, w3)"
    and t3: "wd_tasks w3 = wd_tasks w2 @ [?row started]"
    using assms by (simp add: start_taskA_def bindA_def control_call_up insert_task_def)
  obtain w4 where 4: "task_eventA env spec rid TASK_STARTED
      [(''attempt'', PV (VInt attempt)), (''mode'', PV (VStr (ex_mode (rs_extraction spec))))] False w3 = (Inr (), w4)"
    using event_up [OF assms] by blast
  have t4: "wd_tasks w4 = wd_tasks w3" using 4 by (rule keepsD) (simp add: frames)
  have "openA env spec rid attempt w = (Inr (started, ?ref), w4)"
    by (simp add: openA_def bindA_def 1 2 3 4)
  with t1 t2 t3 t4 show ?thesis by auto
qed

lemma fail_task_up:
  assumes "control_up env"
  shows "\<exists>o' w' dur ended. fail_taskA env spec rid ref attempt started e w = (Inr o', w') \<and>
    to_status o' = TaskFailed \<and> to_attempt o' = attempt \<and> to_error o' = Some e \<and>
    wd_tasks w' = update_task ref TaskFailed empty_metrics (Some (exn_name env e))
      (truncate_text truncate_limit (Some (exn_text env e))) dur ended (wd_tasks w)"
proof -
  obtain ended w1 where 1: "nowA env w = (Inr ended, w1)" by (simp add: nowA_def)
  have t1: "wd_tasks w1 = wd_tasks w" using 1 by (rule keepsD) (simp add: frames)
  have "task_step TaskRunning TaskFailed" by (simp add: task_step_iff)
  from finish_task_up [OF assms this] obtain w2 where
    2: "finish_taskA env ref TaskFailed empty_metrics (Some (exn_name env e)) (Some (exn_text env e))
      started ended w1 = (Inr (), w2)" and
    t2: "wd_tasks w2 = update_task ref TaskFailed empty_metrics (Some (exn_name env e))
      (truncate_text truncate_limit (Some (exn_text env e)))
      (duration_ms (en_float_ms env) (Some started) ended) ended (wd_tasks w1)" by blast
  have q: "quietA (finish_taskA env ref TaskFailed empty_metrics (Some (exn_name env e))
      (Some (exn_text env e)) started ended) w1 = (Inr (), w2)"
    by (simp add: quietA_def catchA_def bindA_def 2)
  obtain w3 where 3: "task_eventA env spec rid TASK_FAILED
      [(''error_type'', PV (VStr (exn_name env e))), (''error'', PV (VStr (exn_text env e))),
       (''attempt'', PV (VInt attempt))] True w2 = (Inr (), w3)"
    using event_up [OF assms] by blast
  have t3: "wd_tasks w3 = wd_tasks w2" using 3 by (rule keepsD) (simp add: frames)
  show ?thesis
    unfolding fail_taskA_def
    by (auto simp: bindA_def 1 q 3 t1 t2 t3 plain_outcome_def)
qed

lemma close_task_up:
  assumes "control_up env"
  shows "\<exists>o' w' dur ended. close_taskA env spec rid ref attempt started ex load report advanced w = (Inr o', w') \<and>
    wd_tasks w' = update_task ref TaskSucceeded (batch_metrics ex load) None None dur ended (wd_tasks w)"
proof -
  obtain ended w1 where 1: "nowA env w = (Inr ended, w1)" by (simp add: nowA_def)
  have t1: "wd_tasks w1 = wd_tasks w" using 1 by (rule keepsD) (simp add: frames)
  have "task_step TaskRunning TaskSucceeded" by (simp add: task_step_iff)
  from finish_task_up [OF assms this] obtain w2 where
    2: "finish_taskA env ref TaskSucceeded (batch_metrics ex load) None None started ended w1 = (Inr (), w2)" and
    t2: "wd_tasks w2 = update_task ref TaskSucceeded (batch_metrics ex load) None
      (truncate_text truncate_limit None) (duration_ms (en_float_ms env) (Some started) ended) ended
      (wd_tasks w1)" by blast
  obtain w3 where 3: "task_eventA env spec rid TASK_SUCCEEDED
       [(''rows_written'', opt_int (lm_rows_written (lr_metrics load))),
        (''watermark_advanced'', PV (VBool advanced))] True w2 = (Inr (), w3)"
    using event_up [OF assms] by blast
  have t3: "wd_tasks w3 = wd_tasks w2" using 3 by (rule keepsD) (simp add: frames)
  show ?thesis
    unfolding close_taskA_def by (auto simp: bindA_def 1 2 3 t1 t2 t3 truncate_text_def)
qed

lemma execute_tasks_up:
  assumes up: "control_up env" and run: "execute_taskA env spec rid ref attempt started w = (r, w')"
  shows "case r of
      Inl e \<Rightarrow> wd_tasks w' = wd_tasks w
    | Inr o' \<Rightarrow> \<exists>m dur ended. wd_tasks w' = update_task ref TaskSucceeded m None None dur ended (wd_tasks w)"
  using run
proof (cases rule: execute_cases)
  case (unprepared e)
  have "wd_tasks w' = wd_tasks w" using unprepared(1) by (rule keepsD) (simp add: frames)
  with unprepared(2) show ?thesis by simp
next
  case (prepared ex load report w1)
  have t1: "wd_tasks w1 = wd_tasks w" using prepared(1) by (rule keepsD) (simp add: frames)
  obtain p w2 where 2: "advance_watermarkA env spec rid ex w1 = (p, w2)"
    by (cases "advance_watermarkA env spec rid ex w1")
  have t2: "wd_tasks w2 = wd_tasks w1" using 2 by (rule keepsD) (simp add: frames)
  show ?thesis
  proof (cases p)
    case (Inl e)
    with 2 prepared(2) t1 t2 show ?thesis by (auto simp: bindA_def)
  next
    case (Inr advanced)
    obtain o' w3 dur ended where
      3: "close_taskA env spec rid ref attempt started ex load report advanced w2 = (Inr o', w3)" and
      t3: "wd_tasks w3 = update_task ref TaskSucceeded (batch_metrics ex load) None None dur ended (wd_tasks w2)"
      using close_task_up [OF up] by blast
    from 2 3 Inr prepared(2) have "r = Inr o'" "w' = w3" by (simp_all add: bindA_def)
    with t1 t2 t3 show ?thesis by fastforce
  qed
qed

text \<open>The row of a task that is closed.\<close>

definition closed_row :: "string \<Rightarrow> string \<Rightarrow> int \<Rightarrow> task_status \<Rightarrow> task_row \<Rightarrow> bool" where
  "closed_row rid fqn attempt status t =
     (task_key t = (rid, fqn, attempt) \<and> task_status t = task_status_value status \<and>
      task_ended_at t \<noteq> None \<and> (task_error_type t \<noteq> None \<longleftrightarrow> status = TaskFailed))"

lemma update_task_last:
  assumes "ref_key ref \<notin> set (map task_key ts)" "task_key t = ref_key ref"
  shows "update_task ref st m et msg d e (ts @ [t]) = ts @ [finish_task_row st m et msg d e t]"
proof -
  have "map (\<lambda>t. if is_task ref t then finish_task_row st m et msg d e t else t) ts = ts"
  proof (rule map_idI)
    fix x assume "x \<in> set ts"
    then have "task_key x \<noteq> ref_key ref" using assms(1) by (metis image_eqI set_map)
    then show "(if is_task ref x then finish_task_row st m et msg d e x else x) = x"
      by (simp add: is_task_key)
  qed
  with assms(2) show ?thesis by (simp add: update_task_def is_task_key)
qed

lemma run_up:
  assumes up: "control_up env" and on: "ru_enabled (rs_runtime spec)"
    and fresh: "(rid, table_fqn spec, attempt) \<notin> set (map task_key (wd_tasks w))"
  shows "\<exists>o' w' t. runA env spec rid attempt w = (Inr o', w') \<and> to_attempt o' = attempt \<and>
    to_status o' \<in> {TaskSucceeded, TaskFailed} \<and> (to_error o' \<noteq> None \<longleftrightarrow> to_status o' = TaskFailed) \<and>
    wd_tasks w' = wd_tasks w @ [t] \<and> closed_row rid (table_fqn spec) attempt (to_status o') t"
proof -
  let ?ref = "\<lparr>tr_run_id = rid, tr_table_fqn = table_fqn spec, tr_attempt = attempt\<rparr>"
  obtain started w1 row where
    1: "openA env spec rid attempt w = (Inr (started, ?ref), w1)" and
    t1: "wd_tasks w1 = wd_tasks w @ [row]" and key: "task_key row = (rid, table_fqn spec, attempt)"
    and none: "task_error_type row = None"
    using open_up [OF up, of spec rid attempt w] by (fastforce simp: task_key_def start_task_row_def)
  have ref: "ref_key ?ref = (rid, table_fqn spec, attempt)" by (simp add: ref_key_def)
  have upd: "update_task ?ref st m et msg d e (wd_tasks w1) =
      wd_tasks w @ [finish_task_row st m et msg d e row]" for st m et msg d e
    unfolding t1 by (rule update_task_last) (simp_all only: ref key fresh not_False_eq_True)
  have row: "closed_row rid (table_fqn spec) attempt st (finish_task_row st m et msg d e row)"
    if "et \<noteq> None \<longleftrightarrow> st = TaskFailed" for st m et msg d e
    using that key by (simp add: closed_row_def) (simp add: finish_task_row_def)
  obtain p w2 where 2: "execute_taskA env spec rid ?ref attempt started w1 = (p, w2)"
    by (cases "execute_taskA env spec rid ?ref attempt started w1")
  note t2 = execute_tasks_up [OF up 2]
  show ?thesis
  proof (cases p)
    case (Inr o')
    with 1 2 on have "runA env spec rid attempt w = (Inr o', w2)"
      by (simp add: runA_open bindA_def catchA_def)
    moreover have "to_attempt o' = attempt \<and> to_status o' = TaskSucceeded \<and> to_error o' = None"
      using execute_Inr 2 Inr by blast
    moreover obtain m dur ended where
      "wd_tasks w2 = wd_tasks w @ [finish_task_row TaskSucceeded m None None dur ended row]"
      using t2 Inr by (auto simp: upd)
    moreover have "closed_row rid (table_fqn spec) attempt TaskSucceeded
        (finish_task_row TaskSucceeded m None None dur ended row)"
      by (rule row) simp
    ultimately show ?thesis by auto
  next
    case (Inl e)
    from fail_task_up [OF up, of spec rid ?ref attempt started e w2] obtain o' w3 dur ended where
      3: "fail_taskA env spec rid ?ref attempt started e w2 = (Inr o', w3)" and
      o': "to_status o' = TaskFailed" "to_attempt o' = attempt" "to_error o' = Some e" and
      t3: "wd_tasks w3 = update_task ?ref TaskFailed empty_metrics (Some (exn_name env e))
        (truncate_text truncate_limit (Some (exn_text env e))) dur ended (wd_tasks w2)" by blast
    from 1 2 3 Inl on have "runA env spec rid attempt w = (Inr o', w3)"
      by (simp add: runA_open bindA_def catchA_def)
    moreover have "wd_tasks w2 = wd_tasks w1" using t2 Inl by simp
    moreover have "closed_row rid (table_fqn spec) attempt TaskFailed
        (finish_task_row TaskFailed empty_metrics (Some (exn_name env e))
          (truncate_text truncate_limit (Some (exn_text env e))) dur ended row)"
      by (rule row) simp
    ultimately show ?thesis using t3 o' by (auto simp: upd)
  qed
qed

section \<open>Retries\<close>

text \<open>Rows of consecutive attempts, all failed but the last, which has the status given.\<close>

fun closed_attempts :: "string \<Rightarrow> string \<Rightarrow> int \<Rightarrow> task_status \<Rightarrow> task_row list \<Rightarrow> bool" where
  "closed_attempts rid fqn a st [] = False"
| "closed_attempts rid fqn a st [t] = closed_row rid fqn a st t"
| "closed_attempts rid fqn a st (t # ts) =
     (closed_row rid fqn a TaskFailed t \<and> closed_attempts rid fqn (a + 1) st ts)"

lemma closed_attempts_Cons:
  "ts \<noteq> [] \<Longrightarrow> closed_attempts rid fqn a st (t # ts) =
     (closed_row rid fqn a TaskFailed t \<and> closed_attempts rid fqn (a + 1) st ts)"
  by (cases ts) simp_all

definition polite_senders :: "'s env \<Rightarrow> bool" where
  "polite_senders env = (\<forall>n s c a e. en_send env n s c a = Some e \<longrightarrow> is_exception e)"

lemma dispatch_up:
  assumes "polite_senders env"
  shows "\<exists>r w'. dispatchA env a channels w = (Inr r, w')"
proof -
  let ?r = "\<lparr>dr_delivered = [], dr_failed = [], dr_unroutable = []\<rparr>"
  have "\<exists>r. dispatch (en_senders env) (en_fallback env) (en_send env (wd_calls w)) a channels = Inr r"
    unfolding dispatch_def
  proof -
    have "is_exception e" if "en_send env (wd_calls w) (route (en_senders env) (en_fallback env) c) c a = Some e"
      for c e using assms that by (auto simp: polite_senders_def)
    then show "\<exists>r. dispatch_loop (en_senders env) (en_fallback env) (en_send env (wd_calls w)) a channels ?r = Inr r"
      using dispatch_loop_ok [of "en_send env (wd_calls w)" "en_senders env" "en_fallback env" a channels ?r]
      by meson
  qed
  then show ?thesis by (auto simp: dispatchA_def)
qed

lemma alert_failure_up:
  assumes "polite_senders env"
  shows "\<exists>w'. alert_failureA env spec rid o' w = (Inr (), w')"
proof (cases "to_error o'")
  case (Some e)
  obtain r w' where "dispatchA env (build_failure_alert (table_fqn spec) (rs_env spec) rid (exn_name env e)
      (exn_text env e) (to_attempt o')) (al_on_failure (rs_alerting spec)) w = (Inr r, w')"
    using dispatch_up [OF assms] by blast
  with Some show ?thesis by (auto simp: alert_failureA_def bindA_def)
qed (simp add: alert_failureA_def)

lemma back_off_up: "control_up env \<Longrightarrow> \<exists>w'. back_offA env spec rid attempt w = (Inr (), w')"
proof -
  assume up: "control_up env"
  let ?backoff = "ru_retry_backoff_seconds (rs_runtime spec)"
  obtain w' where "task_eventA env spec rid TASK_RETRYING [(''attempt'', PV (VInt attempt)),
      (''next_attempt'', PV (VInt (attempt + 1))), (''backoff_s'', PV (VInt ?backoff))] False w = (Inr (), w')"
    using event_up [OF up] by blast
  then show ?thesis by (simp add: back_offA_def Let_def bindA_def)
qed

text \<open>No attempt from \<open>a\<close> on has a row yet.\<close>

definition unused_from :: "string \<Rightarrow> string \<Rightarrow> int \<Rightarrow> world \<Rightarrow> bool" where
  "unused_from rid fqn a w = list_all (\<lambda>t. \<forall>b\<ge>a. task_key t \<noteq> (rid, fqn, b)) (wd_tasks w)"

lemma unused_from_fresh: "unused_from rid fqn a w \<Longrightarrow> (rid, fqn, a) \<notin> set (map task_key (wd_tasks w))"
  unfolding unused_from_def list_all_iff by (metis (mono_tags) image_iff order_refl set_map)

lemma unused_from_next:
  assumes "unused_from rid fqn a w" "wd_tasks w' = wd_tasks w @ [t]" "closed_row rid fqn a st t"
  shows "unused_from rid fqn (a + 1) w'"
  using assms by (auto simp: unused_from_def list_all_iff closed_row_def)

lemma attempts_up:
  assumes up: "control_up env" "polite_senders env" and on: "ru_enabled (rs_runtime spec)"
  shows "unused_from rid (table_fqn spec) a w \<Longrightarrow>
    \<exists>o' w' ts. attemptsA env spec rid a (Suc n) last_outcome w = (Inr o', w') \<and>
      wd_tasks w' = wd_tasks w @ ts \<and> closed_attempts rid (table_fqn spec) a (to_status o') ts \<and>
      to_attempt o' = a + int (length ts) - 1 \<and> length ts \<le> Suc n \<and>
      (to_status o' = TaskSucceeded \<or> to_status o' = TaskFailed \<and> length ts = Suc n)"
proof (induction n arbitrary: a w last_outcome)
  case 0
  from run_up [OF up(1) on unused_from_fresh [OF 0]] obtain o' w1 t where
    run: "runA env spec rid a w = (Inr o', w1)" and o': "to_attempt o' = a"
      "to_status o' \<in> {TaskSucceeded, TaskFailed}" and
    t: "wd_tasks w1 = wd_tasks w @ [t]" "closed_row rid (table_fqn spec) a (to_status o') t" by blast
  show ?case
  proof (cases "succeeded o'")
    case True
    with run o' t show ?thesis
      by (intro exI [of _ o'] exI [of _ w1] exI [of _ "[t]"]) (auto simp: bindA_def succeeded_def)
  next
    case False
    obtain w2 where alert: "alert_failureA env spec rid o' w1 = (Inr (), w2)"
      using alert_failure_up [OF up(2)] by blast
    have "wd_tasks w2 = wd_tasks w1" using alert by (rule keepsD) (simp add: frames)
    with False run o' t alert show ?thesis
      by (intro exI [of _ o'] exI [of _ w2] exI [of _ "[t]"]) (auto simp: bindA_def succeeded_def)
  qed
next
  case (Suc n)
  from run_up [OF up(1) on unused_from_fresh [OF Suc.prems]] obtain o' w1 t where
    run: "runA env spec rid a w = (Inr o', w1)" and o': "to_attempt o' = a"
      "to_status o' \<in> {TaskSucceeded, TaskFailed}" and
    t: "wd_tasks w1 = wd_tasks w @ [t]" "closed_row rid (table_fqn spec) a (to_status o') t" by blast
  show ?case
  proof (cases "succeeded o'")
    case True
    with run o' t show ?thesis
      by (intro exI [of _ o'] exI [of _ w1] exI [of _ "[t]"]) (auto simp: bindA_def succeeded_def)
  next
    case False
    with o' have failed: "to_status o' = TaskFailed" by (simp add: succeeded_def)
    obtain w2 where off: "back_offA env spec rid a w1 = (Inr (), w2)"
      using back_off_up [OF up(1)] by blast
    have t2: "wd_tasks w2 = wd_tasks w1" using off by (rule keepsD) (simp add: frames)
    have "unused_from rid (table_fqn spec) (a + 1) w2"
      using unused_from_next [OF Suc.prems t] t2 by (simp add: unused_from_def)
    from Suc.IH [OF this, of "Some o'"] obtain o2 w3 ts where
      rest: "attemptsA env spec rid (a + 1) (Suc n) (Some o') w2 = (Inr o2, w3)"
        "wd_tasks w3 = wd_tasks w2 @ ts" "closed_attempts rid (table_fqn spec) (a + 1) (to_status o2) ts"
        "to_attempt o2 = a + 1 + int (length ts) - 1" "length ts \<le> Suc n"
        "to_status o2 = TaskSucceeded \<or> to_status o2 = TaskFailed \<and> length ts = Suc n" by blast
    have "attemptsA env spec rid a (Suc (Suc n)) last_outcome w = (Inr o2, w3)"
      using run off rest(1) failed False by (simp add: bindA_def)
    moreover have "closed_attempts rid (table_fqn spec) a (to_status o2) (t # ts)"
      using rest(3) t(2) failed by (cases ts) (auto simp: closed_attempts_Cons)
    ultimately show ?thesis
      using rest t t2 by (intro exI [of _ o2] exI [of _ w3] exI [of _ "t # ts"]) auto
  qed
qed

section \<open>A concrete table and a calm environment\<close>

definition scn_spec :: run_spec where
  "scn_spec =
     (sample_spec ''incremental'' ''append'')\<lparr>
       rs_source := default_source\<lparr>so_secret_scope := Some ''scope''\<rparr>,
       rs_extraction := default_extraction\<lparr>ex_mode := ''incremental'',
         ex_incremental := default_incremental\<lparr>in_strategy := ''scn'', in_overlap := None\<rparr>\<rparr>,
       rs_target := (default_target ''main'' ''raw'' ''emp'')
         \<lparr>tg_write_mode := ''append'', tg_add_audit_columns := False\<rparr>,
       rs_quality := default_quality\<lparr>qu_row_count_reconciliation := False, qu_null_check_keys := False\<rparr>\<rparr>"

definition calm_env :: "unit env" where
  "calm_env =
     \<lparr>en_fault = (\<lambda>_ _. NoFault), en_clock = (\<lambda>_. midnight (PDate 1 1 1)), en_ids = (\<lambda>_. ''id''), en_turns = (\<lambda>_. []),
      en_float_ms = (\<lambda>us. us div 1000), en_casts = reading_casts,
      en_secrets = Some (\<lambda>_ _. ''secret''), en_query_file = (\<lambda>_. None),
      en_source = (\<lambda>_ _. [[VInt 42]]), en_columns = (\<lambda>_ _. [''ID'']),
      en_spark = (\<lambda>_ _. [[VInt 0]]), en_schema = (\<lambda>_ _. [(''ID'', ''bigint'')]),
      en_history = (\<lambda>_ _. []), en_error_name = (\<lambda>_. ''Error''), en_error_text = (\<lambda>_. ''text''),
      en_senders = [], en_fallback = (), en_send = (\<lambda>_ _ _ _. None)\<rparr>"

definition sample_world :: world where
  "sample_world =
     \<lparr>wd_runs = [], wd_tasks = [], wd_marks = [], wd_registry = [], wd_checks = [],
      wd_audit = (new_audit_log None None None 12, []),
      wd_tables = [''main.raw.emp''], wd_commits = [], wd_views = [],
      wd_conf = [], wd_reads = [], wd_alerts = [], wd_sleeps = [], wd_ddl = [], wd_calls = 0, wd_clock = 0, wd_ids = 0\<rparr>"

lemma calm_env_up [simp]: "control_up calm_env" "polite_senders calm_env"
  by (simp_all add: calm_env_def control_up_def polite_senders_def)

lemma scn_spec_enabled [simp]: "ru_enabled (rs_runtime scn_spec)"
  by (simp add: scn_spec_def sample_spec_def default_runtime_def)

lemma sample_world_unused [simp]: "wd_tasks sample_world = []" "wd_marks sample_world = []" "unused_from rid fqn a sample_world"
  by (simp_all add: sample_world_def unused_from_def)

text \<open>The marks after a run are those after its advance.\<close>

definition up_to_advanceA :: "'s env \<Rightarrow> run_spec \<Rightarrow> string \<Rightarrow> int \<Rightarrow> bool act" where
  "up_to_advanceA env spec rid attempt =
     bindA (openA env spec rid attempt) (\<lambda>_.
     bindA (prepareA env spec rid attempt) (\<lambda>(ex, _, _).
     advance_watermarkA env spec rid ex))"

lemma run_marks_eq:
  assumes "ru_enabled (rs_runtime spec)"
  shows "wd_marks (snd (runA env spec rid attempt w)) = wd_marks (snd (up_to_advanceA env spec rid attempt w))"
proof -
  have fail: "wd_marks (snd (fail_taskA env spec rid task attempt started e u)) = wd_marks u" for task started e u
    by (rule keeps_snd) (simp add: frames)
  have close: "wd_marks (snd (close_taskA env spec rid task attempt started ex load report adv u)) = wd_marks u"
    for task started ex load report adv u by (rule keeps_snd) (simp add: frames)
  have closed: "wd_marks w3 = wd_marks u"
    if "close_taskA env spec rid task attempt started ex load report adv u = (x, w3)"
    for task started ex load report adv u x w3 using close that by (metis snd_conv)
  show ?thesis
    using assms
    by (auto simp: runA_open up_to_advanceA_def execute_taskA_def bindA_def catchA_def fail
        split: prod.split sum.split dest: closed)
qed

section \<open>The session setting of a merge\<close>

text \<open>Whether MERGE statements of the session evolve the schema of their targets.\<close>

definition merge_evolves :: "world \<Rightarrow> bool" where
  "merge_evolves w = (dict_get (wd_conf w) auto_merge_key = Some ''true'')"

definition evolves_on :: "world \<Rightarrow> world \<Rightarrow> bool" where
  "evolves_on w w' = (merge_evolves w \<longrightarrow> merge_evolves w')"

interpretation evolving: world_order evolves_on
  by unfold_locales (simp_all add: evolves_on_def)

lemma evolving_keeps: "keeps wd_conf m \<Longrightarrow> steps evolves_on m"
  by (simp add: steps_def evolves_on_def merge_evolves_def)

lemma dict_get_set_same [simp]: "dict_get (dict_set d k v) k = Some v"
  by (induction d) auto

lemma evolving_write: "steps evolves_on (writeA env spec frame view)"
proof -
  have conf: "steps evolves_on (executeA env SparkCall
      (\<lambda>w. w\<lparr>wd_conf := dict_set (wd_conf w) auto_merge_key ''true''\<rparr>))"
    unfolding executeA_def
    by (rule evolving.steps_call) (simp_all add: evolves_on_def merge_evolves_def)
  have others: "steps evolves_on (ensure_tableA env spec frame)" "steps evolves_on (create_viewA env v)"
    "steps evolves_on (commitA env spec dw)" "steps evolves_on (collect_metricsA env spec)" for v dw
    unfolding ensure_tableA_def by (rule evolving_keeps; intro frames keeps_execute; simp)+
  show ?thesis
    unfolding writeA_def mergeA_def write_dfA_def by (intro evolving.steps_rules conf others)
qed

lemma evolving_run: "steps evolves_on (runA env spec rid attempt)"
proof -
  have load: "steps evolves_on (load_batchA env spec rid views st)" for views st
    unfolding load_batchA_def
    by (intro evolving.steps_rules evolving_write) (rule evolving_keeps, intro frames, simp)+
  have prepare: "steps evolves_on (prepareA env spec rid attempt)"
    unfolding prepareA_def
    by (intro evolving.steps_rules load) (rule evolving_keeps, intro frames, simp_all)+
  show ?thesis
    unfolding runA_open execute_taskA_def
    by (intro evolving.steps_rules prepare) (rule evolving_keeps, intro frames keeps_open, simp_all)+
qed

lemma mergeA_evolves:
  assumes "mergeA env spec columns view result w = (Inr load, w')" "tg_schema_evolution (rs_target spec)"
  shows "merge_evolves w'"
proof -
  obtain u w1 w2 r st w3 where
    1: "create_viewA env view w = (Inr u, w1)" and
    2: "executeA env SparkCall (\<lambda>w. w\<lparr>wd_conf := dict_set (wd_conf w) auto_merge_key ''true''\<rparr>) w1 = (Inr r, w2)" and
    3: "commitA env spec (MergeWrite st) w2 = (Inr (), w3)" "w' = w3"
    using assms unfolding mergeA_def by (auto elim!: bindA_InrE)
  have "wd_conf w3 = wd_conf w2" using 3(1) by (rule keepsD) (simp add: frames)
  moreover have "merge_evolves w2" using executeA_Inr [OF 2] by (simp add: merge_evolves_def)
  ultimately show ?thesis using 3(2) by (simp add: merge_evolves_def)
qed

lemma writeA_evolves:
  assumes "writeA env spec frame view w = (Inr load, w')" "tg_write_mode (rs_target spec) = ''merge''"
    "tg_schema_evolution (rs_target spec)"
  shows "merge_evolves w'"
proof -
  obtain result w1 r2 w2 m where
    1: "mergeA env spec (map fst frame) view result w1 = (Inr r2, w2)" and
    2: "collect_metricsA env spec w2 = (Inr m, w')"
    using assms(1,2) unfolding writeA_def Let_def
    by (elim bindA_InrE) (auto split: prod.splits elim!: bindA_InrE)
  have "wd_conf w' = wd_conf w2" using 2 by (rule keepsD) (simp add: frames)
  with mergeA_evolves [OF 1 assms(3)] show ?thesis by (simp add: merge_evolves_def)
qed

section \<open>Properties\<close>

text \<open>C1: Whatever fails and whenever, one attempt at a table changes a watermark only if its
  load committed, exactly once and to the table's target, and a reconciliation report with no
  failed check is recorded; and it changes no watermark but that of its table and environment.\<close>

theorem mark_moves_only_after_good_load:
  assumes "runA env spec rid attempt w = (r, w')" "wd_marks w' \<noteq> wd_marks w"
  shows "one_load spec w w' \<and> (\<exists>report. recorded spec rid report w w' \<and> report_ok report) \<and>
    other_marks spec w' = other_marks spec w"
  using run_marks [OF assms] run_other_marks [OF assms(1)] by blast

lemma mark_moves_only_after_good_load_witness:
  "\<exists>r w'. runA calm_env scn_spec ''r1'' 1 sample_world = (r, w') \<and> wd_marks w' \<noteq> [] \<and>
     one_load scn_spec sample_world w'"
proof -
  have moved: "wd_marks (snd (up_to_advanceA calm_env scn_spec ''r1'' 1 sample_world)) \<noteq> []" by code_simp
  obtain r w' where run: "runA calm_env scn_spec ''r1'' 1 sample_world = (r, w')"
    by (cases "runA calm_env scn_spec ''r1'' 1 sample_world")
  then have "wd_marks w' = wd_marks (snd (up_to_advanceA calm_env scn_spec ''r1'' 1 sample_world))"
    using run_marks_eq [of scn_spec calm_env "''r1''" 1 sample_world] by simp
  with moved have "wd_marks w' \<noteq> []" by simp
  with run mark_moves_only_after_good_load [OF run] show ?thesis by auto
qed



text \<open>C2: As long as the control store and the audit log answer, an attempt never raises and never
  leaves its task open: whatever the source, the secrets, Spark or the watermark table do,
  it returns an outcome, SUCCEEDED or FAILED, and the one row it adds is closed with that
  status, an end time, and an error exactly when it failed.\<close>

theorem every_attempt_is_closed:
  assumes "control_up env" "ru_enabled (rs_runtime spec)"
    "(rid, table_fqn spec, attempt) \<notin> set (map task_key (wd_tasks w))"
  shows "\<exists>o' w' t. runA env spec rid attempt w = (Inr o', w') \<and> to_attempt o' = attempt \<and>
    to_status o' \<in> {TaskSucceeded, TaskFailed} \<and> (to_error o' \<noteq> None \<longleftrightarrow> to_status o' = TaskFailed) \<and>
    wd_tasks w' = wd_tasks w @ [t] \<and> closed_row rid (table_fqn spec) attempt (to_status o') t"
  using run_up [OF assms] .

lemma every_attempt_is_closed_witness:
  "\<exists>o' w' t. runA (calm_env\<lparr>en_secrets := None\<rparr>) scn_spec ''r1'' 1 sample_world = (Inr o', w') \<and>
     wd_tasks w' = [t] \<and> closed_row ''r1'' (table_fqn scn_spec) 1 (to_status o') t"
proof -
  have "control_up (calm_env\<lparr>en_secrets := None\<rparr>)" by (simp add: calm_env_def control_up_def)
  then show ?thesis
    using every_attempt_is_closed [of "calm_env\<lparr>en_secrets := None\<rparr>" scn_spec "''r1''" 1 sample_world] by auto
qed

text \<open>C11: Retrying ends: with the control store, the audit log and the senders in order, a table
  that is enabled is tried at most \<open>retries + 1\<close> times; the attempts are numbered from 1
  without gaps, each with its own closed row, every one failed but perhaps the last, whose
  status is the outcome; and it gives up only after the last attempt allowed.\<close>

theorem retries_are_bounded:
  assumes "control_up env" "polite_senders env" "ru_enabled (rs_runtime spec)"
    "0 \<le> ru_retries (rs_runtime spec)" "unused_from rid (table_fqn spec) 1 w"
  shows "\<exists>o' w' ts. run_with_retriesA env spec rid w = (Inr o', w') \<and> wd_tasks w' = wd_tasks w @ ts \<and>
    closed_attempts rid (table_fqn spec) 1 (to_status o') ts \<and> to_attempt o' = int (length ts) \<and>
    int (length ts) \<le> ru_retries (rs_runtime spec) + 1 \<and>
    (to_status o' = TaskSucceeded \<or>
     to_status o' = TaskFailed \<and> int (length ts) = ru_retries (rs_runtime spec) + 1)"
proof -
  have n: "nat (ru_retries (rs_runtime spec) + 1) = Suc (nat (ru_retries (rs_runtime spec)))"
    using assms(4) by simp
  from attempts_up [OF assms(1-3,5), where n = "nat (ru_retries (rs_runtime spec))" and last_outcome = None]
  obtain o' w' ts where
    "run_with_retriesA env spec rid w = (Inr o', w')" "wd_tasks w' = wd_tasks w @ ts"
    "closed_attempts rid (table_fqn spec) 1 (to_status o') ts" "to_attempt o' = 1 + int (length ts) - 1"
    "length ts \<le> Suc (nat (ru_retries (rs_runtime spec)))"
    "to_status o' = TaskSucceeded \<or>
     to_status o' = TaskFailed \<and> length ts = Suc (nat (ru_retries (rs_runtime spec)))"
    unfolding run_with_retriesA_def n by blast
  with assms(4) show ?thesis by (intro exI [of _ o'] exI [of _ w'] exI [of _ ts]) auto
qed

lemma retries_are_bounded_witness:
  "\<exists>o' w' ts. run_with_retriesA calm_env scn_spec ''r1'' sample_world = (Inr o', w') \<and>
     wd_tasks w' = ts \<and> int (length ts) \<le> 3"
proof -
  have "ru_retries (rs_runtime scn_spec) = 2" by (simp add: scn_spec_def sample_spec_def default_runtime_def)
  then show ?thesis
    using retries_are_bounded [of calm_env scn_spec "''r1''" sample_world] by auto
qed

text \<open>One table's schema evolution becomes every table's: the load of a merge target that
  evolves its schema switches the setting on for the Spark session, and no later run of any
  table, one that forbids schema evolution included, ever switches it off again.\<close>

theorem auto_merge_stays_on:
  assumes "writeA env spec frame view w = (Inr load, w1)" "tg_write_mode (rs_target spec) = ''merge''"
    "tg_schema_evolution (rs_target spec)"
  shows "merge_evolves w1 \<and> merge_evolves (snd (runA env spec' rid attempt w1))"
  using writeA_evolves [OF assms] evolving_run [of env spec' rid attempt]
  by (simp add: steps_def evolves_on_def)

definition strict_spec :: run_spec where
  "strict_spec =
     (sample_spec ''full'' ''merge'')\<lparr>rs_target := (default_target ''main'' ''raw'' ''emp'')
        \<lparr>tg_merge_keys := [''ID''], tg_merge_guard := ''none'', tg_schema_evolution := False\<rparr>\<rparr>"

definition evolving_spec :: run_spec where
  "evolving_spec = strict_spec\<lparr>rs_target := (rs_target strict_spec)\<lparr>tg_schema_evolution := True\<rparr>\<rparr>"

lemma auto_merge_stays_on_witness:
  "\<not> tg_schema_evolution (rs_target strict_spec) \<and>
   merge_evolves (snd (runA calm_env strict_spec ''r1'' 1
     (snd (writeA calm_env evolving_spec [(''ID'', ''bigint''), (''NAME'', ''string'')] ''v'' sample_world))))"
proof -
  have ok: "\<not> isl (fst (writeA calm_env evolving_spec [(''ID'', ''bigint''), (''NAME'', ''string'')] ''v'' sample_world))"
    by code_simp
  obtain r w1 where run: "writeA calm_env evolving_spec [(''ID'', ''bigint''), (''NAME'', ''string'')] ''v'' sample_world = (r, w1)"
    by (cases "writeA calm_env evolving_spec [(''ID'', ''bigint''), (''NAME'', ''string'')] ''v'' sample_world")
  with ok obtain load where r: "r = Inr load" by (cases r) auto
  have spec: "tg_write_mode (rs_target evolving_spec) = ''merge''" "tg_schema_evolution (rs_target evolving_spec)"
    "\<not> tg_schema_evolution (rs_target strict_spec)"
    by (simp_all add: evolving_spec_def strict_spec_def default_target_def)
  with auto_merge_stays_on [OF run [unfolded r] spec(1,2), of strict_spec "''r1''" 1] show ?thesis
    by (simp add: run)
qed

end
