(* ===== verification/BatchRunner.thy ===== *)
theory BatchRunner
  imports Runner "HOL-Library.Multiset"
begin

text \<open>
  A group of tables as one run (orchestration/batch_runner.py): dependency levels, tables
  blocked by a failed dependency, the run row around it all, and the selection of tables.
  A level runs one table after another, or on a pool that takes its tables as a whole in an
  order of the environment's choice; what comes between two statements of a table is in Workers
  and AuditRace.
\<close>

section \<open>Ordering\<close>

definition by_fqn :: "run_spec list \<Rightarrow> (string, run_spec) dict" where
  "by_fqn specs = foldl (\<lambda>d s. dict_set d (table_fqn s) s) [] specs"

definition pending_deps :: "run_spec list \<Rightarrow> (string \<times> string list) list" where
  "pending_deps specs =
     map (\<lambda>(fqn, s). (fqn, filter (\<lambda>d. dict_get (by_fqn specs) d \<noteq> None) (ti_depends_on (rs_table s))))
       (by_fqn specs)"

definition ready_tables :: "(string \<times> string list) list \<Rightarrow> string list \<Rightarrow> string list" where
  "ready_tables todo finished =
     sort (map fst (filter (\<lambda>(fqn, deps). list_all (\<lambda>d. d \<in> set finished) deps) todo))"

lemma ready_tables_set:
  "set (ready_tables todo finished) = {fqn. \<exists>deps. (fqn, deps) \<in> set todo \<and> set deps \<subseteq> set finished}"
  by (force simp: ready_tables_def list_all_iff)

text \<open>The loop; each round takes the tables whose dependencies are done.\<close>

function level_names :: "(string \<times> string list) list \<Rightarrow> string list \<Rightarrow> string list list res" where
  "level_names todo finished =
     (if todo = [] then Inr []
      else
        let ready = ready_tables todo finished in
        if ready = [] then Inl (DependencyError (sort (map fst todo)))
        else
          bindE (level_names (filter (\<lambda>(fqn, _). fqn \<notin> set ready) todo) (finished @ ready))
            (\<lambda>levels. Inr (ready # levels)))"
  by pat_completeness auto
termination
proof (relation "measure (\<lambda>(todo, _). length todo)")
  fix todo :: "(string \<times> string list) list" and finished ready
  assume ready: "ready = ready_tables todo finished" "ready \<noteq> []"
  then have "hd ready \<in> {fqn. \<exists>deps. (fqn, deps) \<in> set todo \<and> set deps \<subseteq> set finished}"
    unfolding ready_tables_set [symmetric] by simp
  with ready(2) obtain fqn deps where "(fqn, deps) \<in> set todo" "fqn \<in> set ready" by fastforce
  then have "length (filter (\<lambda>(fqn, _). fqn \<notin> set ready) todo) < length todo"
    by (intro length_filter_less [of "(fqn, deps)"]) auto
  then show "((filter (\<lambda>(fqn, _). fqn \<notin> set ready) todo, finished @ ready), (todo, finished))
    \<in> measure (\<lambda>(todo, _). length todo)" by simp
qed simp

declare level_names.simps [simp del]

definition order_tables :: "run_spec list \<Rightarrow> run_spec list list res" where
  "order_tables specs =
     (case List.find (\<lambda>(fqn, deps). fqn \<in> set deps) (pending_deps specs) of
        Some (fqn, _) \<Rightarrow> Inl (DependencyError [fqn])
      | None \<Rightarrow>
          bindE (level_names (pending_deps specs) []) (\<lambda>levels.
          Inr (map (\<lambda>ready. map (\<lambda>fqn. the (dict_get (by_fqn specs) fqn)) ready) levels)))"

definition blocked_by :: "run_spec \<Rightarrow> string list \<Rightarrow> string list" where
  "blocked_by spec failed = filter (\<lambda>d. d \<in> set failed) (ti_depends_on (rs_table spec))"

section \<open>The batch\<close>

record batch_state =
  bs_outcomes :: "task_outcome list"
  bs_skipped :: "(string, string) dict"
  bs_failed :: "string list"

record batch_result =
  br_run_id :: string
  br_env :: string
  br_status :: run_status
  br_outcomes :: "task_outcome list"
  br_skipped :: "(string, string) dict"

definition batch_summary :: "batch_result \<Rightarrow> payload" where
  "batch_summary b =
     (let count = (\<lambda>st. PV (VInt (int (length (filter (\<lambda>o'. to_status o' = st) (br_outcomes b)))))) in
      [(''run_id'', PV (VStr (br_run_id b))), (''status'', PV (VStr (run_status_value (br_status b)))),
       (''tables'', PV (VInt (int (length (br_outcomes b))))), (''succeeded'', count TaskSucceeded),
       (''failed'', count TaskFailed), (''skipped'', count TaskSkipped)])"

definition partition_level ::
  "bool \<Rightarrow> run_spec list \<Rightarrow> string list \<Rightarrow> run_spec list \<times> (run_spec \<times> string list) list" where
  "partition_level skip_dependents level failed =
     (if \<not> skip_dependents then (level, [])
      else (filter (\<lambda>s. blocked_by s failed = []) level,
            map (\<lambda>s. (s, blocked_by s failed)) (filter (\<lambda>s. blocked_by s failed \<noteq> []) level)))"

definition skip_for_dependencyA :: "'s env \<Rightarrow> run_spec \<Rightarrow> string \<Rightarrow> string \<Rightarrow> task_outcome act" where
  "skip_for_dependencyA env spec rid reason =
     bindA (task_eventA env spec rid TASK_SKIPPED [(''reason'', PV (VStr reason))] False) (\<lambda>_.
     retA (plain_outcome (table_fqn spec) rid TaskSkipped 1))"

text \<open>The exception of an action as a value, so that what was collected before it is kept.\<close>

definition tryA :: "'a act \<Rightarrow> (exn + 'a) act" where
  "tryA m = (\<lambda>w. case m w of (r, w') \<Rightarrow> (Inr r, w'))"

fun skip_blockedA ::
  "'s env \<Rightarrow> string \<Rightarrow> (run_spec \<times> string list) list \<Rightarrow> batch_state \<Rightarrow> (exn option \<times> batch_state) act" where
  "skip_blockedA env rid [] bs = retA (None, bs)"
| "skip_blockedA env rid ((spec, blockers) # rest) bs =
     (let reason = ''dependency failed: '' @ join '', '' blockers;
          noted = bs\<lparr>bs_skipped := dict_set (bs_skipped bs) (table_fqn spec) reason\<rparr> in
      bindA (tryA (skip_for_dependencyA env spec rid reason)) (\<lambda>r.
      case r of
        Inl e \<Rightarrow> retA (Some e, noted)
      | Inr o' \<Rightarrow>
          skip_blockedA env rid rest
            (noted\<lparr>bs_outcomes := bs_outcomes noted @ [o'],
                   bs_failed := bs_failed noted @ [table_fqn spec]\<rparr>)))"

text \<open>The constructor of \<open>BatchRunner\<close>: at least one worker.\<close>

record runner_options =
  ro_max_workers :: int
  ro_skip_dependents :: bool

definition batch_options :: "int \<Rightarrow> bool \<Rightarrow> runner_options" where
  "batch_options max_workers skip_dependents =
     \<lparr>ro_max_workers = max 1 max_workers, ro_skip_dependents = skip_dependents\<rparr>"

definition lone_worker :: runner_options where
  "lone_worker = batch_options 1 True"

text \<open>
  \<open>_run_level\<close>: one table after another, or every table handed to the pool, which has them all
  run, in an order of its own, before the results are read in the order of submission; the
  first exception among these is raised.  The pool takes each table as a whole here.
\<close>

fun first_error :: "(exn + 'a) list \<Rightarrow> exn + 'a list" where
  "first_error [] = Inr []"
| "first_error (Inl e # rs) = Inl e"
| "first_error (Inr a # rs) = (case first_error rs of Inl e \<Rightarrow> Inl e | Inr as \<Rightarrow> Inr (a # as))"

definition pool_runA :: "nat list \<Rightarrow> 'a act list \<Rightarrow> 'a list act" where
  "pool_runA order jobs =
     bindA (eachA (\<lambda>i. bindA (tryA (jobs ! i)) (\<lambda>r. retA (i, r))) order) (\<lambda>futures.
     case first_error (map (\<lambda>i. the (map_of futures i)) [0..<length jobs]) of
       Inl e \<Rightarrow> raiseA e
     | Inr os \<Rightarrow> retA os)"

text \<open>The order is the environment's choice, if it is one of the tables of the level.\<close>

definition pool_order :: "'s env \<Rightarrow> nat \<Rightarrow> world \<Rightarrow> nat list" where
  "pool_order env n w =
     (let order = en_turns env (wd_calls w) in if sort order = [0..<n] then order else [0..<n])"

definition run_specsA ::
  "'s env \<Rightarrow> int \<Rightarrow> string \<Rightarrow> run_spec list \<Rightarrow> task_outcome list act" where
  "run_specsA env max_workers rid specs =
     (if max_workers = 1 \<or> length specs = 1 then eachA (\<lambda>s. run_with_retriesA env s rid) specs
      else
        bindA (getA (pool_order env (length specs))) (\<lambda>order.
        pool_runA order (map (\<lambda>s. run_with_retriesA env s rid) specs)))"

definition run_levelA ::
  "'s env \<Rightarrow> runner_options \<Rightarrow> string \<Rightarrow> run_spec list \<Rightarrow> batch_state \<Rightarrow> (exn option \<times> batch_state) act" where
  "run_levelA env opt rid runnable bs =
     bindA (tryA (run_specsA env (ro_max_workers opt) rid runnable)) (\<lambda>r.
     case r of
       Inl e \<Rightarrow> retA (Some e, bs)
     | Inr outcomes \<Rightarrow>
         retA (None, bs\<lparr>bs_outcomes := bs_outcomes bs @ outcomes,
           bs_failed := bs_failed bs @
             map to_table_fqn (filter (\<lambda>o'. to_status o' = TaskFailed) outcomes)\<rparr>))"

fun levelsA ::
  "'s env \<Rightarrow> runner_options \<Rightarrow> string \<Rightarrow> run_spec list list \<Rightarrow> batch_state \<Rightarrow> (exn option \<times> batch_state) act" where
  "levelsA env opt rid [] bs = retA (None, bs)"
| "levelsA env opt rid (level # levels) bs =
     (case partition_level (ro_skip_dependents opt) level (bs_failed bs) of
        (runnable, blocked) \<Rightarrow>
          bindA (skip_blockedA env rid blocked bs) (\<lambda>(err, bs1).
          if err \<noteq> None then retA (err, bs1)
          else if runnable = [] then levelsA env opt rid levels bs1
          else
            bindA (run_levelA env opt rid runnable bs1) (\<lambda>(err', bs2).
            if err' \<noteq> None then retA (err', bs2)
            else levelsA env opt rid levels bs2)))"

definition no_outcomes :: batch_state where
  "no_outcomes = \<lparr>bs_outcomes = [], bs_skipped = [], bs_failed = []\<rparr>"

definition batch_bodyA ::
  "'s env \<Rightarrow> runner_options \<Rightarrow> string \<Rightarrow> int \<Rightarrow> string \<Rightarrow> run_spec list list \<Rightarrow> (exn option \<times> batch_state) act" where
  "batch_bodyA env opt rid table_count trigger levels =
     bindA (tryA (emitA env RUN_STARTED None
       [(''tables'', PV (VInt table_count)), (''levels'', PV (VInt (int (length levels)))),
        (''trigger'', PV (VStr trigger))] (Some rid) False)) (\<lambda>r.
     case r of
       Inl e \<Rightarrow> retA (Some e, no_outcomes)
     | Inr _ \<Rightarrow> levelsA env opt rid levels no_outcomes)"

definition result_of :: "string \<Rightarrow> string \<Rightarrow> exn option \<Rightarrow> batch_state \<Rightarrow> batch_result" where
  "result_of rid env_name err bs =
     \<lparr>br_run_id = rid, br_env = env_name,
      br_status = (if err = None then derive_run_status (map to_status (bs_outcomes bs)) else RunFailed),
      br_outcomes = bs_outcomes bs, br_skipped = bs_skipped bs\<rparr>"

text \<open>The \<open>finally\<close> clause: close the run row, write the last event, let no error of either out.\<close>

definition close_runA :: "'s env \<Rightarrow> run_context \<Rightarrow> batch_result \<Rightarrow> unit act" where
  "close_runA env run result =
     bindA (quietA (finish_runA env run (br_status result))) (\<lambda>_.
     quietA (emitA env RUN_FINISHED None (batch_summary result) (Some (br_run_id result)) True))"

definition run_batchA ::
  "'s env \<Rightarrow> runner_options \<Rightarrow> run_spec list \<Rightarrow> string \<Rightarrow> string \<Rightarrow> string \<Rightarrow> string option \<Rightarrow> string option \<Rightarrow>
   string option \<Rightarrow> batch_result act" where
  "run_batchA env opt specs rid env_name trigger triggered_by job_id job_run_id =
     bindA (liftA (order_tables specs)) (\<lambda>levels.
     bindA (start_runA env rid env_name trigger triggered_by (int (length specs)) job_id job_run_id) (\<lambda>run.
     bindA (bind_auditA rid env_name) (\<lambda>_.
     bindA (batch_bodyA env opt rid (int (length specs)) trigger levels) (\<lambda>(err, bs).
     bindA (close_runA env run (result_of rid env_name err bs)) (\<lambda>_.
     case err of
       Some e \<Rightarrow> raiseA e
     | None \<Rightarrow> retA (result_of rid env_name None bs))))))"

section \<open>Selection\<close>

definition select_specs ::
  "run_spec list \<Rightarrow> string list option \<Rightarrow> string option \<Rightarrow> string option \<Rightarrow> run_spec list res" where
  "select_specs specs tables grp domain =
     bindE
       (case tables of
          None \<Rightarrow> Inr specs
        | Some ts \<Rightarrow>
            if ts = [] then Inr specs
            else
              let known = map table_fqn specs; unknown = sorted_set (filter (\<lambda>t. t \<notin> set known) ts) in
              if unknown \<noteq> [] then Inl (DependencyError unknown)
              else Inr (filter (\<lambda>s. table_fqn s \<in> set ts) specs))
       (\<lambda>selected.
          let in_group = (if present grp
                then filter (\<lambda>s. sc_group (rs_schedule s) = text_of grp) selected else selected)
          in Inr (if present domain
                  then filter (\<lambda>s. ti_domain (rs_table s) = text_of domain) in_group else in_group))"

section \<open>The dependency order\<close>

definition add_spec :: "(string, run_spec) dict \<Rightarrow> run_spec \<Rightarrow> (string, run_spec) dict" where
  "add_spec d s = dict_set d (table_fqn s) s"

lemma by_fqn_fold: "by_fqn specs = foldl add_spec [] specs"
  unfolding by_fqn_def add_spec_def [abs_def] by (rule refl)

lemma add_specs_ok: "dict_ok d \<Longrightarrow> dict_ok (foldl add_spec d specs)"
  by (induction specs arbitrary: d) (simp_all add: add_spec_def)

lemma add_specs_get:
  "dict_get (foldl add_spec d specs) f = Some s \<Longrightarrow>
   (table_fqn s = f \<and> s \<in> set specs) \<or> dict_get d f = Some s"
proof (induction specs arbitrary: d)
  case (Cons x specs)
  from Cons.IH [of "add_spec d x"] Cons.prems show ?case
    by (auto simp: add_spec_def split: if_splits)
qed simp

lemma add_specs_dom:
  "dict_get (foldl add_spec d specs) f \<noteq> None \<longleftrightarrow> f \<in> set (map table_fqn specs) \<or> dict_get d f \<noteq> None"
proof (induction specs arbitrary: d)
  case (Cons x specs)
  show ?case unfolding foldl.simps Cons.IH by (simp add: add_spec_def)
qed simp

lemma by_fqn_ok: "dict_ok (by_fqn specs)"
  unfolding by_fqn_fold by (rule add_specs_ok) simp

lemma by_fqn_get: "dict_get (by_fqn specs) f = Some s \<Longrightarrow> table_fqn s = f \<and> s \<in> set specs"
  unfolding by_fqn_fold by (drule add_specs_get) simp

lemma by_fqn_dom: "dict_get (by_fqn specs) f \<noteq> None \<longleftrightarrow> f \<in> set (map table_fqn specs)"
  unfolding by_fqn_fold add_specs_dom by simp

text \<open>The dependencies that count: those between tables of the batch.\<close>

definition depends :: "run_spec list \<Rightarrow> (string \<times> string) set" where
  "depends specs =
     {(d, f). \<exists>s. dict_get (by_fqn specs) f = Some s \<and> d \<in> set (ti_depends_on (rs_table s)) \<and>
        d \<in> set (map table_fqn specs)}"

lemma pending_deps_mem:
  "(f, deps) \<in> set (pending_deps specs) \<longleftrightarrow>
   f \<in> set (map table_fqn specs) \<and> set deps = {d. (d, f) \<in> depends specs} \<and> (f, deps) \<in> set (pending_deps specs)"
proof -
  have "dict_get (by_fqn specs) f = Some s" if "(f, s) \<in> set (by_fqn specs)" for s
    using that by_fqn_ok [of specs] by (simp add: dict_get_def dict_ok_def)
  then show ?thesis
    using by_fqn_dom [of specs] by (fastforce simp: pending_deps_def depends_def)
qed

lemma pending_deps_keys: "fst ` set (pending_deps specs) = set (map table_fqn specs)"
proof -
  have "map fst (pending_deps specs) = dict_keys (by_fqn specs)"
    by (auto simp: pending_deps_def dict_keys_def)
  then have "fst ` set (pending_deps specs) = set (dict_keys (by_fqn specs))"
    by (metis set_map)
  also have "\<dots> = set (map table_fqn specs)"
    using by_fqn_dom [of specs] dict_get_None_iff [of "by_fqn specs"] by blast
  finally show ?thesis .
qed

lemma pending_deps_distinct: "distinct (map fst (pending_deps specs))"
proof -
  have "map fst (pending_deps specs) = map fst (by_fqn specs)" by (auto simp: pending_deps_def)
  with by_fqn_ok [of specs] show ?thesis by (simp add: dict_ok_def)
qed

text \<open>Levels in which every dependency comes before.\<close>

fun layered :: "(string \<times> string list) list \<Rightarrow> string set \<Rightarrow> string list list \<Rightarrow> bool" where
  "layered todo before [] = True"
| "layered todo before (l # ls) =
     (l \<noteq> [] \<and> sorted l \<and> (\<forall>(f, deps) \<in> set todo. f \<in> set l \<longrightarrow> set deps \<subseteq> before) \<and>
      layered todo (before \<union> set l) ls)"

lemma layered_more:
  "layered todo before ls \<Longrightarrow> (\<And>x. x \<in> set todo' \<Longrightarrow> fst x \<in> \<Union> (set ` set ls) \<Longrightarrow> x \<in> set todo) \<Longrightarrow>
   layered todo' before ls"
  by (induction ls arbitrary: before) fastforce+

lemma ready_sorted: "sorted (ready_tables todo finished)"
  by (simp add: ready_tables_def)

lemma level_names_Inr:
  "level_names todo finished = Inr levels \<Longrightarrow> distinct (map fst todo) \<Longrightarrow>
   distinct (concat levels) \<and> set (concat levels) = fst ` set todo \<and> layered todo (set finished) levels"
proof (induction todo finished arbitrary: levels rule: level_names.induct)
  case (1 todo finished)
  show ?case
  proof (cases "todo = []")
    case True
    with 1 show ?thesis by (simp add: level_names.simps)
  next
    case False
    define ready where "ready = ready_tables todo finished"
    define rest where "rest = filter (\<lambda>(fqn, _). fqn \<notin> set ready) todo"
    from 1(2) False obtain ls where ready: "ready \<noteq> []" and
      ls: "level_names rest (finished @ ready) = Inr ls" "levels = ready # ls"
      by (auto simp: level_names.simps [of todo] ready_def [symmetric] rest_def [symmetric] res_simps
          Let_def split: if_splits)
    have d: "distinct (map fst rest)" using 1(3) by (simp add: rest_def distinct_map_filter)
    from 1(1) [OF False ready_def] ready ls(1) d
    have ih: "distinct (concat ls)" "set (concat ls) = fst ` set rest"
      "layered rest (set (finished @ ready)) ls"
      by (simp_all add: rest_def)
    have sub: "set ready \<subseteq> fst ` set todo" by (force simp: ready_def ready_tables_set)
    have dr: "distinct ready"
      using 1(3) by (simp add: ready_def ready_tables_def distinct_map_filter)
    have disj: "set ready \<inter> fst ` set rest = {}" by (auto simp: rest_def)
    have un: "set ready \<union> fst ` set rest = fst ` set todo"
      using sub by (force simp: rest_def)
    have ready_deps: "set deps \<subseteq> set finished" if "(f, deps) \<in> set todo" "f \<in> set ready" for f deps
    proof -
      from that(2) obtain deps' where "(f, deps') \<in> set todo" "set deps' \<subseteq> set finished"
        by (auto simp: ready_def ready_tables_set)
      with that(1) 1(3) show ?thesis by (metis eq_key_imp_eq_value)
    qed
    have "layered todo (set (finished @ ready)) ls"
    proof (rule layered_more [OF ih(3)])
      fix x assume "x \<in> set todo" "fst x \<in> \<Union> (set ` set ls)"
      then show "x \<in> set rest" using ih(2) disj by (auto simp: rest_def)
    qed
    moreover have "\<forall>(f, deps) \<in> set todo. f \<in> set ready \<longrightarrow> set deps \<subseteq> set finished"
      using ready_deps by blast
    moreover have "sorted ready" unfolding ready_def by (rule ready_sorted)
    ultimately have "layered todo (set finished) levels" using ready ls(2) by simp
    moreover have "distinct (concat levels)" using ih(1,2) dr disj ls(2) by simp
    moreover have "set (concat levels) = fst ` set todo" using ih(2) un ls(2) by simp
    ultimately show ?thesis by blast
  qed
qed

lemma level_names_Inl:
  "level_names todo finished = Inl e \<Longrightarrow> distinct (map fst todo) \<Longrightarrow>
   (\<And>f deps. (f, deps) \<in> set todo \<Longrightarrow> set deps \<subseteq> set finished \<union> fst ` set todo) \<Longrightarrow>
   \<exists>S. S \<noteq> {} \<and> S \<subseteq> fst ` set todo \<and>
     (\<forall>(f, deps) \<in> set todo. f \<in> S \<longrightarrow> (\<exists>d \<in> set deps. d \<in> S))"
proof (induction todo finished rule: level_names.induct)
  case (1 todo finished)
  have ne: "todo \<noteq> []" using 1(2) by (auto simp: level_names.simps)
  define ready where "ready = ready_tables todo finished"
  define rest where "rest = filter (\<lambda>(fqn, _). fqn \<notin> set ready) todo"
  show ?case
  proof (cases "ready = []")
    case True
    have "\<exists>d \<in> set deps. d \<in> fst ` set todo" if "(f, deps) \<in> set todo" for f deps
    proof -
      have "f \<notin> set ready" by (simp add: True)
      then have "\<not> set deps \<subseteq> set finished" using that by (auto simp: ready_def ready_tables_set)
      with 1(4) [OF that] show ?thesis by blast
    qed
    with ne show ?thesis by (intro exI [of _ "fst ` set todo"]) auto
  next
    case False
    from 1(2) ne False have inl: "level_names rest (finished @ ready) = Inl e"
      by (simp add: level_names.simps [of todo] ready_def [symmetric] rest_def [symmetric] Let_def)
        (cases "level_names rest (finished @ ready)"; simp)
    have d: "distinct (map fst rest)" using 1(3) by (simp add: rest_def distinct_map_filter)
    have "set deps \<subseteq> set (finished @ ready) \<union> fst ` set rest" if "(f, deps) \<in> set rest" for f deps
    proof -
      have "(f, deps) \<in> set todo" using that by (simp add: rest_def)
      from 1(4) [OF this] show ?thesis by (force simp: rest_def)
    qed
    with 1(1) [OF ne ready_def False] inl d obtain S where
      S: "S \<noteq> {}" "S \<subseteq> fst ` set rest" "\<forall>(f, deps) \<in> set rest. f \<in> S \<longrightarrow> (\<exists>d \<in> set deps. d \<in> S)"
      by (auto simp: rest_def)
    have "x \<in> set rest" if "x \<in> set todo" "fst x \<in> S" for x
      using that S(2) by (auto simp: rest_def)
    with S show ?thesis by (intro exI [of _ S]) (fastforce simp: rest_def)
  qed
qed

lemma depends_finite: "finite (depends specs)"
proof (rule finite_subset)
  show "depends specs \<subseteq> set (map table_fqn specs) \<times> set (map table_fqn specs)"
    using by_fqn_dom [of specs] by (force simp: depends_def)
qed simp

text \<open>Which level a table is in.\<close>

fun level_of :: "string list list \<Rightarrow> string \<Rightarrow> nat" where
  "level_of [] f = 0"
| "level_of (l # ls) f = (if f \<in> set l then 0 else Suc (level_of ls f))"

lemma layered_rank:
  "layered todo before ls \<Longrightarrow> distinct (concat ls) \<Longrightarrow> (f, deps) \<in> set todo \<Longrightarrow> f \<in> set (concat ls) \<Longrightarrow>
   d \<in> set deps \<Longrightarrow> d \<notin> before \<Longrightarrow> level_of ls d < level_of ls f"
proof (induction ls arbitrary: before)
  case (Cons l ls)
  show ?case
  proof (cases "f \<in> set l")
    case True
    with Cons.prems have "d \<in> before" by fastforce
    with Cons.prems(6) show ?thesis by simp
  next
    case False
    show ?thesis
    proof (cases "d \<in> set l")
      case False
      with Cons.IH [of "before \<union> set l"] Cons.prems \<open>f \<notin> set l\<close> show ?thesis by auto
    qed (use False in simp)
  qed
qed simp

lemma layered_acyclic:
  assumes "level_names (pending_deps specs) [] = Inr levels"
  shows "acyclic (depends specs)"
proof -
  from level_names_Inr [OF assms pending_deps_distinct]
  have l: "distinct (concat levels)" "set (concat levels) = set (map table_fqn specs)"
    "layered (pending_deps specs) {} levels" by (simp_all only: pending_deps_keys set_concat) auto
  have "level_of levels d < level_of levels f" if "(d, f) \<in> depends specs" for d f
  proof -
    have f: "f \<in> set (map table_fqn specs)" using that by_fqn_dom [of specs] by (force simp: depends_def)
    with pending_deps_keys [of specs] obtain deps where m: "(f, deps) \<in> set (pending_deps specs)" by force
    with pending_deps_mem have "d \<in> set deps" using that by blast
    moreover have "f \<in> set (concat levels)" using f l(2) by blast
    ultimately show ?thesis using layered_rank [OF l(3,1) m] by blast
  qed
  then have "depends specs \<subseteq> measure (level_of levels)" by auto
  then show ?thesis by (meson acyclic_subset wf_acyclic wf_measure)
qed

lemma pending_self:
  "List.find (\<lambda>(fqn, deps). fqn \<in> set deps) (pending_deps specs) = Some (f, deps) \<Longrightarrow> (f, f) \<in> depends specs"
  by (drule find_SomeD) (use pending_deps_mem in blast)

lemma stuck_cyclic:
  assumes "level_names (pending_deps specs) [] = Inl e"
  shows "\<not> acyclic (depends specs)"
proof
  assume "acyclic (depends specs)"
  then have wf: "wf (depends specs)" by (rule finite_acyclic_wf [OF depends_finite])
  have "set deps \<subseteq> set [] \<union> fst ` set (pending_deps specs)" if "(f, deps) \<in> set (pending_deps specs)" for f deps
    using that pending_deps_mem [of f deps specs] pending_deps_keys [of specs] by (auto simp: depends_def)
  then have "\<exists>S. S \<noteq> {} \<and> S \<subseteq> fst ` set (pending_deps specs) \<and>
      (\<forall>(f, deps) \<in> set (pending_deps specs). f \<in> S \<longrightarrow> (\<exists>d \<in> set deps. d \<in> S))"
    by (intro level_names_Inl [OF assms pending_deps_distinct])
  then obtain S where S: "S \<noteq> {}" "S \<subseteq> fst ` set (pending_deps specs)"
      "\<forall>(f, deps) \<in> set (pending_deps specs). f \<in> S \<longrightarrow> (\<exists>d \<in> set deps. d \<in> S)"
    by (elim exE conjE)
  from S(1) obtain f where "f \<in> S" "\<And>d. (d, f) \<in> depends specs \<Longrightarrow> d \<notin> S"
    using wfE_min [OF wf] by (metis all_not_in_conv)
  moreover from this(1) S(2) obtain deps where m: "(f, deps) \<in> set (pending_deps specs)" by force
  ultimately show False using S(3) pending_deps_mem [of f deps specs] by blast
qed

lemma order_tables_cases:
  obtains (looping) f where "order_tables specs = Inl (DependencyError [f])" "(f, f) \<in> depends specs"
  | (stuck) e where "order_tables specs = Inl e" "level_names (pending_deps specs) [] = Inl e"
  | (ordered) names where "level_names (pending_deps specs) [] = Inr names"
      "order_tables specs = Inr (map (map (\<lambda>fqn. the (dict_get (by_fqn specs) fqn))) names)"
proof (cases "List.find (\<lambda>(fqn, deps). fqn \<in> set deps) (pending_deps specs)")
  case None
  show ?thesis
  proof (cases "level_names (pending_deps specs) []")
    case (Inl e)
    with None show ?thesis by (intro stuck) (simp_all add: order_tables_def)
  next
    case (Inr names)
    with None show ?thesis by (intro ordered) (simp_all add: order_tables_def)
  qed
next
  case (Some p)
  obtain f deps where "p = (f, deps)" by (cases p)
  with Some pending_self [of specs f deps] show ?thesis
    by (intro looping [of f]) (simp_all add: order_tables_def)
qed

lemma names_of_levels:
  assumes "set (concat names) \<subseteq> set (map table_fqn specs)"
  shows "map (map table_fqn) (map (map (\<lambda>fqn. the (dict_get (by_fqn specs) fqn))) names) = names"
proof -
  have "table_fqn (the (dict_get (by_fqn specs) f)) = f" if "f \<in> set l" "l \<in> set names" for f l
  proof -
    have "f \<in> set (map table_fqn specs)" using assms that by auto
    with by_fqn_dom [of specs f] obtain s where "dict_get (by_fqn specs) f = Some s" by blast
    with by_fqn_get [OF this] show ?thesis by simp
  qed
  then show ?thesis by (simp add: map_idI)
qed

lemma layered_nth:
  "layered todo before ls \<Longrightarrow> i < length ls \<Longrightarrow> f \<in> set (ls ! i) \<Longrightarrow> (f, deps) \<in> set todo \<Longrightarrow>
   set deps \<subseteq> before \<union> set (concat (take i ls))"
proof (induction ls arbitrary: before i)
  case (Cons l ls)
  show ?case
  proof (cases i)
    case 0
    with Cons.prems show ?thesis by fastforce
  next
    case (Suc j)
    with Cons.IH [of "before \<union> set l" j] Cons.prems show ?thesis by auto
  qed
qed simp

lemma order_tables_Inr:
  assumes "order_tables specs = Inr levels"
  shows "distinct (map table_fqn (concat levels))"
    "set (map table_fqn (concat levels)) = set (map table_fqn specs)"
    "i < length levels \<Longrightarrow> s \<in> set (levels ! i) \<Longrightarrow> d \<in> set (ti_depends_on (rs_table s)) \<Longrightarrow>
     d \<in> set (map table_fqn specs) \<Longrightarrow> d \<in> set (map table_fqn (concat (take i levels)))"
    "i < length levels \<Longrightarrow> levels ! i \<noteq> [] \<and> set (levels ! i) \<subseteq> set specs"
proof -
  from assms obtain names where
    n: "level_names (pending_deps specs) [] = Inr names" and
    l: "levels = map (map (\<lambda>fqn. the (dict_get (by_fqn specs) fqn))) names"
    by (cases rule: order_tables_cases [of specs]) auto
  from level_names_Inr [OF n pending_deps_distinct]
  have k: "distinct (concat names)" "set (concat names) = set (map table_fqn specs)"
    "layered (pending_deps specs) {} names" by (simp_all only: pending_deps_keys set_concat) auto
  have m: "map (map table_fqn) levels = names"
    unfolding l by (rule names_of_levels) (simp only: k(2) order_refl)
  have c: "map table_fqn (concat levels) = concat names" by (simp add: map_concat m)
  show "distinct (map table_fqn (concat levels))"
    "set (map table_fqn (concat levels)) = set (map table_fqn specs)"
    using k by (simp_all only: c)
  have get: "dict_get (by_fqn specs) (table_fqn s) = Some s" if s: "i < length levels" "s \<in> set (levels ! i)" for i s
  proof -
    from s l have "s \<in> set (map (\<lambda>fqn. the (dict_get (by_fqn specs) fqn)) (names ! i))" by simp
    then obtain f where f: "f \<in> set (names ! i)" "s = the (dict_get (by_fqn specs) f)" by auto
    then have "f \<in> set (concat names)" using s(1) l by auto
    then have "f \<in> set (map table_fqn specs)" using k(2) by blast
    with by_fqn_dom [of specs f] f(2) have "dict_get (by_fqn specs) f = Some s" by auto
    with by_fqn_get [OF this] show ?thesis by simp
  qed
  show "d \<in> set (map table_fqn (concat (take i levels)))"
    if "i < length levels" "s \<in> set (levels ! i)" "d \<in> set (ti_depends_on (rs_table s))"
      "d \<in> set (map table_fqn specs)"
  proof -
    have dep: "(d, table_fqn s) \<in> depends specs"
      using that(3,4) get [OF that(1,2)] by (auto simp: depends_def)
    have "table_fqn s \<in> set (map table_fqn specs)"
      using by_fqn_get [OF get [OF that(1,2)]] by simp
    with pending_deps_keys [of specs] obtain deps where p: "(table_fqn s, deps) \<in> set (pending_deps specs)" by force
    have "table_fqn s \<in> set (names ! i)" using that(1,2) m by (metis image_eqI length_map nth_map set_map)
    moreover have "i < length names" using that(1) l by simp
    ultimately have "set deps \<subseteq> {} \<union> set (concat (take i names))"
      using layered_nth [OF k(3) _ _ p] by blast
    moreover have "d \<in> set deps" using pending_deps_mem [of "table_fqn s" deps specs] p dep by blast
    moreover have "concat (take i names) = map table_fqn (concat (take i levels))"
      by (simp add: map_concat take_map flip: m)
    ultimately show ?thesis by auto
  qed
  show "levels ! i \<noteq> [] \<and> set (levels ! i) \<subseteq> set specs" if "i < length levels"
  proof -
    have "layered todo before ls \<Longrightarrow> l \<in> set ls \<Longrightarrow> l \<noteq> []" for todo before ls and l :: "string list"
      by (induction ls arbitrary: before) auto
    then have "names ! i \<noteq> []" using k(3) that l by (metis length_map nth_mem)
    then have "levels ! i \<noteq> []" using that l by simp
    moreover have "set (levels ! i) \<subseteq> set specs" using get [OF that] by_fqn_get by blast
    ultimately show ?thesis by blast
  qed
qed

section \<open>What a run leaves alone\<close>

lemma keeps_run_runs [frames]: "keeps wd_runs (runA env spec rid attempt)"
  unfolding runA_open by (intro frames keeps_open keeps_execute_task) simp_all

lemma keeps_attempts:
  assumes "\<And>a. keeps f (runA env spec rid a)" "book f" "\<And>w x. f (w\<lparr>wd_sleeps := x\<rparr>) = f w"
    "\<And>w x. f (w\<lparr>wd_alerts := x\<rparr>) = f w"
  shows "keeps f (attemptsA env spec rid attempt n last_outcome)"
proof (induction n arbitrary: attempt last_outcome)
  case 0
  show ?case unfolding attemptsA.simps by (intro frames assms)
next
  case (Suc n)
  show ?case unfolding attemptsA.simps by (intro frame.steps_rules assms(1) keeps_back_off assms(2,3) Suc)
qed

lemma keeps_retries:
  assumes "\<And>a. keeps f (runA env spec rid a)" "book f" "\<And>w x. f (w\<lparr>wd_sleeps := x\<rparr>) = f w"
    "\<And>w x. f (w\<lparr>wd_alerts := x\<rparr>) = f w"
  shows "keeps f (run_with_retriesA env spec rid)"
  unfolding run_with_retriesA_def by (rule keeps_attempts [OF assms])

lemma steps_try: "steps R m \<Longrightarrow> steps R (tryA m)"
  unfolding steps_def tryA_def by (auto split: prod.split) (metis snd_conv)

lemma keeps_skip_for_dependency: "book f \<Longrightarrow> keeps f (skip_for_dependencyA env spec rid reason)"
  unfolding skip_for_dependencyA_def by (intro frames)

lemma keeps_skip_blocked: "book f \<Longrightarrow> keeps f (skip_blockedA env rid blocked bs)"
proof (induction blocked arbitrary: bs)
  case (Cons b blocked)
  obtain spec blockers where b: "b = (spec, blockers)" by (cases b)
  show ?case
    unfolding b skip_blockedA.simps Let_def
  proof (intro frame.steps_bind steps_try keeps_skip_for_dependency Cons.prems, goal_cases)
    case (1 r)
    show ?case by (cases r) (simp_all add: frame.steps_ret Cons)
  qed
qed (simp add: frame.steps_ret)

lemma pool_order_perm: "sort (pool_order env n w) = [0..<n]"
  by (simp add: pool_order_def Let_def)

lemma pool_order_set: "set (pool_order env n w) = {..<n}" "distinct (pool_order env n w)"
proof -
  show "set (pool_order env n w) = {..<n}"
    using pool_order_perm [of env n w] by (metis atLeast_upt set_sort)
  show "distinct (pool_order env n w)"
    using pool_order_perm [of env n w] by (metis distinct_sort distinct_upt)
qed

lemma each_keeps: "(\<And>x. x \<in> set xs \<Longrightarrow> keeps f (g x)) \<Longrightarrow> keeps f (eachA g xs)"
  by (induction xs) (auto intro!: frame.steps_rules)

lemma pool_run_keeps:
  assumes "\<And>m. m \<in> set jobs \<Longrightarrow> keeps f m" "set order \<subseteq> {..<length jobs}"
  shows "keeps f (pool_runA order jobs)"
proof -
  have "keeps f (eachA (\<lambda>i. bindA (tryA (jobs ! i)) (\<lambda>r. retA (i, r))) order)"
    using assms(2)
    by (induction order) (auto intro!: frame.steps_rules steps_try assms(1))
  then show ?thesis
    unfolding pool_runA_def
    by (intro frame.steps_bind) (auto split: sum.split intro: frame.steps_ret frame.steps_raise)
qed

lemma keeps_run_specs:
  assumes "\<And>s. s \<in> set specs \<Longrightarrow> keeps f (run_with_retriesA env s rid)"
  shows "keeps f (run_specsA env k rid specs)"
proof -
  have "keeps f (pool_runA (pool_order env (length specs) w) (map (\<lambda>s. run_with_retriesA env s rid) specs))" for w
    by (rule pool_run_keeps) (use assms in \<open>auto simp: pool_order_set\<close>)
  then have "keeps f (bindA (getA (pool_order env (length specs)))
      (\<lambda>order. pool_runA order (map (\<lambda>s. run_with_retriesA env s rid) specs)))"
    unfolding steps_def by (simp add: bindA_def)
  then show ?thesis
    unfolding run_specsA_def using assms by (intro frame.steps_if each_keeps) auto
qed

lemma keeps_run_level:
  assumes "\<And>s. s \<in> set runnable \<Longrightarrow> keeps f (run_with_retriesA env s rid)"
  shows "keeps f (run_levelA env opt rid runnable bs)"
  unfolding run_levelA_def using keeps_run_specs [OF assms]
  by (intro frame.steps_bind steps_try) (auto intro: frame.steps_ret split: sum.split)

lemma keeps_levels:
  assumes "\<And>s. s \<in> set (concat levels) \<Longrightarrow> keeps f (run_with_retriesA env s rid)" "book f"
  shows "keeps f (levelsA env opt rid levels bs)"
  using assms(1)
proof (induction levels arbitrary: bs)
  case (Cons l ls)
  obtain runnable blocked where p: "partition_level (ro_skip_dependents opt) l (bs_failed bs) = (runnable, blocked)"
    by (cases "partition_level (ro_skip_dependents opt) l (bs_failed bs)")
  then have "set runnable \<subseteq> set l" by (auto simp: partition_level_def split: if_splits)
  then have lv: "keeps f (run_levelA env opt rid runnable b)" for b
    by (intro keeps_run_level Cons.prems) auto
  have "keeps f (levelsA env opt rid ls b)" for b by (rule Cons.IH) (simp add: Cons.prems)
  then show ?case
    unfolding levelsA.simps p prod.case
    by (intro frame.steps_bind frame.steps_pair frame.steps_if frame.steps_ret keeps_skip_blocked lv assms(2))
qed (simp add: frame.steps_ret)

lemma keeps_body:
  assumes "\<And>s. s \<in> set (concat levels) \<Longrightarrow> keeps f (run_with_retriesA env s rid)" "book f"
  shows "keeps f (batch_bodyA env opt rid n trigger levels)"
  unfolding batch_bodyA_def
proof (intro frame.steps_bind steps_try keeps_emit assms(2), goal_cases)
  case (1 r)
  show ?case using keeps_levels [OF assms] by (cases r) (simp_all add: frame.steps_ret)
qed

section \<open>Statuses and names of outcomes\<close>

definition settled :: "task_outcome \<Rightarrow> bool" where
  "settled o' = (to_status o' \<in> {TaskSucceeded, TaskFailed, TaskSkipped})"

lemma skip_task_Inr:
  "skip_taskA env spec rid attempt reason w = (Inr o', w') \<Longrightarrow>
   to_status o' = TaskSkipped \<and> to_table_fqn o' = table_fqn spec"
  by (auto simp: skip_taskA_def plain_outcome_def elim!: bindA_InrE)

lemma run_named:
  assumes "runA env spec rid attempt w = (Inr o', w')"
  shows "settled o' \<and> to_table_fqn o' = table_fqn spec"
proof (cases "ru_enabled (rs_runtime spec)")
  case False
  with assms show ?thesis by (auto simp: runA_open settled_def dest: skip_task_Inr)
next
  case True
  have "settled o'" using run_outcome [OF assms True] by (auto simp: settled_def split: option.splits)
  moreover from assms True have "to_table_fqn o' = table_fqn spec"
  proof (cases rule: run_cases)
    case (finished started task w1 o1)
    then show ?thesis
      by (auto simp: close_taskA_def plain_outcome_def elim!: execute_cases bindA_InrE)
  next
    case (failed started task w1 e w2)
    then show ?thesis by (auto simp: fail_taskA_def plain_outcome_def elim!: bindA_InrE)
  qed simp
  ultimately show ?thesis by blast
qed

lemma attempts_named:
  assumes "attemptsA env spec rid a n last_outcome w = (Inr o', w')"
    "\<And>x. last_outcome = Some x \<Longrightarrow> settled x \<and> to_table_fqn x = table_fqn spec"
  shows "settled o' \<and> to_table_fqn o' = table_fqn spec"
  using assms
proof (induction n arbitrary: a last_outcome w)
  case 0
  then show ?case by (auto split: option.splits elim!: bindA_InrE)
next
  case (Suc n)
  from Suc.prems(1) obtain o1 w1 where run: "runA env spec rid a w = (Inr o1, w1)" and
    rest: "(if succeeded o1 \<or> to_status o1 = TaskSkipped then retA o1
      else bindA (if n > 0 then back_offA env spec rid a else retA ())
        (\<lambda>_. attemptsA env spec rid (a + 1) n (Some o1))) w1 = (Inr o', w')"
    by (auto elim!: bindA_InrE)
  show ?case
  proof (cases "succeeded o1 \<or> to_status o1 = TaskSkipped")
    case True
    with rest run_named [OF run] show ?thesis by auto
  next
    case False
    with rest obtain w2 where "attemptsA env spec rid (a + 1) n (Some o1) w2 = (Inr o', w')"
      by (auto elim!: bindA_InrE)
    from Suc.IH [OF this] run_named [OF run] show ?thesis by auto
  qed
qed

lemma retries_named:
  "run_with_retriesA env spec rid w = (Inr o', w') \<Longrightarrow> settled o' \<and> to_table_fqn o' = table_fqn spec"
  unfolding run_with_retriesA_def by (rule attempts_named) (assumption, simp)

lemma first_error_map [simp]: "first_error (map Inr os) = Inr os"
  by (induction os) simp_all

lemma first_error_Inr: "first_error rs = Inr os \<longleftrightarrow> rs = map Inr os"
proof
  show "first_error rs = Inr os \<Longrightarrow> rs = map Inr os"
    by (induction rs arbitrary: os rule: first_error.induct) (auto split: sum.splits)
qed simp

lemma first_error_Inl: "first_error rs = Inl e \<Longrightarrow> Inl e \<in> set rs"
  by (induction rs rule: first_error.induct) (auto split: sum.splits)

lemma eachA_Cons_Inr:
  "f x w = (Inr y, w1) \<Longrightarrow> eachA f xs w1 = (Inr ys, w2) \<Longrightarrow> eachA f (x # xs) w = (Inr (y # ys), w2)"
  by (simp add: bindA_def)

lemma futures:
  "\<exists>fs w'. eachA (\<lambda>i. bindA (tryA (jobs ! i)) (\<lambda>r. retA (i, r))) order w = (Inr fs, w') \<and>
     map fst fs = order \<and> (\<forall>(i, r) \<in> set fs. \<exists>u v. (jobs ! i) u = (r, v))"
proof (induction order arbitrary: w)
  case (Cons i order)
  obtain r w1 where job: "(jobs ! i) w = (r, w1)" by fastforce
  then have first: "bindA (tryA (jobs ! i)) (\<lambda>r. retA (i, r)) w = (Inr (i, r), w1)"
    by (simp add: bindA_def tryA_def)
  obtain fs w2 where fs: "eachA (\<lambda>i. bindA (tryA (jobs ! i)) (\<lambda>r. retA (i, r))) order w1 = (Inr fs, w2)"
    "map fst fs = order" "\<forall>(i, r) \<in> set fs. \<exists>u v. (jobs ! i) u = (r, v)" using Cons by blast
  show ?case
  proof (intro exI conjI)
    show "eachA (\<lambda>i. bindA (tryA (jobs ! i)) (\<lambda>r. retA (i, r))) (i # order) w = (Inr ((i, r) # fs), w2)"
      using first fs(1) by (rule eachA_Cons_Inr)
  qed (use job fs(2,3) in auto)
qed simp

lemma pool_run:
  assumes "distinct order" "set order = {..<length jobs}" "pool_runA order jobs w = (r, w')"
  shows "\<exists>rs. length rs = length jobs \<and> r = first_error rs \<and>
    (\<forall>i < length jobs. \<exists>u v. (jobs ! i) u = (rs ! i, v))"
proof -
  from futures [of jobs order w] obtain fs w1 where
    fs: "eachA (\<lambda>i. bindA (tryA (jobs ! i)) (\<lambda>r. retA (i, r))) order w = (Inr fs, w1)"
    "map fst fs = order" "\<forall>(i, r) \<in> set fs. \<exists>u v. (jobs ! i) u = (r, v)" by blast
  define rs where "rs = map (\<lambda>i. the (map_of fs i)) [0..<length jobs]"
  have "r = first_error rs"
    using assms(3) fs(1) by (auto simp: pool_runA_def bindA_def rs_def split: sum.splits)
  moreover have "\<exists>u v. (jobs ! i) u = (rs ! i, v)" if "i < length jobs" for i
  proof -
    have "i \<in> fst ` set fs" using that assms(2) fs(2) by (metis lessThan_iff set_map)
    then obtain x where "map_of fs i = Some x" by (metis map_of_eq_None_iff not_Some_eq)
    with fs(3) that show ?thesis by (fastforce simp: rs_def dest: map_of_SomeD)
  qed
  ultimately show ?thesis by (intro exI [of _ rs]) (simp add: rs_def)
qed

text \<open>What comes back of a level, on the pool or not.\<close>

definition level_reports :: "(run_spec \<Rightarrow> task_outcome act) \<Rightarrow> run_spec list \<Rightarrow> exn + task_outcome list \<Rightarrow> bool" where
  "level_reports f specs r =
     (case r of
        Inl e \<Rightarrow> \<exists>s \<in> set specs. \<exists>u v. f s u = (Inl e, v)
      | Inr os \<Rightarrow> list_all2 (\<lambda>s o'. \<exists>u v. f s u = (Inr o', v)) specs os)"

lemma each_reports: "eachA f specs w = (r, w') \<Longrightarrow> level_reports f specs r"
proof (induction specs arbitrary: w r w')
  case (Cons s specs)
  obtain r1 w1 where 1: "f s w = (r1, w1)" by fastforce
  obtain r2 w2 where 2: "eachA f specs w1 = (r2, w2)" by fastforce
  from 1 have first: "\<exists>u v. f s u = (r1, v)" by blast
  show ?case
  proof (cases r1)
    case (Inl e)
    with Cons.prems 1 have "r = Inl e" by (simp add: bindA_def)
    with first Inl show ?thesis by (auto simp: level_reports_def)
  next
    case (Inr o1)
    with Cons.prems 1 2 have "r = (case r2 of Inl e \<Rightarrow> Inl e | Inr os \<Rightarrow> Inr (o1 # os))"
      by (auto simp: bindA_def split: sum.splits)
    with first Inr Cons.IH [OF 2] show ?thesis by (cases r2) (auto simp: level_reports_def)
  qed
qed (simp add: level_reports_def)

lemma pool_reports:
  assumes "distinct order" "set order = {..<length specs}" "pool_runA order (map f specs) w = (r, w')"
  shows "level_reports f specs r"
proof -
  from pool_run [of order "map f specs" w r w'] assms obtain rs where
    rs: "length rs = length specs" "r = first_error rs" "\<forall>i < length specs. \<exists>u v. f (specs ! i) u = (rs ! i, v)"
    by auto
  show ?thesis
  proof (cases r)
    case (Inl e)
    then obtain i where "i < length specs" "rs ! i = Inl e"
      using rs(1,2) first_error_Inl [of rs e] by (auto simp: in_set_conv_nth)
    with rs(3) Inl show ?thesis by (fastforce simp: level_reports_def)
  next
    case (Inr os)
    with rs(2) have "rs = map Inr os" by (simp add: first_error_Inr [symmetric])
    with rs(1,3) Inr show ?thesis by (auto simp: level_reports_def list_all2_conv_all_nth)
  qed
qed

lemma level_reports_named:
  "level_reports (\<lambda>s. run_with_retriesA env s rid) specs (Inr os) \<Longrightarrow>
   list_all settled os \<and> map to_table_fqn os = map table_fqn specs"
  unfolding level_reports_def sum.case
  by (induction rule: list_all2_induct) (auto dest: retries_named)

lemma run_specs_one [simp]: "run_specsA env k rid [s] = eachA (\<lambda>s. run_with_retriesA env s rid) [s]"
  by (simp add: run_specsA_def)

lemma specs_report:
  assumes "run_specsA env k rid specs w = (r, w')"
  shows "level_reports (\<lambda>s. run_with_retriesA env s rid) specs r"
proof (cases "k = 1 \<or> length specs = 1")
  case True
  with assms show ?thesis by (auto simp: run_specsA_def each_reports)
next
  case False
  with assms have "pool_runA (pool_order env (length specs) w) (map (\<lambda>s. run_with_retriesA env s rid) specs) w = (r, w')"
    by (simp add: run_specsA_def bindA_def)
  then show ?thesis by (rule pool_reports [rotated 2]) (simp_all add: pool_order_set)
qed

lemma specs_named:
  "run_specsA env k rid specs w = (Inr os, w') \<Longrightarrow>
   list_all settled os \<and> map to_table_fqn os = map table_fqn specs"
  by (rule level_reports_named [OF specs_report])

lemma skip_blocked_result:
  "skip_blockedA env rid blocked bs w = (Inr (err, bs'), w') \<Longrightarrow>
   (\<exists>os. bs_outcomes bs' = bs_outcomes bs @ os \<and> list_all settled os) \<and>
   (err = None \<longrightarrow>
     bs_outcomes bs' = bs_outcomes bs @
       map (\<lambda>(s, _). plain_outcome (table_fqn s) rid TaskSkipped 1) blocked \<and>
     bs_failed bs' = bs_failed bs @ map (\<lambda>(s, _). table_fqn s) blocked \<and>
     set (dict_keys (bs_skipped bs')) = set (dict_keys (bs_skipped bs)) \<union> (\<lambda>(s, _). table_fqn s) ` set blocked)"
proof (induction blocked arbitrary: bs w)
  case (Cons b blocked)
  obtain spec blockers where b: "b = (spec, blockers)" by (cases b)
  let ?reason = "''dependency failed: '' @ join '', '' blockers"
  let ?noted = "bs\<lparr>bs_skipped := dict_set (bs_skipped bs) (table_fqn spec) ?reason\<rparr>"
  let ?skip = "skip_for_dependencyA env spec rid ?reason"
  obtain r w1 where s: "?skip w = (r, w1)" by (cases "?skip w")
  show ?case
  proof (cases r)
    case (Inl e)
    with s Cons.prems show ?thesis by (auto simp: b bindA_def tryA_def Let_def)
  next
    case (Inr o1)
    with s have o1: "o1 = plain_outcome (table_fqn spec) rid TaskSkipped 1"
      by (auto simp: skip_for_dependencyA_def elim!: bindA_InrE)
    have "skip_blockedA env rid blocked (?noted\<lparr>bs_outcomes := bs_outcomes ?noted @ [o1],
        bs_failed := bs_failed ?noted @ [table_fqn spec]\<rparr>) w1 = (Inr (err, bs'), w')"
      using Cons.prems s Inr by (simp add: b bindA_def tryA_def Let_def)
    from Cons.IH [OF this] show ?thesis
      by (auto simp: b o1 settled_def plain_outcome_def dict_keys_set)
  qed
qed simp

lemma run_level_result:
  assumes "run_levelA env opt rid runnable bs w = (Inr (err, bs'), w')"
  shows "\<exists>os. bs_outcomes bs' = bs_outcomes bs @ os \<and> list_all settled os \<and> bs_skipped bs' = bs_skipped bs \<and>
    (err = None \<longrightarrow> map to_table_fqn os = map table_fqn runnable \<and>
      bs_failed bs' = bs_failed bs @ map to_table_fqn (filter (\<lambda>o'. to_status o' = TaskFailed) os))"
proof -
  obtain r w1 where e: "run_specsA env (ro_max_workers opt) rid runnable w = (r, w1)" by fastforce
  with assms specs_named show ?thesis
    by (cases r) (fastforce simp: run_levelA_def bindA_def tryA_def)+
qed

section \<open>The run row\<close>

text \<open>The control store answers; the audit log may fail too.\<close>

definition store_up :: "'s env \<Rightarrow> bool" where
  "store_up env = (\<forall>n. en_fault env ControlCall n = NoFault)"

lemma levels_settled:
  "levelsA env opt rid levels bs w = (Inr (err, bs'), w') \<Longrightarrow> list_all settled (bs_outcomes bs) \<Longrightarrow>
   list_all settled (bs_outcomes bs')"
proof (induction levels arbitrary: bs w)
  case (Cons l ls)
  obtain runnable blocked where p: "partition_level (ro_skip_dependents opt) l (bs_failed bs) = (runnable, blocked)"
    by (cases "partition_level (ro_skip_dependents opt) l (bs_failed bs)")
  from Cons.prems(1) obtain err1 bs1 w1 where
    1: "skip_blockedA env rid blocked bs w = (Inr (err1, bs1), w1)" and
    rest: "(if err1 \<noteq> None then retA (err1, bs1)
      else if runnable = [] then levelsA env opt rid ls bs1
      else bindA (run_levelA env opt rid runnable bs1) (\<lambda>(err', bs2).
        if err' \<noteq> None then retA (err', bs2) else levelsA env opt rid ls bs2)) w1 = (Inr (err, bs'), w')"
    by (auto simp: p elim!: bindA_InrE)
  have s1: "list_all settled (bs_outcomes bs1)"
    using skip_blocked_result [OF 1] Cons.prems(2) by auto
  show ?case
  proof (cases "err1 \<noteq> None \<or> runnable = []")
    case True
    with rest s1 Cons.IH show ?thesis by (auto split: if_splits)
  next
    case False
    with rest obtain err2 bs2 w2 where
      2: "run_levelA env opt rid runnable bs1 w1 = (Inr (err2, bs2), w2)" and
      rest2: "(if err2 \<noteq> None then retA (err2, bs2) else levelsA env opt rid ls bs2) w2 = (Inr (err, bs'), w')"
      by (auto elim!: bindA_InrE)
    have "list_all settled (bs_outcomes bs2)" using run_level_result [OF 2] s1 by auto
    with rest2 Cons.IH show ?thesis by (auto split: if_splits)
  qed
qed simp

lemma derive_settled: "list_all settled os \<Longrightarrow> derive_run_status (map to_status os) \<noteq> RunRunning"
  by (auto simp: derive_run_status_def settled_def list_all_iff list_ex_iff Let_def)

lemma body_total: "\<exists>err bs w'. batch_bodyA env opt rid n trigger levels w = (Inr (err, bs), w')"
proof -
  have total: "\<exists>a w'. tryA m w = (Inr a, w')" for m :: "'z act" and w by (cases "m w") (simp add: tryA_def)
  have skip: "\<exists>err bs' w'. skip_blockedA env rid blocked bs w = (Inr (err, bs'), w')" for blocked bs w
  proof (induction blocked arbitrary: bs w)
    case (Cons b blocked)
    obtain spec blockers where b: "b = (spec, blockers)" by (cases b)
    obtain a w1 where "tryA (skip_for_dependencyA env spec rid (''dependency failed: '' @ join '', '' blockers)) w = (Inr a, w1)"
      using total by blast
    with Cons.IH show ?case by (cases a) (auto simp: b bindA_def Let_def)
  qed simp
  have level: "\<exists>err bs' w'. run_levelA env opt rid runnable bs w = (Inr (err, bs'), w')" for runnable bs w
  proof -
    obtain a w1 where "tryA (run_specsA env (ro_max_workers opt) rid runnable) w = (Inr a, w1)"
      using total by blast
    then show ?thesis by (cases a) (auto simp: run_levelA_def bindA_def)
  qed
  have levels: "\<exists>err bs' w'. levelsA env opt rid levels bs w = (Inr (err, bs'), w')" for levels bs w
  proof (induction levels arbitrary: bs w)
    case (Cons l ls)
    obtain runnable blocked where p: "partition_level (ro_skip_dependents opt) l (bs_failed bs) = (runnable, blocked)"
      by (cases "partition_level (ro_skip_dependents opt) l (bs_failed bs)")
    obtain err1 bs1 w1 where 1: "skip_blockedA env rid blocked bs w = (Inr (err1, bs1), w1)" using skip by blast
    obtain err2 bs2 w2 where 2: "run_levelA env opt rid runnable bs1 w1 = (Inr (err2, bs2), w2)" using level by blast
    from 1 2 Cons.IH [of bs1 w1] Cons.IH [of bs2 w2] show ?case by (auto simp: p bindA_def)
  qed simp
  obtain a w1 where "tryA (emitA env RUN_STARTED None [(''tables'', PV (VInt n)),
      (''levels'', PV (VInt (int (length levels)))), (''trigger'', PV (VStr trigger))] (Some rid) False) w = (Inr a, w1)"
    using total by blast
  with levels [of levels no_outcomes w1] show ?thesis
    by (cases a) (auto simp: batch_bodyA_def bindA_def)
qed

lemma close_run_up:
  assumes "store_up env" and close: "close_runA env run result w = (r, w')"
  shows "\<exists>ended. wd_runs w' = update_run (rc_run_id run) (br_status result) ended
    (duration_ms (en_float_ms env) (Some (rc_started_at run)) ended) None (wd_runs w)"
proof -
  obtain ended w1 where 1: "nowA env w = (Inr ended, w1)" by (simp add: nowA_def)
  have t1: "wd_runs w1 = wd_runs w" using 1 by (rule keepsD) (simp add: frames)
  define row where "row = update_run (rc_run_id run) (br_status result) ended
    (duration_ms (en_float_ms env) (Some (rc_started_at run)) ended) None (wd_runs w)"
  define w2 where "w2 = w1\<lparr>wd_runs := row, wd_calls := wd_calls w1 + 1\<rparr>"
  have "finish_runA env run (br_status result) w = (Inr (), w2)"
    using assms(1) 1 t1
    by (simp add: finish_runA_def bindA_def store_up_def executeA_def callA_def row_def w2_def)
  then have q: "quietA (finish_runA env run (br_status result)) w = (Inr (), w2)"
    by (simp add: quietA_def catchA_def bindA_def)
  let ?emit = "quietA (emitA env RUN_FINISHED None (batch_summary result) (Some (br_run_id result)) True)"
  have "?emit w2 = (r, w')" using close q by (simp add: close_runA_def bindA_def)
  then have "wd_runs w' = wd_runs w2" by (rule keepsD) (simp add: frames)
  then have "wd_runs w' = row" by (simp add: w2_def)
  then show ?thesis unfolding row_def by blast
qed

lemma run_batch_runs:
  assumes order: "order_tables specs = Inr levels" and up: "store_up env"
    and fresh: "rid \<notin> set (map run_id (wd_runs w))"
    and run: "run_batchA env opt specs rid e trigger tb job jr w = (r, w')"
  shows "\<exists>row err bs. wd_runs w' = wd_runs w @ [row] \<and> run_id row = rid \<and> run_ended_at row \<noteq> None \<and>
    run_status row = run_status_value (br_status (result_of rid e err bs)) \<and>
    list_all settled (bs_outcomes bs) \<and>
    (\<forall>res. r = Inr res \<longrightarrow> err = None \<and> res = result_of rid e None bs)"
proof -
  obtain started where
    "nowA env w = (Inr started, w\<lparr>wd_clock := wd_clock w + 1\<rparr>)" by (simp add: nowA_def)
  then obtain w1 where
    1: "start_runA env rid e trigger tb (int (length specs)) job jr w =
      (Inr (start_run_context rid e trigger tb (int (length specs)) started), w1)" and
    t1: "wd_runs w1 = wd_runs w @
      [start_run_row rid e trigger tb (int (length specs)) job jr started]"
    using up by (simp add: start_runA_def bindA_def store_up_def executeA_def callA_def insert_run_def)
  let ?run = "start_run_context rid e trigger tb (int (length specs)) started"
  obtain u w2 where 2: "bind_auditA rid e w1 = (Inr u, w2)" by (simp add: bind_auditA_def)
  have t2: "wd_runs w2 = wd_runs w1" using 2 by (rule keepsD) (simp add: frames)
  obtain err bs w3 where
    3: "batch_bodyA env opt rid (int (length specs)) trigger levels w2 = (Inr (err, bs), w3)"
    using body_total by blast
  have "keeps wd_runs (batch_bodyA env opt rid (int (length specs)) trigger levels)"
    by (intro keeps_body keeps_retries keeps_run_runs) simp_all
  with 3 have t3: "wd_runs w3 = wd_runs w2" by (rule keepsD)
  have settled: "list_all settled (bs_outcomes bs)"
    using 3 levels_settled [of env opt rid levels no_outcomes]
    by (auto simp: batch_bodyA_def no_outcomes_def elim!: bindA_InrE split: sum.splits)
  obtain q w4 where 4: "close_runA env ?run (result_of rid e err bs) w3 = (q, w4)"
    by (cases "close_runA env ?run (result_of rid e err bs) w3")
  from close_run_up [OF up 4] obtain ended where
    t4: "wd_runs w4 = update_run rid (br_status (result_of rid e err bs)) ended
      (duration_ms (en_float_ms env) (Some started) ended) None (wd_runs w3)"
    by (auto simp: start_run_context_def)
  have r: "w' = w4 \<and> (\<forall>res. r = Inr res \<longrightarrow> err = None \<and> res = result_of rid e None bs)"
    using run order 1 2 3 4 by (auto simp: run_batchA_def bindA_def split: sum.splits option.splits)
  have "map (\<lambda>r. if run_id r = rid
      then r\<lparr>run_status := st, run_ended_at := Some ended, run_duration_ms := d, run_error_message := None\<rparr>
      else r) (wd_runs w) = wd_runs w" for st d
    using fresh by (intro map_idI) auto
  then have "\<exists>row. wd_runs w4 = wd_runs w @ [row] \<and> run_id row = rid \<and> run_ended_at row \<noteq> None \<and>
      run_status row = run_status_value (br_status (result_of rid e err bs))"
    unfolding t4 t3 t2 t1 by (simp add: update_run_def start_run_row_def)
  with r settled show ?thesis by blast
qed

section \<open>Blocked tables\<close>

definition rows_of :: "string \<Rightarrow> world \<Rightarrow> task_row list" where
  "rows_of fqn w = filter (\<lambda>t. task_table_fqn t = fqn) (wd_tasks w)"

lemma rows_of_book [simp]: "book (rows_of fqn)"
  by (simp add: book_def rows_of_def)

lemma rows_of_updates [simp]:
  "rows_of fqn (w\<lparr>wd_reads := a\<rparr>) = rows_of fqn w" "rows_of fqn (w\<lparr>wd_views := b\<rparr>) = rows_of fqn w"
  "rows_of fqn (w\<lparr>wd_tables := c\<rparr>) = rows_of fqn w" "rows_of fqn (w\<lparr>wd_conf := d\<rparr>) = rows_of fqn w"
  "rows_of fqn (w\<lparr>wd_commits := e\<rparr>) = rows_of fqn w" "rows_of fqn (w\<lparr>wd_checks := g\<rparr>) = rows_of fqn w"
  "rows_of fqn (w\<lparr>wd_alerts := h\<rparr>) = rows_of fqn w" "rows_of fqn (w\<lparr>wd_marks := i\<rparr>) = rows_of fqn w"
  "rows_of fqn (w\<lparr>wd_registry := j\<rparr>) = rows_of fqn w" "rows_of fqn (w\<lparr>wd_sleeps := k\<rparr>) = rows_of fqn w"
  "rows_of fqn (w\<lparr>wd_runs := l\<rparr>) = rows_of fqn w"
  by (simp_all add: rows_of_def)

lemma update_task_rows:
  "tr_table_fqn ref \<noteq> fqn \<Longrightarrow>
   filter (\<lambda>t. task_table_fqn t = fqn) (update_task ref st m et msg d e ts) =
   filter (\<lambda>t. task_table_fqn t = fqn) ts"
  by (induction ts) (auto simp: update_task_def is_task_def finish_task_row_def)

lemma keeps_rows_finish:
  "tr_table_fqn ref \<noteq> fqn \<Longrightarrow> keeps (rows_of fqn) (finish_taskA env ref st m et msg s e)"
  unfolding finish_taskA_def
  by (intro frame.steps_bind frame.steps_lift keeps_execute rows_of_book)
     (simp add: rows_of_def update_task_rows)

text \<open>A run of one table touches the task rows of no other.\<close>

lemma keeps_rows_run:
  assumes "table_fqn spec \<noteq> fqn"
  shows "keeps (rows_of fqn) (runA env spec rid attempt)"
proof -
  have start: "keeps (rows_of fqn) (start_taskA env rid (table_fqn spec) en em wm h a s)" for en em wm h a s
    unfolding start_taskA_def
    by (intro frame.steps_bind frame.steps_ret keeps_execute rows_of_book)
       (simp add: rows_of_def insert_task_def start_task_row_def assms)
  have "keeps (rows_of fqn) (openA env spec rid attempt)"
    unfolding openA_def
    by (intro frame.steps_bind frame.steps_ret start keeps_register_config keeps_now keeps_task_event) simp_all
  moreover have "keeps (rows_of fqn) (catchA (execute_taskA env spec rid task attempt started)
      (fail_taskA env spec rid task attempt started))" if "tr_table_fqn task = table_fqn spec" for task started
    unfolding execute_taskA_def close_taskA_def fail_taskA_def
    by (intro frame.steps_rules keeps_prepare keeps_advance_watermark keeps_now keeps_task_event
        keeps_rows_finish) (simp_all add: that assms)
  moreover have "tr_table_fqn task = table_fqn spec"
    if "openA env spec rid attempt w = (Inr (started, task), w1)" for w started task w1
    using that by (auto simp: openA_def start_taskA_def elim!: bindA_InrE)
  moreover have "keeps (rows_of fqn) (skip_taskA env spec rid attempt reason)" for reason
    by (intro frames) simp
  ultimately show ?thesis
    unfolding runA_open steps_def bindA_def
    by (auto split: prod.split sum.split) (metis (no_types, lifting) snd_conv)+
qed

lemma keeps_rows_retries: "table_fqn spec \<noteq> fqn \<Longrightarrow> keeps (rows_of fqn) (run_with_retriesA env spec rid)"
  by (intro keeps_retries keeps_rows_run) simp_all

text \<open>The failed set of the loop: the tables that failed, and those blocked.\<close>

definition failed_tables :: "task_outcome list \<Rightarrow> (string, string) dict \<Rightarrow> string set" where
  "failed_tables os skipped =
     to_table_fqn ` {o' \<in> set os. to_status o' = TaskFailed} \<union> set (dict_keys skipped)"

definition tracked :: "batch_state \<Rightarrow> bool" where
  "tracked bs = (set (bs_failed bs) = failed_tables (bs_outcomes bs) (bs_skipped bs))"

definition names :: "run_spec list list \<Rightarrow> string set" where
  "names levels = table_fqn ` set (concat levels)"

lemma names_Cons [simp]: "names (l # ls) = table_fqn ` set l \<union> names ls" "names [] = {}"
  by (simp_all add: names_def image_Un)

text \<open>No table depends on one of its own level or of a later one.\<close>

fun deps_before :: "run_spec list list \<Rightarrow> bool" where
  "deps_before [] = True"
| "deps_before (l # ls) =
     ((\<forall>s \<in> set l. set (ti_depends_on (rs_table s)) \<inter> names (l # ls) = {}) \<and> deps_before ls)"

text \<open>What is recorded of one table.\<close>

definition view_of :: "string \<Rightarrow> batch_state \<Rightarrow> task_outcome list \<times> bool \<times> bool" where
  "view_of fqn bs =
     (filter (\<lambda>o'. to_table_fqn o' = fqn) (bs_outcomes bs), fqn \<in> set (dict_keys (bs_skipped bs)),
      fqn \<in> set (bs_failed bs))"

lemma skip_blocked_view:
  assumes "skip_blockedA env rid blocked bs w = (Inr (None, bs'), w')"
  shows "fqn \<notin> (\<lambda>(s, _). table_fqn s) ` set blocked \<Longrightarrow> view_of fqn bs' = view_of fqn bs"
    and "fqn \<in> (\<lambda>(s, _). table_fqn s) ` set blocked \<Longrightarrow> filter (\<lambda>o'. to_table_fqn o' = fqn) (bs_outcomes bs) = [] \<Longrightarrow>
      fqn \<in> set (dict_keys (bs_skipped bs')) \<and>
      list_all (\<lambda>o'. to_status o' = TaskSkipped) (filter (\<lambda>o'. to_table_fqn o' = fqn) (bs_outcomes bs'))"
    and "tracked bs \<Longrightarrow> tracked bs'"
proof -
  from skip_blocked_result [OF assms]
  have o': "bs_outcomes bs' = bs_outcomes bs @
       map (\<lambda>(s, _). plain_outcome (table_fqn s) rid TaskSkipped 1) blocked" and
    f: "bs_failed bs' = bs_failed bs @ map (\<lambda>(s, _). table_fqn s) blocked" and
    k: "set (dict_keys (bs_skipped bs')) = set (dict_keys (bs_skipped bs)) \<union> (\<lambda>(s, _). table_fqn s) ` set blocked"
    by auto
  have none: "filter (\<lambda>o'. to_table_fqn o' = fqn)
      (map (\<lambda>(s, _). plain_outcome (table_fqn s) rid TaskSkipped 1) blocked) = []"
    if "fqn \<notin> (\<lambda>(s, _). table_fqn s) ` set blocked"
    using that by (induction blocked) (auto simp: plain_outcome_def)
  show "fqn \<notin> (\<lambda>(s, _). table_fqn s) ` set blocked \<Longrightarrow> view_of fqn bs' = view_of fqn bs"
    using none by (auto simp: view_of_def o' f k)
  show "fqn \<in> (\<lambda>(s, _). table_fqn s) ` set blocked \<Longrightarrow> filter (\<lambda>o'. to_table_fqn o' = fqn) (bs_outcomes bs) = [] \<Longrightarrow>
      fqn \<in> set (dict_keys (bs_skipped bs')) \<and>
      list_all (\<lambda>o'. to_status o' = TaskSkipped) (filter (\<lambda>o'. to_table_fqn o' = fqn) (bs_outcomes bs'))"
    by (auto simp: o' k list_all_iff plain_outcome_def)
  show "tracked bs \<Longrightarrow> tracked bs'"
    by (auto simp: tracked_def failed_tables_def o' f k plain_outcome_def)
qed

lemma run_level_view:
  assumes "run_levelA env opt rid runnable bs w = (Inr (None, bs'), w')"
  shows "fqn \<notin> table_fqn ` set runnable \<Longrightarrow> view_of fqn bs' = view_of fqn bs"
    and "tracked bs \<Longrightarrow> tracked bs'"
proof -
  from run_level_result [OF assms] obtain os where
    o': "bs_outcomes bs' = bs_outcomes bs @ os" and k: "bs_skipped bs' = bs_skipped bs" and
    n: "map to_table_fqn os = map table_fqn runnable" and
    f: "bs_failed bs' = bs_failed bs @ map to_table_fqn (filter (\<lambda>o'. to_status o' = TaskFailed) os)"
    by auto
  have s: "to_table_fqn ` set os = table_fqn ` set runnable" using n by (metis set_map)
  show "fqn \<notin> table_fqn ` set runnable \<Longrightarrow> view_of fqn bs' = view_of fqn bs"
  proof -
    assume "fqn \<notin> table_fqn ` set runnable"
    then have "\<forall>x \<in> set os. to_table_fqn x \<noteq> fqn" using s by blast
    then show ?thesis by (auto simp: view_of_def o' k f)
  qed
  show "tracked bs \<Longrightarrow> tracked bs'"
    by (auto simp: tracked_def failed_tables_def o' f k)
qed

text \<open>A table that was blocked: noted as skipped, with no outcome but skips and no new row.\<close>

definition blocked_table :: "string \<Rightarrow> batch_state \<Rightarrow> world \<Rightarrow> world \<Rightarrow> bool" where
  "blocked_table fqn bs w w' =
     (fqn \<in> set (dict_keys (bs_skipped bs)) \<and>
      list_all (\<lambda>o'. to_status o' = TaskSkipped) (filter (\<lambda>o'. to_table_fqn o' = fqn) (bs_outcomes bs)) \<and>
      rows_of fqn w' = rows_of fqn w)"

lemma blocked_table_view:
  "blocked_table fqn bs w w' \<Longrightarrow> view_of fqn bs' = view_of fqn bs \<Longrightarrow> rows_of fqn w'' = rows_of fqn w' \<Longrightarrow>
   blocked_table fqn bs' w w''"
  by (simp add: blocked_table_def view_of_def)

text \<open>One level of the loop.\<close>

lemma level_view:
  assumes part: "partition_level True l (bs_failed bs) = (runnable, blocked)"
    and 1: "skip_blockedA env rid blocked bs w = (Inr (None, bs1), w1)"
    and 2: "if runnable = [] then bs2 = bs1 \<and> w2 = w1
      else run_levelA env opt rid runnable bs1 w1 = (Inr (None, bs2), w2)"
    and d: "distinct (map table_fqn l)" and t: "tracked bs"
  shows "tracked bs2"
    and "fqn \<notin> table_fqn ` set l \<Longrightarrow> view_of fqn bs2 = view_of fqn bs \<and> rows_of fqn w2 = rows_of fqn w"
    and "s \<in> set l \<Longrightarrow> view_of (table_fqn s) bs = ([], False, False) \<Longrightarrow> blocked_by s (bs_failed bs) \<noteq> [] \<Longrightarrow>
      blocked_table (table_fqn s) bs2 w w2"
proof -
  have bl: "(\<lambda>(s, _). table_fqn s) ` set blocked = table_fqn ` {s \<in> set l. blocked_by s (bs_failed bs) \<noteq> []}"
    and ru: "set runnable = {s \<in> set l. blocked_by s (bs_failed bs) = []}"
    using part by (auto simp: partition_level_def image_iff)
  have rows1: "rows_of f w1 = rows_of f w" for f
    using 1 by (rule keepsD) (simp add: keeps_skip_blocked)
  have rows2: "rows_of f w2 = rows_of f w1" if "f \<notin> table_fqn ` set runnable" for f
  proof (cases "runnable = []")
    case False
    have "keeps (rows_of f) (run_levelA env opt rid runnable bs1)"
      using that by (intro keeps_run_level keeps_rows_retries) auto
    with 2 False show ?thesis by (auto dest: keepsD)
  qed (use 2 in simp)
  have view2: "view_of f bs2 = view_of f bs1" if "f \<notin> table_fqn ` set runnable" for f
    using 2 that run_level_view(1) by (cases "runnable = []") auto
  have "tracked bs1" using skip_blocked_view(3) [OF 1] t by blast
  then show "tracked bs2" using 2 run_level_view(2) by (cases "runnable = []") auto
  show "view_of fqn bs2 = view_of fqn bs \<and> rows_of fqn w2 = rows_of fqn w" if "fqn \<notin> table_fqn ` set l"
  proof -
    have "fqn \<notin> table_fqn ` set runnable" "fqn \<notin> (\<lambda>(s, _). table_fqn s) ` set blocked"
      using that bl ru by auto
    with rows1 rows2 view2 skip_blocked_view(1) [OF 1] show ?thesis by simp
  qed
  show "blocked_table (table_fqn s) bs2 w w2" if "s \<in> set l" "view_of (table_fqn s) bs = ([], False, False)"
    "blocked_by s (bs_failed bs) \<noteq> []"
  proof -
    have "table_fqn s \<in> (\<lambda>(s, _). table_fqn s) ` set blocked" using that bl by blast
    moreover have "filter (\<lambda>o'. to_table_fqn o' = table_fqn s) (bs_outcomes bs) = []"
      using that(2) by (simp add: view_of_def)
    ultimately have "blocked_table (table_fqn s) bs1 w w1"
      using skip_blocked_view(2) [OF 1] rows1 by (simp add: blocked_table_def)
    moreover have "table_fqn s \<notin> table_fqn ` set runnable"
    proof
      assume "table_fqn s \<in> table_fqn ` set runnable"
      then obtain s' where "s' \<in> set l" "blocked_by s' (bs_failed bs) = []" "table_fqn s' = table_fqn s"
        using ru by auto
      with d that(1,3) show False by (metis distinct_map inj_on_def)
    qed
    ultimately show ?thesis using blocked_table_view view2 rows2 by blast
  qed
qed

lemma levels_Cons:
  assumes "levelsA env opt rid (l # ls) bs w = (Inr (None, bs'), w')"
    "partition_level (ro_skip_dependents opt) l (bs_failed bs) = (runnable, blocked)"
  obtains bs1 w1 bs2 w2 where "skip_blockedA env rid blocked bs w = (Inr (None, bs1), w1)"
    "if runnable = [] then bs2 = bs1 \<and> w2 = w1 else run_levelA env opt rid runnable bs1 w1 = (Inr (None, bs2), w2)"
    "levelsA env opt rid ls bs2 w2 = (Inr (None, bs'), w')"
  using assms by (auto elim!: bindA_InrE split: if_splits)

lemma levels_view:
  assumes "levelsA env opt rid levels bs w = (Inr (None, bs'), w')" "tracked bs" "deps_before levels"
    "distinct (map table_fqn (concat levels))" "\<And>f. f \<in> names levels \<Longrightarrow> view_of f bs = ([], False, False)"
    and skip: "ro_skip_dependents opt"
  shows "tracked bs' \<and>
    (\<forall>f. f \<notin> names levels \<longrightarrow> view_of f bs' = view_of f bs \<and> rows_of f w' = rows_of f w) \<and>
    (\<forall>s \<in> set (concat levels). blocked_by s (bs_failed bs') \<noteq> [] \<longrightarrow> blocked_table (table_fqn s) bs' w w')"
  using assms(1-5)
proof (induction levels arbitrary: bs w)
  case (Cons l ls)
  obtain runnable blocked where p: "partition_level True l (bs_failed bs) = (runnable, blocked)"
    by (cases "partition_level True l (bs_failed bs)")
  from Cons.prems(1) p [folded skip [THEN eqTrueI]] obtain bs1 w1 bs2 w2 where
    1: "skip_blockedA env rid blocked bs w = (Inr (None, bs1), w1)" and
    2: "if runnable = [] then bs2 = bs1 \<and> w2 = w1
      else run_levelA env opt rid runnable bs1 w1 = (Inr (None, bs2), w2)" and
    3: "levelsA env opt rid ls bs2 w2 = (Inr (None, bs'), w')" by (rule levels_Cons)
  have d: "distinct (map table_fqn l)" "distinct (map table_fqn (concat ls))"
    "table_fqn ` set l \<inter> names ls = {}"
    using Cons.prems(4) by (auto simp: names_def)
  note lv = level_view [OF p 1 2 d(1) Cons.prems(2)]
  have fresh: "view_of f bs2 = ([], False, False)" if "f \<in> names ls" for f
  proof -
    have "f \<notin> table_fqn ` set l" "f \<in> names (l # ls)" using that d(3) by auto
    with lv(2) Cons.prems(5) show ?thesis by simp
  qed
  have deps: "deps_before ls" using Cons.prems(3) by simp
  from Cons.IH [OF 3 lv(1) deps d(2) fresh]
  have ih: "tracked bs'"
    "\<And>f. f \<notin> names ls \<Longrightarrow> view_of f bs' = view_of f bs2 \<and> rows_of f w' = rows_of f w2"
    "\<And>s. s \<in> set (concat ls) \<Longrightarrow> blocked_by s (bs_failed bs') \<noteq> [] \<Longrightarrow> blocked_table (table_fqn s) bs' w2 w'"
    by blast+
  have other: "view_of f bs' = view_of f bs \<and> rows_of f w' = rows_of f w" if "f \<notin> names (l # ls)" for f
    using that ih(2) [of f] lv(2) [of f] by simp
  have "blocked_table (table_fqn s) bs' w w'"
    if s: "s \<in> set (concat (l # ls))" and b: "blocked_by s (bs_failed bs') \<noteq> []" for s
  proof (cases "s \<in> set l")
    case True
    from b obtain dep where dep: "dep \<in> set (ti_depends_on (rs_table s))" "dep \<in> set (bs_failed bs')"
      by (auto simp: blocked_by_def filter_empty_conv)
    have "dep \<notin> names (l # ls)" using Cons.prems(3) True dep(1) by fastforce
    from other [OF this] dep(2) have "dep \<in> set (bs_failed bs)" by (simp add: view_of_def)
    with dep(1) have "blocked_by s (bs_failed bs) \<noteq> []" by (auto simp: blocked_by_def filter_empty_conv)
    moreover have "view_of (table_fqn s) bs = ([], False, False)" using True Cons.prems(5) by simp
    ultimately have "blocked_table (table_fqn s) bs2 w w2" using lv(3) [OF True] by blast
    moreover have "table_fqn s \<notin> names ls" using True d(3) by blast
    ultimately show ?thesis using blocked_table_view ih(2) by blast
  next
    case False
    with s have sl: "s \<in> set (concat ls)" by simp
    then have "table_fqn s \<notin> table_fqn ` set l" using d(3) by (auto simp: names_def)
    with lv(2) have "rows_of (table_fqn s) w2 = rows_of (table_fqn s) w" by blast
    with ih(3) [OF sl b] show ?thesis by (simp add: blocked_table_def)
  qed
  with ih(1) other show ?case by blast
qed simp

lemma names_drop_Suc: "i < length levels \<Longrightarrow> names (drop i levels) = table_fqn ` set (levels ! i) \<union> names (drop (Suc i) levels)"
  by (simp flip: Cons_nth_drop_Suc)

lemma order_deps_before:
  assumes order: "order_tables specs = Inr levels"
  shows "deps_before levels"
proof -
  have d: "distinct (map table_fqn (concat levels))" by (rule order_tables_Inr(1) [OF order])
  have "deps_before (drop i levels)" if "i \<le> length levels" for i
    using that
  proof (induction "length levels - i" arbitrary: i)
    case (Suc n)
    then have i: "i < length levels" by linarith
    have "set (ti_depends_on (rs_table s)) \<inter> names (drop i levels) = {}" if s: "s \<in> set (levels ! i)" for s
    proof (rule ccontr)
      assume "\<not> ?thesis"
      then obtain f where f: "f \<in> set (ti_depends_on (rs_table s))" "f \<in> names (drop i levels)" by blast
      have "concat levels = concat (take i levels) @ concat (drop i levels)"
        by (metis append_take_drop_id concat_append)
      then have e: "map table_fqn (concat levels) =
          map table_fqn (concat (take i levels)) @ map table_fqn (concat (drop i levels))" by simp
      have fd: "f \<in> set (map table_fqn (concat (drop i levels)))" using f(2) by (simp add: names_def)
      then have "f \<in> set (map table_fqn specs)"
        unfolding order_tables_Inr(2) [OF order, symmetric] e by simp
      from order_tables_Inr(3) [OF order i s f(1) this] fd d show False unfolding e by auto
    qed
    moreover have "deps_before (drop (Suc i) levels)" by (rule Suc.hyps) (use Suc in linarith)+
    moreover have "drop i levels = levels ! i # drop (Suc i) levels" using i by (simp add: Cons_nth_drop_Suc)
    ultimately show ?case by simp
  qed simp
  from this [of 0] show ?thesis by simp
qed

section \<open>A batch that returns\<close>

lemma run_never_raises: "control_up env \<Longrightarrow> \<exists>o' w'. runA env spec rid attempt w = (Inr o', w')"
proof -
  assume up: "control_up env"
  show ?thesis
  proof (cases "ru_enabled (rs_runtime spec)")
    case False
    obtain w' where "task_eventA env spec rid TASK_SKIPPED
        [(''reason'', PV (VStr ''disabled by config''))] True w = (Inr (), w')" using event_up [OF up] by blast
    with False show ?thesis by (simp add: runA_open skip_taskA_def bindA_def)
  next
    case True
    obtain started ref w1 where 1: "openA env spec rid attempt w = (Inr (started, ref), w1)"
      using open_up [OF up] by blast
    obtain r w2 where 2: "execute_taskA env spec rid ref attempt started w1 = (r, w2)"
      by (cases "execute_taskA env spec rid ref attempt started w1")
    show ?thesis
    proof (cases r)
      case (Inl e)
      obtain o' w3 where "fail_taskA env spec rid ref attempt started e w2 = (Inr o', w3)"
        using fail_task_up [OF up] by blast
      with True 1 2 Inl show ?thesis by (simp add: runA_open bindA_def catchA_def)
    next
      case (Inr o')
      with True 1 2 show ?thesis by (simp add: runA_open bindA_def catchA_def)
    qed
  qed
qed

lemma attempts_never_raise:
  assumes "control_up env" "polite_senders env"
  shows "0 < n \<or> last_outcome \<noteq> None \<Longrightarrow> \<exists>o' w'. attemptsA env spec rid a n last_outcome w = (Inr o', w')"
proof (induction n arbitrary: a last_outcome w)
  case 0
  then obtain x where x: "last_outcome = Some x" by auto
  obtain w1 where "alert_failureA env spec rid x w = (Inr (), w1)" using alert_failure_up [OF assms(2)] by blast
  with x show ?case by (simp add: bindA_def)
next
  case (Suc n)
  obtain o1 w1 where run: "runA env spec rid a w = (Inr o1, w1)" using run_never_raises [OF assms(1)] by blast
  have "\<exists>w2. (if n > 0 then back_offA env spec rid a else retA ()) w1 = (Inr (), w2)"
    using back_off_up [OF assms(1)] by (cases "n > 0") simp_all
  then obtain w2 where waited: "(if n > 0 then back_offA env spec rid a else retA ()) w1 = (Inr (), w2)" ..
  obtain o2 w3 where "attemptsA env spec rid (a + 1) n (Some o1) w2 = (Inr o2, w3)" using Suc.IH by blast
  with run waited show ?case by (auto simp: bindA_def)
qed

lemma retries_never_raise:
  "control_up env \<Longrightarrow> polite_senders env \<Longrightarrow> 0 \<le> ru_retries (rs_runtime spec) \<Longrightarrow>
   \<exists>o' w'. run_with_retriesA env spec rid w = (Inr o', w')"
  unfolding run_with_retriesA_def by (rule attempts_never_raise) simp_all

lemma level_reports_up:
  "level_reports (\<lambda>s. run_with_retriesA env s rid) specs (Inl e) \<Longrightarrow>
   \<not> (control_up env \<and> polite_senders env \<and> list_all (\<lambda>s. 0 \<le> ru_retries (rs_runtime s)) specs)"
  by (auto simp: level_reports_def list_all_iff) (metis retries_never_raise Inl_Inr_False prod.inject)

lemma specs_never_raise:
  assumes "control_up env" "polite_senders env" "list_all (\<lambda>s. 0 \<le> ru_retries (rs_runtime s)) specs"
  shows "\<exists>os w'. run_specsA env k rid specs w = (Inr os, w')"
proof -
  obtain r w' where run: "run_specsA env k rid specs w = (r, w')" by fastforce
  with specs_report [OF run] level_reports_up [of env rid specs] assms show ?thesis by (cases r) auto
qed

lemma skip_blocked_up:
  assumes "control_up env"
  shows "\<exists>bs' w'. skip_blockedA env rid blocked bs w = (Inr (None, bs'), w')"
proof (induction blocked arbitrary: bs w)
  case (Cons b blocked)
  obtain s blockers where b: "b = (s, blockers)" by (cases b)
  obtain w1 where "task_eventA env s rid TASK_SKIPPED
      [(''reason'', PV (VStr (''dependency failed: '' @ join '', '' blockers)))] False w = (Inr (), w1)"
    using event_up [OF assms] by blast
  then have "tryA (skip_for_dependencyA env s rid (''dependency failed: '' @ join '', '' blockers)) w =
      (Inr (Inr (plain_outcome (table_fqn s) rid TaskSkipped 1)), w1)"
    by (simp add: tryA_def skip_for_dependencyA_def bindA_def)
  with Cons.IH show ?case by (simp add: b bindA_def Let_def)
qed simp

lemma levels_up:
  assumes up: "control_up env" "polite_senders env"
  shows "list_all (\<lambda>s. 0 \<le> ru_retries (rs_runtime s)) (concat levels) \<Longrightarrow>
    \<exists>bs' w'. levelsA env opt rid levels bs w = (Inr (None, bs'), w')"
proof (induction levels arbitrary: bs w)
  case (Cons l ls)
  obtain runnable blocked where p: "partition_level (ro_skip_dependents opt) l (bs_failed bs) = (runnable, blocked)"
    by (cases "partition_level (ro_skip_dependents opt) l (bs_failed bs)")
  then have sub: "set runnable \<subseteq> set l" by (auto simp: partition_level_def split: if_splits)
  obtain bs1 w1 where 1: "skip_blockedA env rid blocked bs w = (Inr (None, bs1), w1)"
    using skip_blocked_up [OF up(1)] by blast
  have "\<exists>os w'. run_specsA env (ro_max_workers opt) rid runnable w1 = (Inr os, w')"
    using sub Cons.prems by (intro specs_never_raise up) (auto simp: list_all_iff)
  then obtain bs2 w2 where 2: "run_levelA env opt rid runnable bs1 w1 = (Inr (None, bs2), w2)"
    by (auto simp: run_levelA_def tryA_def bindA_def)
  have ls: "list_all (\<lambda>s. 0 \<le> ru_retries (rs_runtime s)) (concat ls)" using Cons.prems by simp
  from 1 2 Cons.IH [OF ls, of bs1 w1] Cons.IH [OF ls, of bs2 w2] show ?case
    by (cases "runnable = []") (auto simp: p bindA_def)
qed simp

text \<open>The steps of a batch that returns.\<close>

lemma run_batch_split:
  assumes "order_tables specs = Inr levels"
    and "run_batchA env opt specs rid e trigger tb job jr w = (Inr res, w')"
  obtains run w1 w2 w3 bs w4 where
    "start_runA env rid e trigger tb (int (length specs)) job jr w = (Inr run, w1)"
    "bind_auditA rid e w1 = (Inr (), w2)"
    "emitA env RUN_STARTED None
       [(''tables'', PV (VInt (int (length specs)))), (''levels'', PV (VInt (int (length levels)))),
        (''trigger'', PV (VStr trigger))] (Some rid) False w2 = (Inr (), w3)"
    "levelsA env opt rid levels no_outcomes w3 = (Inr (None, bs), w4)"
    "res = result_of rid e None bs" "close_runA env run res w4 = (Inr (), w')"
proof -
  from assms obtain run w1 u w2 err bs w4 v where
    1: "start_runA env rid e trigger tb (int (length specs)) job jr w = (Inr run, w1)"
    "bind_auditA rid e w1 = (Inr u, w2)" and
    2: "batch_bodyA env opt rid (int (length specs)) trigger levels w2 = (Inr (err, bs), w4)" and
    3: "close_runA env run (result_of rid e err bs) w4 = (Inr v, w')" "err = None" "res = result_of rid e None bs"
    unfolding run_batchA_def by (auto elim!: bindA_InrE split: option.splits prod.splits)
  from 2 3(2) obtain w3 where
    "emitA env RUN_STARTED None
       [(''tables'', PV (VInt (int (length specs)))), (''levels'', PV (VInt (int (length levels)))),
        (''trigger'', PV (VStr trigger))] (Some rid) False w2 = (Inr (), w3)"
    "levelsA env opt rid levels no_outcomes w3 = (Inr (None, bs), w4)"
    unfolding batch_bodyA_def tryA_def
    by (auto elim!: bindA_InrE split: sum.splits prod.splits)
  with 1 3 that show ?thesis by simp
qed

lemma run_batch_up:
  assumes order: "order_tables specs = Inr levels" and up: "control_up env" "polite_senders env"
    and retries: "list_all (\<lambda>s. 0 \<le> ru_retries (rs_runtime s)) specs"
  shows "\<exists>res w'. run_batchA env opt specs rid e trigger tb job jr w = (Inr res, w')"
proof -
  obtain run w1 where 1: "start_runA env rid e trigger tb (int (length specs)) job jr w = (Inr run, w1)"
    using up(1) by (auto simp: start_runA_def bindA_def nowA_def control_call_up)
  obtain u w2 where 2: "bind_auditA rid e w1 = (Inr u, w2)" by (simp add: bind_auditA_def)
  obtain w3 where 3: "emitA env RUN_STARTED None
       [(''tables'', PV (VInt (int (length specs)))), (''levels'', PV (VInt (int (length levels)))),
        (''trigger'', PV (VStr trigger))] (Some rid) False w2 = (Inr (), w3)"
    using emit_up [OF up(1)] by blast
  have "set (concat levels) \<subseteq> set specs"
    using order_tables_Inr(4) [OF order] by (fastforce simp: in_set_conv_nth)
  then have "list_all (\<lambda>s. 0 \<le> ru_retries (rs_runtime s)) (concat levels)"
    using retries by (auto simp: list_all_iff)
  from levels_up [OF up this] obtain bs w4 where
    4: "levelsA env opt rid levels no_outcomes w3 = (Inr (None, bs), w4)" by blast
  have quiet: "\<exists>w'. quietA m w = (Inr (), w')" if "\<exists>w'. m w = (Inr (), w')" for m w
    using that by (auto simp: quietA_def catchA_def bindA_def)
  let ?res = "result_of rid e None bs"
  have "\<exists>w'. finish_runA env run (br_status ?res) w4 = (Inr (), w')"
    using up(1) by (auto simp: finish_runA_def bindA_def nowA_def control_call_up)
  then have "\<exists>w'. quietA (finish_runA env run (br_status ?res)) w4 = (Inr (), w')" by (rule quiet)
  then obtain w5 where 5: "quietA (finish_runA env run (br_status ?res)) w4 = (Inr (), w5)" by blast
  have "\<exists>w'. quietA (emitA env RUN_FINISHED None (batch_summary ?res) (Some (br_run_id ?res)) True) w5 = (Inr (), w')"
    by (rule quiet) (rule emit_up [OF up(1)])
  then obtain w6 where 6: "quietA (emitA env RUN_FINISHED None (batch_summary ?res) (Some (br_run_id ?res)) True) w5 = (Inr (), w6)" by blast
  show ?thesis
    using order 1 2 3 4 5 6 by (simp add: run_batchA_def batch_bodyA_def close_runA_def tryA_def bindA_def)
qed

text \<open>Without a secret provider every attempt at an enabled table fails.\<close>

lemma no_secrets_run:
  assumes "en_secrets env = None" "ru_enabled (rs_runtime spec)" "runA env spec rid a w = (Inr o', w')"
  shows "to_status o' = TaskFailed"
  using assms(3,2)
proof (cases rule: run_cases)
  case (finished started task w1 o1)
  from finished(2) show ?thesis
  proof (cases rule: execute_cases)
    case (prepared ex load report w2)
    then have False
      using assms(1)
      by (auto simp: prepareA_def extract_batchA_def extractA_def credentialsA_def Let_def elim!: bindA_InrE)
    then show ?thesis ..
  qed simp
next
  case (failed started task w1 e w2)
  then show ?thesis using fail_task_Inr by blast
qed simp

lemma no_secrets_attempts:
  assumes "en_secrets env = None" "ru_enabled (rs_runtime spec)"
    "attemptsA env spec rid a n last_outcome w = (Inr o', w')"
    "\<And>x. last_outcome = Some x \<Longrightarrow> to_status x = TaskFailed"
  shows "to_status o' = TaskFailed"
  using assms(3,4)
proof (induction n arbitrary: a last_outcome w)
  case 0
  then show ?case by (auto split: option.splits elim!: bindA_InrE)
next
  case (Suc n)
  then obtain o1 w1 where run: "runA env spec rid a w = (Inr o1, w1)" by (auto elim!: bindA_InrE)
  have "to_status o1 = TaskFailed" by (rule no_secrets_run [OF assms(1,2) run])
  with Suc.prems(1) run Suc.IH [where last_outcome = "Some o1"] show ?case
    by (auto simp: succeeded_def elim!: bindA_InrE split: if_splits)
qed

section \<open>Sample batches\<close>

definition child_of :: "string list \<Rightarrow> string \<Rightarrow> run_spec" where
  "child_of deps name =
     scn_spec\<lparr>rs_table := (rs_table scn_spec)\<lparr>ti_name := name, ti_depends_on := deps\<rparr>\<rparr>"

definition no_secret_env :: "unit env" where
  "no_secret_env = calm_env\<lparr>en_secrets := None\<rparr>"

lemma child_of_simps [simp]:
  "ru_enabled (rs_runtime (child_of deps name))" "ru_retries (rs_runtime (child_of deps name)) = 2"
  "ti_depends_on (rs_table (child_of deps name)) = deps"
  "table_fqn (child_of deps name) = ''hr.'' @ name"
  by (simp_all add: child_of_def scn_spec_def sample_spec_def default_runtime_def table_fqn_def identity_fqn_def)

lemma no_secret_env_up [simp]:
  "en_secrets no_secret_env = None" "control_up no_secret_env" "polite_senders no_secret_env" "store_up no_secret_env"
  by (simp_all add: no_secret_env_def calm_env_def control_up_def polite_senders_def store_up_def)

lemma chain_order:
  "order_tables [child_of [''hr.a''] ''b'', child_of [] ''a''] =
   Inr [[child_of [] ''a''], [child_of [''hr.a''] ''b'']]"
  by code_simp

lemma levels_outcomes_grow:
  "levelsA env opt rid levels bs w = (Inr (err, bs'), w') \<Longrightarrow> set (bs_outcomes bs) \<subseteq> set (bs_outcomes bs')"
proof (induction levels arbitrary: bs w)
  case (Cons l ls)
  obtain runnable blocked where p: "partition_level (ro_skip_dependents opt) l (bs_failed bs) = (runnable, blocked)"
    by (cases "partition_level (ro_skip_dependents opt) l (bs_failed bs)")
  from Cons.prems obtain err1 bs1 w1 where
    1: "skip_blockedA env rid blocked bs w = (Inr (err1, bs1), w1)" and
    2: "(if err1 \<noteq> None then retA (err1, bs1)
      else if runnable = [] then levelsA env opt rid ls bs1
      else bindA (run_levelA env opt rid runnable bs1) (\<lambda>(err', bs2).
        if err' \<noteq> None then retA (err', bs2) else levelsA env opt rid ls bs2)) w1 = (Inr (err, bs'), w')"
    by (auto simp: p elim!: bindA_InrE)
  have "set (bs_outcomes bs) \<subseteq> set (bs_outcomes bs1)" using skip_blocked_result [OF 1] by auto
  moreover have "set (bs_outcomes bs1) \<subseteq> set (bs_outcomes bs')"
  proof (cases "err1 \<noteq> None \<or> runnable = []")
    case True
    with 2 Cons.IH show ?thesis by (auto split: if_splits)
  next
    case False
    with 2 obtain err2 bs2 w2 where
      3: "run_levelA env opt rid runnable bs1 w1 = (Inr (err2, bs2), w2)" and
      4: "(if err2 \<noteq> None then retA (err2, bs2) else levelsA env opt rid ls bs2) w2 = (Inr (err, bs'), w')"
      by (auto elim!: bindA_InrE)
    have "set (bs_outcomes bs1) \<subseteq> set (bs_outcomes bs2)" using run_level_result [OF 3] by auto
    moreover have "set (bs_outcomes bs2) \<subseteq> set (bs_outcomes bs')"
      using 4 Cons.IH by (cases "err2 = None") auto
    ultimately show ?thesis by blast
  qed
  ultimately show ?case by blast
qed simp

text \<open>Every table gets exactly one outcome.\<close>

lemma partition_level_mset:
  "partition_level (ro_skip_dependents opt) l failed = (runnable, blocked) \<Longrightarrow>
   mset (map table_fqn l) = mset (map (\<lambda>(s, _). table_fqn s) blocked) + mset (map table_fqn runnable)"
  by (induction l arbitrary: runnable blocked) (auto simp: partition_level_def split: if_splits)

lemma levels_account:
  "levelsA env opt rid levels bs w = (Inr (None, bs'), w') \<Longrightarrow>
   mset (map to_table_fqn (bs_outcomes bs')) =
   mset (map to_table_fqn (bs_outcomes bs)) + mset (map table_fqn (concat levels))"
proof (induction levels arbitrary: bs w)
  case (Cons l ls)
  obtain runnable blocked where p: "partition_level (ro_skip_dependents opt) l (bs_failed bs) = (runnable, blocked)"
    by (cases "partition_level (ro_skip_dependents opt) l (bs_failed bs)")
  from levels_Cons [OF Cons.prems p] obtain bs1 w1 bs2 w2 where
    1: "skip_blockedA env rid blocked bs w = (Inr (None, bs1), w1)" and
    2: "if runnable = [] then bs2 = bs1 \<and> w2 = w1 else run_levelA env opt rid runnable bs1 w1 = (Inr (None, bs2), w2)" and
    3: "levelsA env opt rid ls bs2 w2 = (Inr (None, bs'), w')" .
  have "map to_table_fqn (map (\<lambda>(s, _). plain_outcome (table_fqn s) rid TaskSkipped 1) blocked) =
      map (\<lambda>(s, _). table_fqn s) blocked"
    by (induction blocked) (auto simp: plain_outcome_def)
  with skip_blocked_result [OF 1] have
    "map to_table_fqn (bs_outcomes bs1) = map to_table_fqn (bs_outcomes bs) @ map (\<lambda>(s, _). table_fqn s) blocked"
    by (auto simp del: map_map)
  moreover have "map to_table_fqn (bs_outcomes bs2) = map to_table_fqn (bs_outcomes bs1) @ map table_fqn runnable"
  proof (cases "runnable = []")
    case False
    with 2 have "run_levelA env opt rid runnable bs1 w1 = (Inr (None, bs2), w2)" by simp
    from run_level_result [OF this] show ?thesis by auto
  qed (use 2 in simp)
  ultimately show ?case
    using Cons.IH [OF 3] partition_level_mset [OF p] by (simp del: mset_map)
qed simp

section \<open>Properties\<close>

text \<open>C32: The levels of a batch hold each of its tables once and no other, no level is empty, and a
  table runs in a later level than every table of the batch it depends on.\<close>

theorem levels_respect_dependencies:
  assumes "order_tables specs = Inr levels"
  shows "distinct (map table_fqn (concat levels)) \<and>
    set (map table_fqn (concat levels)) = set (map table_fqn specs) \<and>
    (\<forall>i < length levels. levels ! i \<noteq> [] \<and> set (levels ! i) \<subseteq> set specs \<and>
      (\<forall>s \<in> set (levels ! i). \<forall>d \<in> set (ti_depends_on (rs_table s)).
        d \<in> set (map table_fqn specs) \<longrightarrow> d \<in> set (map table_fqn (concat (take i levels)))))"
  using order_tables_Inr [OF assms] by blast

lemma levels_respect_dependencies_witness:
  "''hr.a'' \<in> set (map table_fqn (concat (take 1 [[child_of [] ''a''], [child_of [''hr.a''] ''b'']])))"
  using levels_respect_dependencies [OF chain_order] by auto

text \<open>C33: Ordering a batch fails exactly when its dependencies, a table's on itself included, have a
  cycle; dependencies on tables outside the batch never make it fail.\<close>

theorem order_succeeds_iff_acyclic:
  "(\<exists>levels. order_tables specs = Inr levels) = acyclic (depends specs)"
proof (cases rule: order_tables_cases [of specs])
  case (looping f)
  then have "\<not> acyclic (depends specs)" by (auto simp: acyclic_def)
  with looping show ?thesis by simp
next
  case (stuck e)
  with stuck_cyclic show ?thesis by auto
next
  case (ordered names)
  with layered_acyclic show ?thesis by auto
qed

text \<open>C7: A batch that cannot be ordered touches nothing. Any other adds exactly one run row, and
  closes it: whatever the tables, the source, the audit log and the senders do, interrupts
  included, the row has an end time and a status that is not RUNNING, and when the batch
  returns, it is the status of the result, derived from the outcomes of its tables.\<close>

theorem run_row_is_always_closed:
  assumes "store_up env" "rid \<notin> set (map run_id (wd_runs w))"
    "run_batchA env opt specs rid e trigger tb job jr w = (r, w')"
  shows "case order_tables specs of
      Inl err \<Rightarrow> r = Inl (PyError err) \<and> w' = w
    | Inr _ \<Rightarrow> \<exists>row. wd_runs w' = wd_runs w @ [row] \<and> run_id row = rid \<and> run_ended_at row \<noteq> None \<and>
        run_status row \<noteq> run_status_value RunRunning \<and>
        (\<forall>res. r = Inr res \<longrightarrow> run_status row = run_status_value (br_status res) \<and>
          br_status res = derive_run_status (map to_status (br_outcomes res)))"
proof (cases "order_tables specs")
  case (Inl err)
  with assms(3) show ?thesis by (simp add: run_batchA_def bindA_def liftA_def)
next
  case (Inr levels)
  from run_batch_runs [OF Inr assms] obtain row err bs where
    1: "wd_runs w' = wd_runs w @ [row]" "run_id row = rid" "run_ended_at row \<noteq> None"
    "run_status row = run_status_value (br_status (result_of rid e err bs))"
    "list_all settled (bs_outcomes bs)" "\<forall>res. r = Inr res \<longrightarrow> err = None \<and> res = result_of rid e None bs"
    by blast
  have "br_status (result_of rid e err bs) \<noteq> RunRunning"
    using derive_settled [OF 1(5)] by (simp add: result_of_def)
  then have "run_status row \<noteq> run_status_value RunRunning"
    unfolding 1(4) by (cases "br_status (result_of rid e err bs)") simp_all
  with Inr 1 show ?thesis by (auto simp: result_of_def intro!: exI [of _ row])
qed

lemma run_row_is_always_closed_witness:
  "\<exists>row r w'. run_batchA no_secret_env (batch_options 4 True) [child_of [''hr.a''] ''b'', child_of [] ''a''] ''r1'' ''dev'' ''manual''
     None None None sample_world = (r, w') \<and> wd_runs w' = [row] \<and> run_status row \<noteq> ''RUNNING''"
proof -
  obtain r w' where run: "run_batchA no_secret_env (batch_options 4 True) [child_of [''hr.a''] ''b'', child_of [] ''a'']
      ''r1'' ''dev'' ''manual'' None None None sample_world = (r, w')" by fastforce
  have "''r1'' \<notin> set (map run_id (wd_runs sample_world))" "wd_runs sample_world = []"
    by (simp_all add: sample_world_def)
  with run_row_is_always_closed [OF no_secret_env_up(4) _ run] chain_order run show ?thesis by auto
qed



text \<open>C8: When the control store, the audit log and the senders are in order, a batch that can be
  ordered returns, whatever happens to its tables and in whatever order a pool takes those of a
  level, and reports on every one of them exactly once.\<close>

theorem batch_reports_every_table:
  assumes "order_tables specs = Inr levels" "control_up env" "polite_senders env"
    "list_all (\<lambda>s. 0 \<le> ru_retries (rs_runtime s)) specs"
  shows "\<exists>res w'. run_batchA env opt specs rid e trigger tb job jr w = (Inr res, w') \<and>
    distinct (map to_table_fqn (br_outcomes res)) \<and>
    set (map to_table_fqn (br_outcomes res)) = set (map table_fqn specs)"
proof -
  from run_batch_up [OF assms] obtain res w' where
    run: "run_batchA env opt specs rid e trigger tb job jr w = (Inr res, w')" by blast
  from run_batch_split [OF assms(1) run] obtain w3 bs w4 where
    lv: "levelsA env opt rid levels no_outcomes w3 = (Inr (None, bs), w4)" and
    res: "res = result_of rid e None bs" .
  have "mset (map to_table_fqn (br_outcomes res)) = mset (map table_fqn (concat levels))"
    using levels_account [OF lv] by (simp add: res result_of_def no_outcomes_def del: mset_map)
  then have "distinct (map to_table_fqn (br_outcomes res)) = distinct (map table_fqn (concat levels))"
    "set (map to_table_fqn (br_outcomes res)) = set (map table_fqn (concat levels))"
    by (rule mset_eq_imp_distinct_iff, rule mset_eq_setD)
  with run order_tables_Inr(1,2) [OF assms(1)] show ?thesis by blast
qed

lemma batch_reports_every_table_witness:
  "\<exists>res w'. run_batchA no_secret_env (batch_options 4 True) [child_of [''hr.a''] ''b'', child_of [] ''a''] ''r1'' ''dev'' ''manual''
     None None None sample_world = (Inr res, w') \<and>
     set (map to_table_fqn (br_outcomes res)) = {''hr.a'', ''hr.b''}"
proof -
  have "\<exists>res w'. run_batchA no_secret_env (batch_options 4 True) [child_of [''hr.a''] ''b'', child_of [] ''a''] ''r1'' ''dev'' ''manual''
      None None None sample_world = (Inr res, w') \<and> distinct (map to_table_fqn (br_outcomes res)) \<and>
      set (map to_table_fqn (br_outcomes res)) = set (map table_fqn [child_of [''hr.a''] ''b'', child_of [] ''a''])"
    by (rule batch_reports_every_table [OF chain_order no_secret_env_up(2,3)]) simp
  then show ?thesis by auto
qed

end
