(* ===== verification/ConfigMerge.thy ===== *)
theory ConfigMerge
  imports PyValues
begin

text \<open>
  The deep merge of configuration layers (config/merger.py).  A configuration value is a
  scalar, a mapping with string keys, a list, or a list with a merge strategy, as the YAML
  tags of config/loader.py make them.
\<close>

section \<open>Values\<close>

datatype cfg =
    CScalar pyval
  | CMap "(string \<times> cfg) list"
  | CList "cfg list"
  | CAppend "cfg list"
  | CMergeBy string "cfg list"

text \<open>Copies collapse strategy lists to plain lists.\<close>

primrec copy_value :: "cfg \<Rightarrow> cfg" where
  "copy_value (CScalar v) = CScalar v"
| "copy_value (CMap kvs) = CMap (map (map_prod id copy_value) kvs)"
| "copy_value (CList xs) = CList (map copy_value xs)"
| "copy_value (CAppend xs) = CList (map copy_value xs)"
| "copy_value (CMergeBy k xs) = CList (map copy_value xs)"

abbreviation copy_dict :: "(string \<times> cfg) list \<Rightarrow> (string \<times> cfg) list" where
  "copy_dict \<equiv> map (map_prod id copy_value)"

fun list_items :: "cfg option \<Rightarrow> cfg list" where
  "list_items (Some (CList xs)) = xs"
| "list_items (Some (CAppend xs)) = xs"
| "list_items (Some (CMergeBy k xs)) = xs"
| "list_items _ = []"

section \<open>Merging\<close>

text \<open>The key an entry is matched by: a mapping that has it; only scalars can be looked up.\<close>

definition or_root :: "string \<Rightarrow> string" where
  "or_root path = (if path = [] then ''<root>'' else path)"

definition entry_identity :: "string \<Rightarrow> string \<Rightarrow> cfg \<Rightarrow> pyval res" where
  "entry_identity key path item =
     (case item of
        CMap kvs \<Rightarrow>
          (case dict_get kvs key of
             None \<Rightarrow> Inl (ConfigMergeError (or_root path))
           | Some (CScalar v) \<Rightarrow> Inr v
           | Some _ \<Rightarrow> Inl (PyTypeError ''unhashable''))
      | _ \<Rightarrow> Inl (ConfigMergeError (or_root path)))"

text \<open>The index of the entries: the last one set for an identity counts.\<close>

type_synonym entry_index = "(pyval \<times> nat) list"

definition index_get :: "entry_index \<Rightarrow> pyval \<Rightarrow> nat option" where
  "index_get ix v = map_option snd (List.find (\<lambda>(v', _). py_eq v' v) ix)"

fun index_base :: "string \<Rightarrow> string \<Rightarrow> cfg list \<Rightarrow> cfg list \<Rightarrow> entry_index \<Rightarrow> (cfg list \<times> entry_index) res" where
  "index_base key path [] merged ix = Inr (merged, ix)"
| "index_base key path (item # items) merged ix =
     bindE (entry_identity key path item) (\<lambda>v.
     index_base key path items (merged @ [copy_value item]) ((v, length merged) # ix))"

definition child_path :: "string \<Rightarrow> string \<Rightarrow> string" where
  "child_path path key = (if path = [] then key else path @ ''.'' @ key)"

function merge_value :: "cfg option \<Rightarrow> cfg \<Rightarrow> string \<Rightarrow> cfg res"
  and merge_mappings :: "(string \<times> cfg) list \<Rightarrow> (string \<times> cfg) list \<Rightarrow> string \<Rightarrow> (string \<times> cfg) list res"
  and merge_entries :: "string \<Rightarrow> cfg list \<Rightarrow> entry_index \<Rightarrow> cfg list \<Rightarrow> string \<Rightarrow> cfg list res"
where
  "merge_value base (CMap kvs) path =
     (case base of
        Some (CMap bs) \<Rightarrow> bindE (merge_mappings (copy_dict bs) kvs path) (\<lambda>m. Inr (CMap m))
      | _ \<Rightarrow> Inr (copy_value (CMap kvs)))"
| "merge_value base (CAppend xs) path = Inr (CList (map copy_value (list_items base) @ map copy_value xs))"
| "merge_value base (CMergeBy key xs) path =
     bindE (index_base key path (list_items base) [] []) (\<lambda>(merged, ix).
     bindE (merge_entries key merged ix xs path) (\<lambda>m. Inr (CList m)))"
| "merge_value base (CScalar v) path = Inr (copy_value (CScalar v))"
| "merge_value base (CList xs) path = Inr (copy_value (CList xs))"
| "merge_mappings merged [] path = Inr merged"
| "merge_mappings merged ((key, value) # kvs) path =
     bindE (merge_value (dict_get merged key) value (child_path path key)) (\<lambda>v.
     merge_mappings (dict_set merged key v) kvs path)"
| "merge_entries key merged ix [] path = Inr merged"
| "merge_entries key merged ix (item # items) path =
     bindE (entry_identity key path item) (\<lambda>v.
     case index_get ix v of
       Some i \<Rightarrow>
         bindE (merge_value (Some (merged ! i)) item (path @ ''['' @ py_str v @ '']'')) (\<lambda>m.
         merge_entries key (merged[i := m]) ix items path)
     | None \<Rightarrow> merge_entries key (merged @ [copy_value item]) ((v, length merged) # ix) items path)"
  by pat_completeness auto
termination
  by (relation "measure (\<lambda>x. case x of
        Inl (_, v, _) \<Rightarrow> 2 * size v
      | Inr (Inl (_, kvs, _)) \<Rightarrow> 2 * size_list (size_prod (\<lambda>_. 0) size) kvs + 1
      | Inr (Inr (_, _, _, xs, _)) \<Rightarrow> 2 * size_list size xs + 1)") simp_all

text \<open>\<open>deep_merge\<close>; an absent override keeps a copy of the base.\<close>

fun deep_merge :: "cfg option \<Rightarrow> cfg option \<Rightarrow> string \<Rightarrow> cfg res" where
  "deep_merge base None path =
     Inr (case base of None \<Rightarrow> CScalar VNone | Some b \<Rightarrow> copy_value b)"
| "deep_merge base (Some override) path = merge_value base override path"

text \<open>\<open>merge_layers\<close>: absent and empty layers are skipped.\<close>

fun merge_from :: "cfg \<Rightarrow> cfg option list \<Rightarrow> cfg res" where
  "merge_from result [] = Inr result"
| "merge_from result (None # layers) = merge_from result layers"
| "merge_from result (Some l # layers) =
     (if l = CMap [] then merge_from result layers
      else bindE (deep_merge (Some result) (Some l) []) (\<lambda>r. merge_from r layers))"

definition merge_layers :: "cfg option list \<Rightarrow> cfg res" where
  "merge_layers layers = merge_from (CMap []) layers"

section \<open>Copies and plain values\<close>

fun plain_cfg :: "cfg \<Rightarrow> bool" where
  "plain_cfg (CScalar v) = True"
| "plain_cfg (CMap kvs) = list_all (\<lambda>kv. plain_cfg (snd kv)) kvs"
| "plain_cfg (CList xs) = list_all plain_cfg xs"
| "plain_cfg _ = False"

text \<open>Mappings have no repeated keys.\<close>

fun wf_cfg :: "cfg \<Rightarrow> bool" where
  "wf_cfg (CScalar v) = True"
| "wf_cfg (CMap kvs) = (dict_ok kvs \<and> list_all (\<lambda>kv. wf_cfg (snd kv)) kvs)"
| "wf_cfg (CList xs) = list_all wf_cfg xs"
| "wf_cfg (CAppend xs) = list_all wf_cfg xs"
| "wf_cfg (CMergeBy k xs) = list_all wf_cfg xs"

lemma copy_plain [simp]: "plain_cfg (copy_value v)"
  by (induction v) (auto simp: list_all_iff snds.simps)

lemma plain_copy: "plain_cfg v \<Longrightarrow> copy_value v = v"
proof (induction v)
  case (CMap kvs)
  then show ?case by (auto simp: list_all_iff snds.simps intro!: map_idI)
qed (auto simp: list_all_iff intro!: map_idI)

lemma plain_copy_dict: "plain_cfg (CMap kvs) \<Longrightarrow> copy_dict kvs = kvs"
  using plain_copy [of "CMap kvs"] by simp

lemma plain_copy_map [simp]: "list_all plain_cfg (map copy_value xs)"
  by (simp add: list_all_iff)

lemma dict_get_copy: "dict_get (copy_dict d) k = map_option copy_value (dict_get d k)"
  by (induction d) auto

lemma wf_get: "wf_cfg (CMap kvs) \<Longrightarrow> dict_get kvs k = Some v \<Longrightarrow> wf_cfg v"
  by (auto simp: list_all_iff dest!: dict_get_mem)

lemma plain_get: "plain_cfg (CMap kvs) \<Longrightarrow> dict_get kvs k = Some v \<Longrightarrow> plain_cfg v"
  by (auto simp: list_all_iff dest!: dict_get_mem)

lemma dict_set_same: "dict_get d k = Some v \<Longrightarrow> dict_set d k v = d"
  by (induction d) (auto split: if_splits)

lemma set_dict_set: "set (dict_set d k v) \<subseteq> insert (k, v) (set d)"
  by (induction d k v rule: dict_set.induct) auto

section \<open>What a merge yields\<close>

lemma index_base_plain:
  "index_base key path items merged ix = Inr (m, ix') \<Longrightarrow> list_all plain_cfg merged \<Longrightarrow> list_all plain_cfg m"
  by (induction items arbitrary: merged ix) (auto simp: bindE_Inr_iff)

lemma merge_plain:
  "merge_value base v path = Inr r \<Longrightarrow> plain_cfg r"
  "merge_mappings m kvs path = Inr m' \<Longrightarrow> plain_cfg (CMap m) \<Longrightarrow> plain_cfg (CMap m')"
  "merge_entries key es ix xs path = Inr es' \<Longrightarrow> list_all plain_cfg es \<Longrightarrow> list_all plain_cfg es'"
proof (induction base v path and m kvs path and key es ix xs path arbitrary: r and m' and es'
    rule: merge_value_merge_mappings_merge_entries.induct)
  case (1 base kvs path)
  then show ?case
    by (cases base rule: option.exhaust [case_product cfg.exhaust])
      (auto simp: bindE_Inr_iff list_all_iff split: option.splits cfg.splits)
next
  case (3 base key xs path)
  then show ?case by (auto simp: bindE_Inr_iff dest: index_base_plain)
next
  case (7 merged key val kvs path)
  then show ?case using set_dict_set by (fastforce simp: bindE_Inr_iff list_all_iff)
next
  case (9 key merged ix item items path)
  from 9(4) obtain v where v: "entry_identity key path item = Inr v" by (auto simp: bindE_Inr_iff)
  show ?case
  proof (cases "index_get ix v")
    case None
    with 9 v show ?thesis by (auto simp: bindE_Inr_iff)
  next
    case (Some i)
    with 9(4) v obtain m where
      m: "merge_value (Some (merged ! i)) item (path @ ''['' @ py_str v @ '']'') = Inr m" and
      rest: "merge_entries key (merged[i := m]) ix items path = Inr es'" by (auto simp: bindE_Inr_iff)
    have "plain_cfg m" by (rule 9(2) [OF Some m])
    then have "list_all plain_cfg (merged[i := m])"
      using 9(5) set_update_subset_insert [of merged i m] by (auto simp: list_all_iff)
    with 9(3) [OF Some rest] show ?thesis .
  qed
qed auto

lemma merge_mappings_get:
  "merge_mappings m kvs path = Inr m' \<Longrightarrow> dict_ok kvs \<Longrightarrow>
   (dict_get kvs k = None \<longrightarrow> dict_get m' k = dict_get m k) \<and>
   (\<forall>v. dict_get kvs k = Some v \<longrightarrow>
     (\<exists>x. merge_value (dict_get m k) v (child_path path k) = Inr x \<and> dict_get m' k = Some x))"
proof (induction kvs arbitrary: m)
  case (Cons kv kvs)
  obtain key val where kv: "kv = (key, val)" by (cases kv)
  from Cons.prems(1) obtain x where
    x: "merge_value (dict_get m key) val (child_path path key) = Inr x" and
    rest: "merge_mappings (dict_set m key x) kvs path = Inr m'" by (auto simp: kv bindE_Inr_iff)
  have ok: "dict_ok kvs" "dict_get kvs key = None"
    using Cons.prems(2) by (auto simp: kv dict_ok_def dict_get_None_iff dict_keys_def)
  from Cons.IH [OF rest ok(1)] ok(2) x show ?case by (auto simp: kv)
qed simp

lemma merge_value_maps:
  "merge_value (Some (CMap bs)) (CMap kvs) path = Inr r \<longleftrightarrow>
   (\<exists>m. r = CMap m \<and> merge_mappings (copy_dict bs) kvs path = Inr m)"
  by (auto simp: bindE_Inr_iff)

lemma merge_value_replaces:
  "base \<notin> Some ` range CMap \<Longrightarrow> merge_value base (CMap kvs) path = Inr (copy_value (CMap kvs))"
  by (auto split: option.splits cfg.splits)

section \<open>Paths\<close>

fun at_path :: "cfg \<Rightarrow> string list \<Rightarrow> cfg option" where
  "at_path v [] = Some v"
| "at_path (CMap kvs) (k # ks) = (case dict_get kvs k of None \<Rightarrow> None | Some v \<Rightarrow> at_path v ks)"
| "at_path _ (k # ks) = None"

text \<open>A layer says nothing of a path when one of the mappings on the way lacks the next key.\<close>

fun silent :: "cfg \<Rightarrow> string list \<Rightarrow> bool" where
  "silent (CMap kvs) (k # ks) = (case dict_get kvs k of None \<Rightarrow> True | Some v \<Rightarrow> silent v ks)"
| "silent _ _ = False"

lemma at_path_copy: "at_path v path = Some (CScalar s) \<Longrightarrow> at_path (copy_value v) path = Some (CScalar s)"
proof (induction v path rule: at_path.induct)
  case (2 kvs k ks)
  then show ?case by (auto simp: dict_get_copy split: option.splits)
qed auto

lemma merge_scalar_wins:
  "merge_value base l p = Inr r \<Longrightarrow> wf_cfg l \<Longrightarrow> at_path l path = Some (CScalar v) \<Longrightarrow>
   at_path r path = Some (CScalar v)"
proof (induction path arbitrary: base l p r)
  case (Cons k ks)
  then obtain kvs x where l: "l = CMap kvs" "dict_get kvs k = Some x" "at_path x ks = Some (CScalar v)"
    by (cases l) (auto split: option.splits)
  show ?case
  proof (cases "base \<in> Some ` range CMap")
    case True
    then obtain bs where "base = Some (CMap bs)" by auto
    with Cons.prems(1) l(1) obtain m where
      m: "r = CMap m" "merge_mappings (copy_dict bs) kvs p = Inr m" by (auto simp: bindE_Inr_iff)
    have "dict_ok kvs" using Cons.prems(2) l(1) by simp
    with merge_mappings_get [OF m(2), of k] l(2) obtain y where
      "merge_value (dict_get (copy_dict bs) k) x (child_path p k) = Inr y" "dict_get m k = Some y" by auto
    with Cons.IH [OF this(1) _ l(3)] wf_get [of kvs k x] Cons.prems(2) l m(1) show ?thesis by simp
  next
    case False
    with merge_value_replaces [OF this, of kvs p] Cons.prems(1) have "r = copy_value l"
      by (simp add: l(1) del: merge_value.simps)
    with at_path_copy [OF Cons.prems(3)] show ?thesis by simp
  qed
qed (auto elim!: merge_value.elims)

lemma merge_silent_keeps:
  "merge_value (Some b) l p = Inr r \<Longrightarrow> wf_cfg l \<Longrightarrow> plain_cfg b \<Longrightarrow> silent l path \<Longrightarrow> at_path b path = Some x \<Longrightarrow>
   at_path r path = Some x"
proof (induction path arbitrary: b l p r)
  case (Cons k ks)
  from Cons.prems(4) obtain kvs where l: "l = CMap kvs" by (cases l) auto
  from Cons.prems(5) obtain bs y where b: "b = CMap bs" "dict_get bs k = Some y" "at_path y ks = Some x"
    by (cases b) (auto split: option.splits)
  from Cons.prems(1,3) b(1) l obtain m where m: "r = CMap m" "merge_mappings bs kvs p = Inr m"
    using plain_copy_dict [of bs] by (auto simp: bindE_Inr_iff)
  have ok: "dict_ok kvs" using Cons.prems(2) l by simp
  show ?case
  proof (cases "dict_get kvs k")
    case None
    with merge_mappings_get [OF m(2) ok, of k] b m(1) show ?thesis by simp
  next
    case (Some v)
    with merge_mappings_get [OF m(2) ok, of k] b(2) obtain z where
      z: "merge_value (Some y) v (child_path p k) = Inr z" "dict_get m k = Some z" by auto
    have "wf_cfg v" "plain_cfg y" "silent v ks"
      using Some wf_get [of kvs k v] plain_get [of bs k y] Cons.prems(2-4) l b by simp_all
    with Cons.IH [OF z(1) _ _ _ b(3)] z(2) m(1) show ?thesis by simp
  qed
qed simp

lemma merge_mappings_stable:
  "(\<And>k v. (k, v) \<in> set kvs \<Longrightarrow> \<exists>x. dict_get m k = Some x \<and> merge_value (Some x) v (child_path path k) = Inr x) \<Longrightarrow>
   merge_mappings m kvs path = Inr m"
proof (induction kvs)
  case (Cons kv kvs)
  obtain k v where kv: "kv = (k, v)" by (cases kv)
  obtain x where "dict_get m k = Some x" "merge_value (Some x) v (child_path path k) = Inr x"
    using Cons.prems [of k v] kv by auto
  with Cons kv show ?case by (simp add: dict_set_same)
qed simp

lemma merge_plain_new: "plain_cfg v \<Longrightarrow> merge_value None v p = Inr v"
  using plain_copy [of v] by (cases v) auto

lemma merge_twice:
  "plain_cfg l \<Longrightarrow> wf_cfg l \<Longrightarrow> merge_value base l p = Inr r \<Longrightarrow> merge_value (Some r) l p' = Inr r"
proof (induction l arbitrary: base p r p')
  case (CMap kvs)
  have mem: "plain_cfg v \<and> wf_cfg v \<and> dict_get kvs k = Some v" if "(k, v) \<in> set kvs" for k v
    using CMap.prems(1,2) that by (auto simp: list_all_iff dict_ok_def dict_get_def)
  have ih: "merge_value base' v q = Inr x \<Longrightarrow> merge_value (Some x) v q' = Inr x"
    if "(k, v) \<in> set kvs" for k v base' q x q'
    using CMap.IH [of "(k, v)" v] mem [OF that] that by (simp add: snds.simps)
  show ?case
  proof (cases "base \<in> Some ` range CMap")
    case True
    then obtain bs where "base = Some (CMap bs)" by auto
    with CMap.prems(3) obtain m where
      m: "r = CMap m" "merge_mappings (copy_dict bs) kvs p = Inr m" by (auto simp: bindE_Inr_iff)
    have plain: "copy_dict m = m" using merge_plain(1) [OF CMap.prems(3)] m(1) plain_copy_dict by simp
    have ok: "dict_ok kvs" using CMap.prems(2) by simp
    have "merge_mappings m kvs p' = Inr m"
    proof (rule merge_mappings_stable)
      fix k v assume kv: "(k, v) \<in> set kvs"
      with merge_mappings_get [OF m(2) ok, of k] mem obtain x where
        x: "merge_value (dict_get (copy_dict bs) k) v (child_path p k) = Inr x" "dict_get m k = Some x" by auto
      with ih [OF kv x(1)] show "\<exists>x. dict_get m k = Some x \<and> merge_value (Some x) v (child_path p' k) = Inr x" by auto
    qed
    then show ?thesis by (simp add: m(1) plain)
  next
    case False
    then have r: "r = CMap kvs"
      using CMap.prems(1,3) plain_copy_dict [of kvs] merge_value_replaces [OF False, of kvs p]
      by (simp del: merge_value.simps)
    have "merge_mappings kvs kvs p' = Inr kvs"
    proof (rule merge_mappings_stable)
      fix k v assume kv: "(k, v) \<in> set kvs"
      show "\<exists>x. dict_get kvs k = Some x \<and> merge_value (Some x) v (child_path p' k) = Inr x"
        using mem [OF kv] ih [OF kv merge_plain_new] by auto
    qed
    then show ?thesis using plain_copy_dict [OF CMap.prems(1)] by (simp add: r)
  qed
next
  case (CList xs)
  then show ?case using plain_copy [of "CList xs"] by (cases base) (auto elim!: merge_value.elims)
qed (auto elim!: merge_value.elims)

lemma merge_from_append: "merge_from r (ls @ ls') = bindE (merge_from r ls) (\<lambda>r'. merge_from r' ls')"
  by (induction r ls rule: merge_from.induct) (auto simp: bindE_assoc)

lemma merge_from_plain: "merge_from r ls = Inr r' \<Longrightarrow> plain_cfg r \<Longrightarrow> plain_cfg r'"
  by (induction r ls rule: merge_from.induct) (auto simp: bindE_Inr_iff dest: merge_plain(1) split: if_splits)

section \<open>Lists merged by a key\<close>

definition entry_key :: "string \<Rightarrow> cfg \<Rightarrow> pyval option" where
  "entry_key key v =
     (case v of
        CMap kvs \<Rightarrow> (case dict_get kvs key of Some (CScalar s) \<Rightarrow> Some s | _ \<Rightarrow> None)
      | _ \<Rightarrow> None)"

definition same_entry :: "string \<Rightarrow> cfg \<Rightarrow> cfg \<Rightarrow> bool" where
  "same_entry key v w =
     (case (entry_key key v, entry_key key w) of (Some a, Some b) \<Rightarrow> py_eq a b | _ \<Rightarrow> False)"

text \<open>No two entries have the same key.\<close>

abbreviation unique_entries :: "string \<Rightarrow> cfg list \<Rightarrow> bool" where
  "unique_entries key \<equiv> sorted_wrt (\<lambda>v w. \<not> same_entry key v w)"

lemma entry_identity_Inr:
  "entry_identity key path item = Inr v \<longleftrightarrow> (\<exists>kvs. item = CMap kvs \<and> dict_get kvs key = Some (CScalar v))"
  by (auto simp: entry_identity_def split: cfg.splits option.splits)

lemma entry_key_Some: "entry_key key v = Some a \<longleftrightarrow> (\<exists>kvs. v = CMap kvs \<and> dict_get kvs key = Some (CScalar a))"
  by (auto simp: entry_key_def split: cfg.splits option.splits)

lemma entry_key_copy: "entry_key key v = Some a \<Longrightarrow> entry_key key (copy_value v) = Some a"
  by (auto simp: entry_key_Some dict_get_copy)

lemma same_entry_Some:
  "entry_key key v = Some a \<Longrightarrow> entry_key key w = Some b \<Longrightarrow> same_entry key v w = py_eq a b"
  by (simp add: same_entry_def)

definition indexed :: "string \<Rightarrow> cfg list \<Rightarrow> entry_index \<Rightarrow> bool" where
  "indexed key es ix =
     ((\<forall>e \<in> set es. entry_key key e \<noteq> None) \<and>
      (\<forall>v. case index_get ix v of
          Some i \<Rightarrow> i < length es \<and> (\<exists>a. entry_key key (es ! i) = Some a \<and> py_eq a v)
        | None \<Rightarrow> (\<forall>e \<in> set es. \<forall>a. entry_key key e = Some a \<longrightarrow> \<not> py_eq a v)))"

lemma indexedI:
  assumes "\<And>e. e \<in> set es \<Longrightarrow> \<exists>a. entry_key key e = Some a"
    "\<And>v i. index_get ix v = Some i \<Longrightarrow> i < length es \<and> (\<exists>a. entry_key key (es ! i) = Some a \<and> py_eq a v)"
    "\<And>v e a. index_get ix v = None \<Longrightarrow> e \<in> set es \<Longrightarrow> entry_key key e = Some a \<Longrightarrow> \<not> py_eq a v"
  shows "indexed key es ix"
  using assms by (auto simp: indexed_def split: option.split)

lemma indexed_keyed: "indexed key es ix \<Longrightarrow> e \<in> set es \<Longrightarrow> \<exists>a. entry_key key e = Some a"
  by (auto simp: indexed_def)

lemma indexed_Some:
  "indexed key es ix \<Longrightarrow> index_get ix v = Some i \<Longrightarrow>
   i < length es \<and> (\<exists>a. entry_key key (es ! i) = Some a \<and> py_eq a v)"
  unfolding indexed_def by (drule conjunct2, drule spec [of _ v]) simp

lemma indexed_None:
  "indexed key es ix \<Longrightarrow> index_get ix v = None \<Longrightarrow> e \<in> set es \<Longrightarrow> entry_key key e = Some a \<Longrightarrow> \<not> py_eq a v"
  unfolding indexed_def by (drule conjunct2, drule spec [of _ v]) simp

lemma index_get_Cons: "index_get ((v, n) # ix) u = (if py_eq v u then Some n else index_get ix u)"
  by (simp add: index_get_def)

lemma indexed_add:
  assumes "indexed key es ix" "entry_key key e = Some v"
  shows "indexed key (es @ [e]) ((v, length es) # ix)"
proof (rule indexedI)
  show "\<exists>a. entry_key key x = Some a" if "x \<in> set (es @ [e])" for x
    using that assms indexed_keyed by auto
  show "i < length (es @ [e]) \<and> (\<exists>a. entry_key key ((es @ [e]) ! i) = Some a \<and> py_eq a u)"
    if "index_get ((v, length es) # ix) u = Some i" for u i
  proof (cases "py_eq v u")
    case True
    with that assms(2) show ?thesis by (auto simp: index_get_Cons)
  next
    case False
    with that indexed_Some [OF assms(1), of u i] show ?thesis by (auto simp: index_get_Cons nth_append)
  qed
  show "\<not> py_eq a u" if "index_get ((v, length es) # ix) u = None" "x \<in> set (es @ [e])" "entry_key key x = Some a" for u x a
    using that assms(2) indexed_None [OF assms(1), of u x a] by (auto simp: index_get_Cons split: if_splits)
qed

lemma indexed_set:
  assumes "indexed key es ix" "i < length es" "entry_key key (es ! i) = Some a" "entry_key key e = Some v" "py_eq a v"
  shows "indexed key (es[i := e]) ix"
proof (rule indexedI)
  have sub: "set (es[i := e]) \<subseteq> insert e (set es)" by (rule set_update_subset_insert)
  have vu: "py_eq v u = py_eq a u" for u by (rule py_eq_class [OF assms(5)])
  show "\<exists>b. entry_key key x = Some b" if "x \<in> set (es[i := e])" for x
    using that sub assms(1,4) indexed_keyed by blast
  show "j < length (es[i := e]) \<and> (\<exists>b. entry_key key (es[i := e] ! j) = Some b \<and> py_eq b u)"
    if "index_get ix u = Some j" for u j
    using indexed_Some [OF assms(1) that] assms(3,4) vu by (cases "j = i") auto
  show "\<not> py_eq b u" if "index_get ix u = None" "x \<in> set (es[i := e])" "entry_key key x = Some b" for u x b
  proof (cases "x = e")
    case True
    with that(3) assms(4) vu indexed_None [OF assms(1) that(1) _ assms(3)] assms(2) show ?thesis by simp
  next
    case False
    with that(2) sub indexed_None [OF assms(1) that(1) _ that(3)] show ?thesis by blast
  qed
qed

lemma index_base_indexed:
  "index_base key path items merged ix = Inr (m, ix') \<Longrightarrow> indexed key merged ix \<Longrightarrow>
   m = merged @ map copy_value items \<and> indexed key m ix'"
proof (induction items arbitrary: merged ix)
  case (Cons item items)
  then obtain v where v: "entry_key key item = Some v"
    "index_base key path items (merged @ [copy_value item]) ((v, length merged) # ix) = Inr (m, ix')"
    by (auto simp: bindE_Inr_iff entry_identity_Inr entry_key_Some)
  from Cons.IH [OF v(2) indexed_add [OF Cons.prems(2) entry_key_copy [OF v(1)]]] show ?case by auto
qed simp

lemma index_base_keyed:
  "index_base key path items merged ix = Inr (m, ix') \<Longrightarrow> b \<in> set items \<Longrightarrow> \<exists>a. entry_key key b = Some a"
  by (induction items arbitrary: merged ix) (auto simp: bindE_Inr_iff entry_identity_Inr entry_key_Some)

lemma merged_entry_key:
  assumes "merge_value (Some b) item p = Inr m" "entry_key key b = Some a" "entry_key key item = Some v" "wf_cfg item"
  shows "entry_key key m = Some v"
proof -
  from assms(2,3) obtain bs kvs where b: "b = CMap bs" "item = CMap kvs" "dict_get kvs key = Some (CScalar v)"
    by (auto simp: entry_key_Some)
  with assms(1) obtain m' where m: "m = CMap m'" "merge_mappings (copy_dict bs) kvs p = Inr m'"
    by (auto simp: bindE_Inr_iff)
  with merge_mappings_get [OF m(2), of key] assms(4) b show ?thesis by (auto simp: entry_key_Some)
qed

lemma unique_set:
  assumes "unique_entries key es" "entry_key key (es ! i) = Some a" "entry_key key e = Some v" "py_eq a v"
  shows "unique_entries key (es[i := e])"
proof -
  have l: "same_entry key e x = same_entry key (es ! i) x" "same_entry key x e = same_entry key x (es ! i)" for x
    using assms(2,3) py_eq_class [OF assms(4)] by (simp_all add: same_entry_def split: option.split)
  show ?thesis
    unfolding sorted_wrt_iff_nth_less
  proof (intro allI impI)
    fix j k assume "j < k" "k < length (es[i := e])"
    moreover from this have "\<not> same_entry key (es ! j) (es ! k)"
      using assms(1) unfolding sorted_wrt_iff_nth_less by simp
    ultimately show "\<not> same_entry key (es[i := e] ! j) (es[i := e] ! k)"
      using l by (cases "j = i"; cases "k = i") auto
  qed
qed

lemma merge_entries_result:
  "merge_entries key es ix xs path = Inr ys \<Longrightarrow> indexed key es ix \<Longrightarrow> list_all wf_cfg xs \<Longrightarrow>
   (unique_entries key es \<longrightarrow> unique_entries key ys) \<and>
   (\<forall>i < length es. i < length ys \<and> same_entry key (ys ! i) (es ! i) \<and>
      ((\<forall>x \<in> set xs. \<not> same_entry key x (es ! i)) \<longrightarrow> ys ! i = es ! i)) \<and>
   (\<forall>x \<in> set xs. \<exists>y \<in> set ys. same_entry key x y)"
proof (induction xs arbitrary: es ix)
  case Nil
  then have "same_entry key (es ! i) (es ! i)" if "i < length es" for i
    using that indexed_keyed [of key es ix "es ! i"] by (auto simp: same_entry_def)
  with Nil show ?case by simp
next
  case (Cons x xs)
  from Cons.prems(1) obtain v where v: "entry_identity key path x = Inr v" by (auto simp: bindE_Inr_iff)
  then have xv: "entry_key key x = Some v" by (auto simp: entry_identity_Inr entry_key_Some)
  have wf: "wf_cfg x" "list_all wf_cfg xs" using Cons.prems(3) by simp_all
  show ?case
  proof (cases "index_get ix v")
    case None
    let ?es = "es @ [copy_value x]"
    have new: "entry_key key (copy_value x) = Some v" by (rule entry_key_copy [OF xv])
    from Cons.prems(1) v None have rest: "merge_entries key ?es ((v, length es) # ix) xs path = Inr ys" by simp
    note ih = Cons.IH [OF rest indexed_add [OF Cons.prems(2) new] wf(2)]
    have other: "\<not> same_entry key e x \<and> \<not> same_entry key x e \<and> \<not> same_entry key e (copy_value x)" if e: "e \<in> set es" for e
    proof -
      obtain a where a: "entry_key key e = Some a" using indexed_keyed [OF Cons.prems(2) e] by blast
      then have "\<not> py_eq a v" "\<not> py_eq v a"
        using indexed_None [OF Cons.prems(2) None e a] py_eq_sym by blast+
      with a xv new show ?thesis by (simp add: same_entry_def)
    qed
    have "unique_entries key es \<longrightarrow> unique_entries key ?es" using other by (simp add: sorted_wrt_append)
    moreover have "\<exists>y \<in> set ys. same_entry key x y"
    proof -
      from ih have y: "length es < length ys" "same_entry key (ys ! length es) (copy_value x)"
        by (auto dest!: conjunct1 [OF conjunct2] spec [of _ "length es"])
      then have "same_entry key x (ys ! length es)"
        using xv new py_eq_sym by (auto simp: same_entry_def split: option.splits)
      with y(1) show ?thesis by auto
    qed
    moreover have "\<forall>i < length es. i < length ys \<and> same_entry key (ys ! i) (es ! i) \<and>
        ((\<forall>x \<in> set xs. \<not> same_entry key x (es ! i)) \<longrightarrow> ys ! i = es ! i)"
    proof (intro allI impI)
      fix i assume i: "i < length es"
      have "i < length ys \<and> same_entry key (ys ! i) (?es ! i) \<and>
          ((\<forall>x \<in> set xs. \<not> same_entry key x (?es ! i)) \<longrightarrow> ys ! i = ?es ! i)"
        using ih i by (simp only: length_append) simp
      with i show "i < length ys \<and> same_entry key (ys ! i) (es ! i) \<and>
          ((\<forall>x \<in> set xs. \<not> same_entry key x (es ! i)) \<longrightarrow> ys ! i = es ! i)"
        by (simp add: nth_append)
    qed
    ultimately show ?thesis using ih by auto
  next
    case (Some i)
    obtain a where i: "i < length es" "entry_key key (es ! i) = Some a" "py_eq a v"
      using indexed_Some [OF Cons.prems(2) Some] by blast
    from Cons.prems(1) v Some obtain m where
      m: "merge_value (Some (es ! i)) x (path @ ''['' @ py_str v @ '']'') = Inr m" and
      rest: "merge_entries key (es[i := m]) ix xs path = Inr ys" by (auto simp: bindE_Inr_iff)
    have mv: "entry_key key m = Some v" by (rule merged_entry_key [OF m i(2) xv wf(1)])
    note ih = Cons.IH [OF rest indexed_set [OF Cons.prems(2) i(1,2) mv i(3)] wf(2)]
    have same: "same_entry key u m = same_entry key u (es ! i)" for u
      using i(2) mv py_eq_class [OF i(3)] by (simp add: same_entry_def split: option.split)
    have ys: "j < length ys \<and> same_entry key (ys ! j) (es ! j) \<and>
        ((\<forall>u \<in> set xs. \<not> same_entry key u (es[i := m] ! j)) \<longrightarrow> ys ! j = es[i := m] ! j)"
      if "j < length es" for j
      using ih that same by (cases "j = i") auto
    have xi: "same_entry key x (es ! i)" using xv i py_eq_sym by (simp add: same_entry_def)
    have "\<forall>j < length es. j < length ys \<and> same_entry key (ys ! j) (es ! j) \<and>
        ((\<forall>u \<in> set (x # xs). \<not> same_entry key u (es ! j)) \<longrightarrow> ys ! j = es ! j)"
    proof (intro allI impI)
      fix j assume j: "j < length es"
      with ys [OF j] xi show "j < length ys \<and> same_entry key (ys ! j) (es ! j) \<and>
        ((\<forall>u \<in> set (x # xs). \<not> same_entry key u (es ! j)) \<longrightarrow> ys ! j = es ! j)"
        by (cases "j = i") auto
    qed
    moreover have "\<exists>y \<in> set ys. same_entry key x y"
    proof -
      have "same_entry key (ys ! i) (es ! i)" "i < length ys" using ys [OF i(1)] by auto
      then have "same_entry key x (ys ! i)"
        using xv i(2) py_eq_class [OF i(3)] py_eq_sym by (auto simp: same_entry_def split: option.splits)
      with \<open>i < length ys\<close> show ?thesis by auto
    qed
    ultimately show ?thesis using ih unique_set [OF _ i(2) mv i(3)] by auto
  qed
qed

section \<open>Properties\<close>

text \<open>C23: Where a later layer gives a scalar, the merged configuration has it; where it says nothing,
  what the earlier layers made of the path stays; and no list with a merge strategy is left
  in the result.\<close>

theorem later_layers_win:
  assumes "merge_layers layers = Inr before" "merge_layers (layers @ [Some l]) = Inr merged" "wf_cfg l"
  shows "plain_cfg merged \<and>
    (\<forall>path v. at_path l path = Some (CScalar v) \<longrightarrow> at_path merged path = Some (CScalar v)) \<and>
    (\<forall>path x. silent l path \<and> at_path before path = Some x \<longrightarrow> at_path merged path = Some x)"
proof -
  have plain: "plain_cfg before" "plain_cfg merged"
    using assms(1,2) merge_from_plain [of "CMap []"] by (simp_all add: merge_layers_def)
  show ?thesis
  proof (cases "l = CMap []")
    case True
    have no: "at_path l path \<noteq> Some (CScalar v)" for path v
      unfolding True by (cases path) simp_all
    from True assms(1,2) have "merged = before"
      by (auto simp: merge_layers_def merge_from_append)
    with plain no show ?thesis by simp
  next
    case False
    with assms(1,2) have "merge_value (Some before) l [] = Inr merged"
      by (auto simp: merge_layers_def merge_from_append bindE_Inr_iff)
    from merge_scalar_wins [OF this assms(3)] merge_silent_keeps [OF this assms(3) plain(1)] plain(2)
    show ?thesis by blast
  qed
qed

definition base_layer :: cfg where
  "base_layer = CMap [(''runtime'', CMap [(''retries'', CScalar (VInt 2)), (''enabled'', CScalar (VBool True))]),
     (''checks'', CList [CMap [(''column'', CScalar (VStr ''a'')), (''action'', CScalar (VStr ''fail''))]])]"

definition over_layer :: cfg where
  "over_layer = CMap [(''runtime'', CMap [(''retries'', CScalar (VInt 5))]),
     (''checks'', CMergeBy ''column'' [CMap [(''column'', CScalar (VStr ''b''))],
        CMap [(''column'', CScalar (VStr ''a'')), (''action'', CScalar (VStr ''warn''))]])]"

lemma later_layers_win_witness:
  "\<exists>merged. merge_layers [Some base_layer, Some over_layer] = Inr merged \<and>
     at_path merged [''runtime'', ''retries''] = Some (CScalar (VInt 5)) \<and>
     at_path merged [''runtime'', ''enabled''] = Some (CScalar (VBool True))"
proof -
  have before: "merge_layers [Some base_layer] = Inr base_layer" by code_simp
  have "is_ok (merge_layers ([Some base_layer] @ [Some over_layer]))" by code_simp
  then obtain merged where m: "merge_layers ([Some base_layer] @ [Some over_layer]) = Inr merged"
    by (auto simp: is_ok_def split: sum.splits)
  have wf: "wf_cfg over_layer" by code_simp
  have "at_path over_layer [''runtime'', ''retries''] = Some (CScalar (VInt 5))"
    "silent over_layer [''runtime'', ''enabled'']"
    "at_path base_layer [''runtime'', ''enabled''] = Some (CScalar (VBool True))" by code_simp+
  with later_layers_win [OF before m wf] m show ?thesis by auto
qed

text \<open>Applying a layer without list strategies twice is applying it once, errors included.\<close>

theorem layers_are_idempotent:
  assumes "plain_cfg l" "wf_cfg l"
  shows "merge_layers (layers @ [Some l, Some l]) = merge_layers (layers @ [Some l])"
proof (cases "merge_layers layers")
  case (Inl e)
  then show ?thesis by (simp add: merge_layers_def merge_from_append)
next
  case (Inr r)
  show ?thesis
  proof (cases "merge_value (Some r) l []")
    case (Inr r')
    with merge_twice [OF assms this, of "[]"] \<open>merge_layers layers = Inr r\<close> show ?thesis
      by (simp add: merge_layers_def merge_from_append)
  qed (use Inr in \<open>simp add: merge_layers_def merge_from_append\<close>)
qed

lemma layers_are_idempotent_witness:
  "merge_layers [Some over_layer, Some base_layer, Some base_layer] =
   merge_layers [Some over_layer, Some base_layer] \<and> is_ok (merge_layers [Some over_layer, Some base_layer])"
proof -
  have "plain_cfg base_layer" "wf_cfg base_layer" "is_ok (merge_layers [Some over_layer, Some base_layer])" by code_simp+
  with layers_are_idempotent [of base_layer "[Some over_layer]"] show ?thesis by simp
qed



end
