(* ===== verification/Bundle.thy ===== *)
theory Bundle
  imports BatchRunner ConfigMerge
begin

text \<open>
  The Workflow jobs generated from the configuration (orchestration/bundle.py): one job per
  schedule group, one task per enabled table, the dependencies inside a group as task edges.
  The generated mappings are configuration values without list strategies.
\<close>

section \<open>Options\<close>

abbreviation ctext :: "string \<Rightarrow> cfg" where
  "ctext s \<equiv> CScalar (VStr s)"

abbreviation cint :: "int \<Rightarrow> cfg" where
  "cint i \<equiv> CScalar (VInt i)"

record bundle_options =
  bo_job_cluster_key :: string
  bo_package_name :: string
  bo_entry_point :: string
  bo_config_root :: string
  bo_env_expression :: "string option"
  bo_max_concurrent_runs :: int
  bo_tags :: "(string, string) dict"
  bo_job_cluster :: "(string, cfg) dict option"

definition default_options :: bundle_options where
  "default_options =
     \<lparr>bo_job_cluster_key = ''ingest_cluster'', bo_package_name = ''ingestion_framework'',
      bo_entry_point = ''ingest'', bo_config_root = ''${workspace.file_path}/config'',
      bo_env_expression = None, bo_max_concurrent_runs = 1, bo_tags = [], bo_job_cluster = None\<rparr>"

definition cluster_definition :: "bundle_options \<Rightarrow> cfg" where
  "cluster_definition o' =
     (case bo_job_cluster o' of
        Some cluster \<Rightarrow> CMap cluster
      | None \<Rightarrow>
          CMap [(''job_cluster_key'', ctext (bo_job_cluster_key o')),
            (''new_cluster'', CMap
               [(''spark_version'', ctext ''${var.spark_version}''),
                (''node_type_id'', ctext ''${var.node_type}''),
                (''num_workers'', ctext ''${var.workers}''),
                (''data_security_mode'', ctext ''SINGLE_USER''),
                (''spark_conf'', CMap
                   [(''spark.databricks.delta.schema.autoMerge.enabled'', ctext ''true'')])])])"

section \<open>Names and groups\<close>

definition key_char :: "char \<Rightarrow> bool" where
  "key_char c = (is_alpha c \<or> is_digit c \<or> c = CHR ''_'')"

definition bundle_task_key :: "string \<Rightarrow> string" where
  "bundle_task_key fqn = map (\<lambda>c. if key_char c then c else CHR ''_'') fqn"

definition job_name :: "string \<Rightarrow> string \<Rightarrow> string" where
  "job_name env grp = ''ingest_'' @ env @ ''_'' @ grp"

abbreviation group_of :: "run_spec \<Rightarrow> string" where
  "group_of s \<equiv> sc_group (rs_schedule s)"

text \<open>\<open>grouped.setdefault(group, []).append(spec)\<close>.\<close>

definition add_to_group ::
  "(string, run_spec list) dict \<Rightarrow> run_spec \<Rightarrow> (string, run_spec list) dict" where
  "add_to_group grouped s =
     dict_set grouped (group_of s)
       ((case dict_get grouped (group_of s) of None \<Rightarrow> [] | Some ss \<Rightarrow> ss) @ [s])"

definition group_specs :: "run_spec list \<Rightarrow> (string, run_spec list) dict" where
  "group_specs specs = foldl add_to_group [] (sort_key table_fqn specs)"

text \<open>The crons and the timezones the tables of a group ask for, each once.\<close>

definition group_crons :: "run_spec list \<Rightarrow> string list" where
  "group_crons specs =
     remdups (map (\<lambda>s. text_of (sc_cron (rs_schedule s))) (filter (\<lambda>s. present (sc_cron (rs_schedule s))) specs))"

definition group_timezones :: "run_spec list \<Rightarrow> string list" where
  "group_timezones specs = remdups (map (\<lambda>s. sc_timezone (rs_schedule s)) specs)"

definition resolve_group_schedule :: "string \<Rightarrow> run_spec list \<Rightarrow> (string option \<times> string) res" where
  "resolve_group_schedule grp specs =
     (if 1 < length (group_crons specs) then
        Inl (BundleError (join '', ''
          (map (\<lambda>s. table_fqn s @ ''='' @ text_of (sc_cron (rs_schedule s)))
             (filter (\<lambda>s. present (sc_cron (rs_schedule s))) specs))))
      else if 1 < length (group_timezones specs) then
        Inl (BundleError (join '', '' (sort (group_timezones specs))))
      else
        Inr (case group_crons specs of [] \<Rightarrow> None | c # _ \<Rightarrow> Some c,
             case group_timezones specs of [] \<Rightarrow> ''UTC'' | z # _ \<Rightarrow> z))"

text \<open>The addresses among the channels, the first occurrence of each.\<close>

fun email_from :: "string list \<Rightarrow> string list \<Rightarrow> string list" where
  "email_from [] out = out"
| "email_from (channel # rest) out =
     email_from rest
       (if starts_with (str_lower channel) ''email:'' then
          (let address = str_strip (snd (the (split_once CHR '':'' channel))) in
           if address \<noteq> [] \<and> address \<notin> set out then out @ [address] else out)
        else out)"

definition email_targets :: "string list \<Rightarrow> string list" where
  "email_targets channels = email_from channels []"

section \<open>Tasks and jobs\<close>

definition task_parameters :: "run_spec \<Rightarrow> bundle_options \<Rightarrow> string \<Rightarrow> string list" where
  "task_parameters spec o' env_expression =
     [''run'', ''--table'', table_fqn spec, ''--env'', env_expression,
      ''--config-root'', bo_config_root o', ''--trigger'', ''schedule'']"

definition inner_edges :: "run_spec \<Rightarrow> string list \<Rightarrow> string list" where
  "inner_edges spec known = filter (\<lambda>d. d \<in> set known) (ti_depends_on (rs_table spec))"

definition build_task :: "run_spec \<Rightarrow> bundle_options \<Rightarrow> string \<Rightarrow> string list \<Rightarrow> cfg" where
  "build_task spec o' env_expression known =
     CMap ([(''task_key'', ctext (bundle_task_key (table_fqn spec))),
        (''job_cluster_key'', ctext (bo_job_cluster_key o')),
        (''python_wheel_task'', CMap
           [(''package_name'', ctext (bo_package_name o')),
            (''entry_point'', ctext (bo_entry_point o')),
            (''parameters'', CList (map ctext (task_parameters spec o' env_expression)))]),
        (''max_retries'', cint (sc_job_retries (rs_schedule spec))),
        (''timeout_seconds'', cint (ru_timeout_minutes (rs_runtime spec) * 60))] @
       (if inner_edges spec known = [] then []
        else [(''depends_on'', CList (map (\<lambda>d. CMap [(''task_key'', ctext (bundle_task_key d))])
                (sort (inner_edges spec known))))]) @
       (if present (ti_description (rs_table spec))
        then [(''description'', ctext (text_of (ti_description (rs_table spec))))] else []))"

definition cross_group_dependencies :: "run_spec list \<Rightarrow> string list \<Rightarrow> (string \<times> string) list" where
  "cross_group_dependencies specs known =
     concat (map (\<lambda>s. map (\<lambda>d. (table_fqn s, d))
       (filter (\<lambda>d. d \<notin> set known) (ti_depends_on (rs_table s)))) specs)"

definition job_emails :: "run_spec list \<Rightarrow> string list" where
  "job_emails specs = sorted_set (concat (map (\<lambda>s. email_targets (al_on_failure (rs_alerting s))) specs))"

definition or_env_expression :: "bundle_options \<Rightarrow> string" where
  "or_env_expression o' =
     (if present (bo_env_expression o') then text_of (bo_env_expression o') else ''${bundle.target}'')"

definition job_mapping ::
  "string \<Rightarrow> run_spec list \<Rightarrow> string \<Rightarrow> bundle_options \<Rightarrow> string option \<Rightarrow> string \<Rightarrow> cfg" where
  "job_mapping grp specs env o' cron timezone =
     (let known = map table_fqn specs; dropped = cross_group_dependencies specs known in
      CMap ([(''name'', ctext (job_name env grp)),
         (''job_clusters'', CList [cluster_definition o']),
         (''max_concurrent_runs'', cint (bo_max_concurrent_runs o')),
         (''tags'', CMap (dict_update
            [(''managed_by'', ctext ''ingestion-framework''), (''schedule_group'', ctext grp)]
            (map (\<lambda>(k, v). (k, ctext v)) (bo_tags o')))),
         (''tasks'', CList (map (\<lambda>s. build_task s o' (or_env_expression o') known) specs))] @
        (if present cron
         then [(''schedule'', CMap [(''quartz_cron_expression'', ctext (text_of cron)),
                 (''timezone_id'', ctext timezone), (''pause_status'', ctext ''UNPAUSED'')])]
         else []) @
        (if job_emails specs = [] then []
         else [(''email_notifications'',
                CMap [(''on_failure'', CList (map ctext (job_emails specs)))])]) @
        (if dropped = [] then []
         else [(''description'', ctext (''Cross-group dependencies are not expressed as task edges: '' @
                 join ''; '' (map (\<lambda>(t, d). t @ '' depends on '' @ d) dropped)))])))"

definition build_job :: "string \<Rightarrow> run_spec list \<Rightarrow> string \<Rightarrow> bundle_options option \<Rightarrow> cfg res" where
  "build_job grp specs env options =
     (if specs = [] then Inl (BundleError grp)
      else
        let o' = (case options of None \<Rightarrow> default_options | Some opts \<Rightarrow> opts) in
        bindE (resolve_group_schedule grp specs) (\<lambda>(cron, timezone).
        bindE (order_tables specs) (\<lambda>_.
        Inr (job_mapping grp specs env o' cron timezone))))"

abbreviation enabled_spec :: "run_spec \<Rightarrow> bool" where
  "enabled_spec s \<equiv> ru_enabled (rs_runtime s)"

fun add_jobs ::
  "string \<Rightarrow> bundle_options \<Rightarrow> (string, run_spec list) dict \<Rightarrow> (string, cfg) dict \<Rightarrow> (string, cfg) dict res" where
  "add_jobs env o' [] jobs = Inr jobs"
| "add_jobs env o' ((grp, specs) # rest) jobs =
     (let enabled = filter enabled_spec specs in
      if enabled = [] then add_jobs env o' rest jobs
      else bindE (build_job grp enabled env (Some o')) (\<lambda>job.
           add_jobs env o' rest (dict_set jobs (''ingest_'' @ grp) job)))"

definition build_resources :: "run_spec list \<Rightarrow> string \<Rightarrow> bundle_options option \<Rightarrow> cfg res" where
  "build_resources specs env options =
     bindE (add_jobs env (case options of None \<Rightarrow> default_options | Some opts \<Rightarrow> opts) (group_specs specs) [])
       (\<lambda>jobs. Inr (CMap [(''resources'', CMap [(''jobs'', CMap jobs)])]))"

text \<open>Dependencies between the groups of the configured tables.\<close>

definition group_index :: "run_spec list \<Rightarrow> (string, string) dict" where
  "group_index specs = foldl (\<lambda>d s. dict_set d (table_fqn s) (group_of s)) [] specs"

definition cross_group_dependency_report ::
  "run_spec list \<Rightarrow> (string \<times> string \<times> string \<times> string) list" where
  "cross_group_dependency_report specs =
     concat (map (\<lambda>s. concat (map (\<lambda>d.
       case dict_get (group_index specs) d of
         None \<Rightarrow> []
       | Some g \<Rightarrow> if g \<noteq> group_of s then [(table_fqn s, group_of s, d, g)] else [])
       (ti_depends_on (rs_table s)))) specs)"

section \<open>Grouping\<close>

lemma add_to_group_get:
  "dict_get (foldl add_to_group [] specs) grp =
     (let ss = filter (\<lambda>s. group_of s = grp) specs in if ss = [] then None else Some ss)"
  by (induction specs rule: rev_induct) (auto simp: add_to_group_def Let_def split: if_splits)

lemma add_to_group_ok: "dict_ok (foldl add_to_group [] specs)"
  by (induction specs rule: rev_induct) (simp_all add: add_to_group_def)

lemma group_specs_ok: "dict_ok (group_specs specs)"
  unfolding group_specs_def by (rule add_to_group_ok)

lemma group_specs_mem:
  "(grp, ss) \<in> set (group_specs specs) \<longleftrightarrow>
   ss = filter (\<lambda>s. group_of s = grp) (sort_key table_fqn specs) \<and> ss \<noteq> []"
proof -
  have "(grp, ss) \<in> set (group_specs specs) \<longleftrightarrow> dict_get (group_specs specs) grp = Some ss"
    using group_specs_ok [of specs] by (simp add: dict_get_def dict_ok_def)
  then show ?thesis by (auto simp: group_specs_def add_to_group_get Let_def)
qed

section \<open>Jobs\<close>

text \<open>The tables of a group that become tasks.\<close>

definition group_members :: "run_spec list \<Rightarrow> string \<Rightarrow> run_spec list" where
  "group_members specs grp =
     filter enabled_spec (filter (\<lambda>s. group_of s = grp) (sort_key table_fqn specs))"

lemma group_members_set:
  "s \<in> set (group_members specs grp) \<longleftrightarrow> s \<in> set specs \<and> enabled_spec s \<and> group_of s = grp"
  by (auto simp: group_members_def)

lemma group_members_of:
  "(grp, ss) \<in> set (group_specs specs) \<Longrightarrow> filter enabled_spec ss = group_members specs grp"
  by (simp add: group_specs_mem group_members_def)

lemma members_listed: "group_members specs grp \<noteq> [] \<Longrightarrow> \<exists>ss. (grp, ss) \<in> set (group_specs specs)"
  unfolding group_specs_mem group_members_def by (metis filter.simps(1))

lemma build_job_Inr:
  "build_job grp specs env options = Inr job \<Longrightarrow>
   specs \<noteq> [] \<and> (\<exists>cron zone levels. resolve_group_schedule grp specs = Inr (cron, zone) \<and>
     order_tables specs = Inr levels \<and>
     job = job_mapping grp specs env (case options of None \<Rightarrow> default_options | Some opts \<Rightarrow> opts) cron zone)"
  unfolding build_job_def by (auto simp: bindE_Inr_iff Let_def split: if_splits)

text \<open>The loop over the groups: one job for each that has an enabled table, in their order.\<close>

abbreviation populated :: "(string, run_spec list) dict \<Rightarrow> (string, run_spec list) dict" where
  "populated groups \<equiv> filter (\<lambda>(g, ss). filter enabled_spec ss \<noteq> []) groups"

abbreviation job_for :: "string \<Rightarrow> bundle_options \<Rightarrow> string \<times> run_spec list \<Rightarrow> string \<times> cfg \<Rightarrow> bool" where
  "job_for env o' p e \<equiv>
     fst e = ''ingest_'' @ fst p \<and> build_job (fst p) (filter enabled_spec (snd p)) env (Some o') = Inr (snd e)"

lemma add_jobs_Inr:
  assumes "add_jobs env o' groups jobs = Inr jobs'" "distinct (map fst groups)"
    "\<forall>g \<in> fst ` set groups. ''ingest_'' @ g \<notin> set (dict_keys jobs)"
  shows "\<exists>new. jobs' = jobs @ new \<and> list_all2 (job_for env o') (populated groups) new"
  using assms
proof (induction env o' groups jobs rule: add_jobs.induct)
  case (2 env o' grp specs rest jobs)
  show ?case
  proof (cases "filter enabled_spec specs = []")
    case True
    then have "add_jobs env o' rest jobs = Inr jobs'" using 2(3) by (simp add: Let_def)
    with 2(1) [OF refl True] 2(4,5) True show ?thesis by simp
  next
    case False
    with 2(3) obtain job where job: "build_job grp (filter enabled_spec specs) env (Some o') = Inr job"
      "add_jobs env o' rest (dict_set jobs (''ingest_'' @ grp) job) = Inr jobs'"
      by (auto simp: Let_def bindE_Inr_iff)
    have set: "dict_set jobs (''ingest_'' @ grp) job = jobs @ [(''ingest_'' @ grp, job)]"
      using 2(5) by (intro dict_set_fresh) simp
    have fresh: "\<forall>g \<in> fst ` set rest. ''ingest_'' @ g \<notin> set (dict_keys (jobs @ [(''ingest_'' @ grp, job)]))"
      using 2(4,5) by (auto simp: dict_keys_def)
    have "distinct (map fst rest)" using 2(4) by simp
    from 2(2) [OF refl False job(2) this, unfolded set, OF fresh] obtain new where
      new: "jobs' = (jobs @ [(''ingest_'' @ grp, job)]) @ new" "list_all2 (job_for env o') (populated rest) new"
      by blast
    then show ?thesis using False job(1) by (intro exI [of _ "(''ingest_'' @ grp, job) # new"]) simp
  qed
qed auto

lemma add_jobs_fails_iff:
  "is_ok (add_jobs env o' groups jobs) \<longleftrightarrow>
   (\<forall>(g, ss) \<in> set groups. filter enabled_spec ss = [] \<or> is_ok (build_job g (filter enabled_spec ss) env (Some o')))"
proof (induction env o' groups jobs rule: add_jobs.induct)
  case (2 env o' grp specs rest jobs)
  show ?case
  proof (cases "filter enabled_spec specs = []")
    case True
    with 2(1) [OF refl] show ?thesis by (simp add: Let_def)
  next
    case False
    then show ?thesis using 2(2) [OF refl]
      by (cases "build_job grp (filter enabled_spec specs) env (Some o')") (auto simp: Let_def)
  qed
qed simp

text \<open>Reading a job: the table of a task, its key, the keys it waits for.\<close>

fun text_at :: "cfg option \<Rightarrow> string" where
  "text_at (Some (CScalar (VStr s))) = s"
| "text_at _ = []"

fun items_at :: "cfg option \<Rightarrow> cfg list" where
  "items_at (Some (CList xs)) = xs"
| "items_at _ = []"

definition job_tasks :: "cfg \<Rightarrow> cfg list" where
  "job_tasks job = items_at (at_path job [''tasks''])"

definition task_command :: "cfg \<Rightarrow> string list" where
  "task_command t = map (\<lambda>x. text_at (Some x)) (items_at (at_path t [''python_wheel_task'', ''parameters'']))"

definition task_table :: "cfg \<Rightarrow> string" where
  "task_table t = task_command t ! 2"

definition key_of_task :: "cfg \<Rightarrow> string" where
  "key_of_task t = text_at (at_path t [''task_key''])"

definition task_waits_for :: "cfg \<Rightarrow> string list" where
  "task_waits_for t = map (\<lambda>e. text_at (at_path e [''task_key''])) (items_at (at_path t [''depends_on'']))"

lemma job_tasks_mapping [simp]:
  "job_tasks (job_mapping grp specs env o' cron zone) =
     map (\<lambda>s. build_task s o' (or_env_expression o') (map table_fqn specs)) specs"
  by (simp add: job_tasks_def job_mapping_def Let_def)

lemma task_command_build [simp]: "task_command (build_task s o' e known) = task_parameters s o' e"
  by (simp add: task_command_def build_task_def comp_def)

lemma task_table_build [simp]: "task_table (build_task s o' e known) = table_fqn s"
  by (simp add: task_table_def task_parameters_def)

lemma key_of_task_build [simp]: "key_of_task (build_task s o' e known) = bundle_task_key (table_fqn s)"
  by (simp add: key_of_task_def build_task_def)

lemma task_waits_for_build [simp]:
  "task_waits_for (build_task s o' e known) = map bundle_task_key (sort (inner_edges s known))"
  by (auto simp: task_waits_for_def build_task_def comp_def)

lemma build_job_tasks:
  assumes "build_job grp specs env options = Inr job"
  shows "map task_table (job_tasks job) = map table_fqn specs"
    "map key_of_task (job_tasks job) = map (bundle_task_key \<circ> table_fqn) specs"
proof -
  obtain o' cron zone where "job = job_mapping grp specs env o' cron zone"
    using build_job_Inr [OF assms] by blast
  then show "map task_table (job_tasks job) = map table_fqn specs"
    "map key_of_task (job_tasks job) = map (bundle_task_key \<circ> table_fqn) specs"
    by (simp_all add: comp_def)
qed

definition jobs_of :: "cfg \<Rightarrow> (string \<times> cfg) list" where
  "jobs_of r = (case at_path r [''resources'', ''jobs''] of Some (CMap jobs) \<Rightarrow> jobs | _ \<Rightarrow> [])"

lemma build_resources_Inr:
  assumes "build_resources specs env options = Inr r"
  shows "list_all2 (job_for env (case options of None \<Rightarrow> default_options | Some opts \<Rightarrow> opts))
           (populated (group_specs specs)) (jobs_of r)"
proof -
  let ?o = "case options of None \<Rightarrow> default_options | Some opts \<Rightarrow> opts"
  from assms obtain jobs where jobs: "add_jobs env ?o (group_specs specs) [] = Inr jobs"
    "r = CMap [(''resources'', CMap [(''jobs'', CMap jobs)])]"
    by (auto simp: build_resources_def bindE_Inr_iff)
  have "distinct (map fst (group_specs specs))" using group_specs_ok [of specs] by (simp add: dict_ok_def)
  from add_jobs_Inr [OF jobs(1) this] jobs(2) show ?thesis
    by (simp add: jobs_of_def dict_keys_def)
qed

section \<open>When a bundle is built\<close>

lemma resolve_schedule_ok:
  "is_ok (resolve_group_schedule grp specs) \<longleftrightarrow>
     length (group_crons specs) \<le> 1 \<and> length (group_timezones specs) \<le> 1"
  by (auto simp: resolve_group_schedule_def)

lemma order_ok: "is_ok (order_tables specs) = acyclic (depends specs)"
proof (cases rule: order_tables_cases [of specs])
  case (looping f)
  then have "\<not> acyclic (depends specs)" by (auto simp: acyclic_def)
  with looping show ?thesis by simp
next
  case (stuck e)
  with stuck_cyclic show ?thesis by auto
next
  case (ordered names)
  with layered_acyclic show ?thesis by auto
qed

lemma build_job_ok:
  "is_ok (build_job grp specs env options) \<longleftrightarrow>
   specs \<noteq> [] \<and> length (group_crons specs) \<le> 1 \<and> length (group_timezones specs) \<le> 1 \<and> acyclic (depends specs)"
  unfolding resolve_schedule_ok [of grp, symmetric] order_ok [symmetric] conj_assoc [symmetric]
  by (cases "resolve_group_schedule grp specs"; cases "order_tables specs")
    (auto simp: build_job_def Let_def resolve_schedule_ok [symmetric])

lemma remdups_at_most_one: "length (remdups xs) \<le> 1 \<longleftrightarrow> (\<forall>x \<in> set xs. \<forall>y \<in> set xs. x = y)"
proof -
  have "length (remdups xs) = card (set xs)" by (simp add: length_remdups_card_conv)
  then show ?thesis by (simp add: card_le_Suc0_iff_eq)
qed

section \<open>What a bundle schedules\<close>

lemma append_at_key_mset:
  "mset (concat (map snd (dict_set d k ((case dict_get d k of None \<Rightarrow> [] | Some xs \<Rightarrow> xs) @ [x])))) =
   add_mset x (mset (concat (map snd d)))"
  by (induction d) auto

lemma group_specs_mset: "mset (concat (map snd (group_specs specs))) = mset specs"
proof -
  have "mset (concat (map snd (foldl add_to_group [] ss))) = mset ss" for ss
    by (induction ss rule: rev_induct) (simp_all add: add_to_group_def append_at_key_mset)
  then show ?thesis by (simp add: group_specs_def)
qed

lemma populated_mset:
  "mset (concat (map (filter enabled_spec \<circ> snd) (populated (group_specs specs)))) = mset (filter enabled_spec specs)"
proof -
  have "concat (map (filter enabled_spec \<circ> snd) (populated groups)) = filter enabled_spec (concat (map snd groups))" for groups
    by (induction groups) auto
  then show ?thesis by (simp only: mset_filter group_specs_mset)
qed

lemma jobs_tables:
  "list_all2 (job_for env o') groups jobs \<Longrightarrow>
   concat (map (\<lambda>(_, job). map task_table (job_tasks job)) jobs) =
     map table_fqn (concat (map (filter enabled_spec \<circ> snd) groups))"
  by (induction rule: list_all2_induct) (auto simp: build_job_tasks)

lemma jobs_names:
  "list_all2 (job_for env o') groups jobs \<Longrightarrow> map fst jobs = map (\<lambda>g. ''ingest_'' @ g) (map fst groups)"
  by (induction rule: list_all2_induct) auto

lemma jobs_members:
  assumes "list_all2 (job_for env o') (populated (group_specs specs)) jobs" "(name, job) \<in> set jobs"
  shows "\<exists>grp. name = ''ingest_'' @ grp \<and> group_members specs grp \<noteq> [] \<and>
    build_job grp (group_members specs grp) env (Some o') = Inr job"
proof -
  from list_all2_right [OF assms] obtain p where
    "p \<in> set (populated (group_specs specs))" "job_for env o' p (name, job)" by blast
  moreover obtain g ss where "p = (g, ss)" by (cases p)
  ultimately have "(g, ss) \<in> set (group_specs specs)" "filter enabled_spec ss \<noteq> []"
    "name = ''ingest_'' @ g" "build_job g (filter enabled_spec ss) env (Some o') = Inr job"
    by simp_all
  with group_members_of [OF this(1)] show ?thesis by (intro exI [of _ g]) simp
qed

section \<open>The graph of a job\<close>

text \<open>An edge from the key a task waits for to the key of the task.\<close>

definition task_graph :: "cfg \<Rightarrow> (string \<times> string) set" where
  "task_graph job = {(k, key_of_task t) | t k. t \<in> set (job_tasks job) \<and> k \<in> set (task_waits_for t)}"

lemma job_graph:
  assumes "build_job grp specs env options = Inr job" "distinct (map table_fqn specs)"
  shows "task_graph job = map_prod bundle_task_key bundle_task_key ` depends specs"
proof -
  obtain o' cron zone where job: "job = job_mapping grp specs env o' cron zone"
    using build_job_Inr [OF assms(1)] by blast
  have get: "dict_get (by_fqn specs) (table_fqn s) = Some s" if "s \<in> set specs" for s
  proof -
    have "dict_get (by_fqn specs) (table_fqn s) \<noteq> None"
      unfolding by_fqn_dom using that by simp
    then obtain s' where s': "dict_get (by_fqn specs) (table_fqn s) = Some s'" by blast
    moreover from by_fqn_get [OF s'] have "s' = s"
      using assms(2) that by (simp add: distinct_map inj_on_def)
    ultimately show ?thesis by simp
  qed
  have "(d, f) \<in> depends specs \<longleftrightarrow>
      (\<exists>s \<in> set specs. f = table_fqn s \<and> d \<in> set (inner_edges s (map table_fqn specs)))" for d f
  proof
    assume "(d, f) \<in> depends specs"
    then obtain s where "dict_get (by_fqn specs) f = Some s" "d \<in> set (ti_depends_on (rs_table s))"
      "d \<in> set (map table_fqn specs)" by (auto simp: depends_def)
    with by_fqn_get [OF this(1)] show "\<exists>s \<in> set specs. f = table_fqn s \<and> d \<in> set (inner_edges s (map table_fqn specs))"
      by (auto simp: inner_edges_def)
  next
    assume "\<exists>s \<in> set specs. f = table_fqn s \<and> d \<in> set (inner_edges s (map table_fqn specs))"
    then show "(d, f) \<in> depends specs" using get by (auto simp: depends_def inner_edges_def)
  qed
  then have "depends specs = {(d, table_fqn s) | d s. s \<in> set specs \<and> d \<in> set (inner_edges s (map table_fqn specs))}"
    by auto
  moreover have "task_graph job = {(bundle_task_key d, bundle_task_key (table_fqn s)) | d s.
      s \<in> set specs \<and> d \<in> set (inner_edges s (map table_fqn specs))}"
    by (force simp: task_graph_def job)
  ultimately show ?thesis by auto
qed

lemma acyclic_image:
  assumes "finite r" "acyclic r" "inj_on f (Field r)"
  shows "acyclic (map_prod f f ` r)"
proof -
  have "wf (map_prod f f ` r)"
    using assms by (intro wf_map_prod_image_Dom_Ran finite_acyclic_wf) (auto simp: Field_def inj_on_def)
  then show ?thesis by (rule wf_acyclic)
qed

lemma depends_field: "Field (depends specs) \<subseteq> set (map table_fqn specs)"
  using by_fqn_dom [of specs] by (force simp: depends_def Field_def)

section \<open>Samples\<close>

definition in_group :: "string \<Rightarrow> string option \<Rightarrow> run_spec \<Rightarrow> run_spec" where
  "in_group grp cron s =
     s\<lparr>rs_schedule := (rs_schedule s)\<lparr>sc_group := grp, sc_cron := cron\<rparr>\<rparr>"

definition in_domain :: "string \<Rightarrow> run_spec \<Rightarrow> run_spec" where
  "in_domain d s = s\<lparr>rs_table := (rs_table s)\<lparr>ti_domain := d\<rparr>\<rparr>"

definition disabled :: "run_spec \<Rightarrow> run_spec" where
  "disabled s = s\<lparr>rs_runtime := (rs_runtime s)\<lparr>ru_enabled := False\<rparr>\<rparr>"

definition sample_tables :: "run_spec list" where
  "sample_tables =
     [in_group ''g1'' None (child_of [''hr.a'', ''hr.off''] ''b''), in_group ''g1'' (Some ''0 5'') (child_of [] ''a''),
      in_group ''g1'' None (disabled (child_of [] ''off'')), in_group ''g2'' (Some ''0 6'') (child_of [''hr.a''] ''c'')]"

lemma sample_bundle_built: "is_ok (build_resources sample_tables ''dev'' None)"
  by code_simp

text \<open>The description of a job calls a dependency on a disabled table of the same group a
  cross-group one, and the report of such dependencies does not have it.\<close>

lemma disabled_dependency_called_cross_group:
  "cross_group_dependencies (group_members sample_tables ''g1'')
     (map table_fqn (group_members sample_tables ''g1'')) = [(''hr.b'', ''hr.off'')] \<and>
   cross_group_dependency_report sample_tables = [(''hr.c'', ''g2'', ''hr.a'', ''g1'')]"
  by code_simp

lemma email_targets_distinct: "distinct (email_targets channels)"
proof -
  have "distinct out \<Longrightarrow> distinct (email_from channels out)" for out
    by (induction channels out rule: email_from.induct) (auto simp: Let_def)
  then show ?thesis by (simp add: email_targets_def)
qed

section \<open>Properties\<close>

text \<open>C27: When a bundle is generated, its jobs run every enabled table exactly once and nothing
  else, each group with an enabled table has exactly one job, and the tasks of that job are
  the enabled tables of the group in the order of their names.\<close>

theorem bundle_runs_every_enabled_table_once:
  assumes "build_resources specs env options = Inr r"
  shows "mset (concat (map (\<lambda>(_, job). map task_table (job_tasks job)) (jobs_of r))) =
      mset (map table_fqn (filter enabled_spec specs)) \<and>
    distinct (map fst (jobs_of r)) \<and>
    (\<forall>(name, job) \<in> set (jobs_of r). \<exists>grp. name = ''ingest_'' @ grp \<and> group_members specs grp \<noteq> [] \<and>
      map task_table (job_tasks job) = map table_fqn (group_members specs grp))"
proof -
  note jobs = build_resources_Inr [OF assms]
  have "distinct (map fst (populated (group_specs specs)))"
    using group_specs_ok [of specs] by (simp add: dict_ok_def distinct_map_filter)
  then have "distinct (map fst (jobs_of r))"
    unfolding jobs_names [OF jobs] distinct_map by (auto simp: inj_on_def)
  moreover have "mset (concat (map (\<lambda>(_, job). map task_table (job_tasks job)) (jobs_of r))) =
      mset (map table_fqn (filter enabled_spec specs))"
    unfolding jobs_tables [OF jobs] by (simp only: mset_map populated_mset)
  moreover have "\<exists>grp. name = ''ingest_'' @ grp \<and> group_members specs grp \<noteq> [] \<and>
      map task_table (job_tasks job) = map table_fqn (group_members specs grp)"
    if "(name, job) \<in> set (jobs_of r)" for name job
    using jobs_members [OF jobs that] build_job_tasks(1) by blast
  ultimately show ?thesis by blast
qed

lemma bundle_runs_every_enabled_table_once_witness:
  "\<exists>r. build_resources sample_tables ''dev'' None = Inr r \<and>
     mset (concat (map (\<lambda>(_, job). map task_table (job_tasks job)) (jobs_of r))) = {#''hr.a'', ''hr.b'', ''hr.c''#}"
proof -
  obtain r where r: "build_resources sample_tables ''dev'' None = Inr r"
    using sample_bundle_built by (cases "build_resources sample_tables ''dev'' None") simp_all
  have "map table_fqn (filter enabled_spec sample_tables) = [''hr.b'', ''hr.a'', ''hr.c'']" by code_simp
  with bundle_runs_every_enabled_table_once [OF r] r show ?thesis by simp
qed

text \<open>The generator refuses a configuration exactly when, among the enabled tables of one
  group, two ask for different cron expressions, two ask for different timezones, or the
  dependencies have a cycle; a cycle through another group or a disabled table is accepted.\<close>

theorem bundle_built_iff:
  "is_ok (build_resources specs env options) \<longleftrightarrow>
   (\<forall>grp.
     (\<forall>s \<in> set (group_members specs grp). \<forall>t \<in> set (group_members specs grp).
        (present (sc_cron (rs_schedule s)) \<longrightarrow> present (sc_cron (rs_schedule t)) \<longrightarrow>
           sc_cron (rs_schedule s) = sc_cron (rs_schedule t)) \<and>
        sc_timezone (rs_schedule s) = sc_timezone (rs_schedule t)) \<and>
     acyclic (depends (group_members specs grp)))"
proof -
  let ?o = "case options of None \<Rightarrow> default_options | Some opts \<Rightarrow> opts"
  have crons: "length (group_crons ss) \<le> 1 \<longleftrightarrow> (\<forall>s \<in> set ss. \<forall>t \<in> set ss.
      present (sc_cron (rs_schedule s)) \<longrightarrow> present (sc_cron (rs_schedule t)) \<longrightarrow>
      sc_cron (rs_schedule s) = sc_cron (rs_schedule t))" for ss
    unfolding group_crons_def remdups_at_most_one
    by (auto simp: present_def text_of_def split: option.splits)
  have zones: "length (group_timezones ss) \<le> 1 \<longleftrightarrow>
      (\<forall>s \<in> set ss. \<forall>t \<in> set ss. sc_timezone (rs_schedule s) = sc_timezone (rs_schedule t))" for ss
    unfolding group_timezones_def remdups_at_most_one by auto
  have empty: "acyclic (depends [])" by (simp add: depends_def acyclic_def)
  have "is_ok (build_resources specs env options) \<longleftrightarrow>
      (\<forall>(g, ss) \<in> set (group_specs specs). group_members specs g = [] \<or>
         is_ok (build_job g (group_members specs g) env (Some ?o)))"
    unfolding build_resources_def
    using add_jobs_fails_iff [of env ?o "group_specs specs" "[]"] group_members_of [of _ _ specs]
    by (cases "add_jobs env ?o (group_specs specs) []") auto
  also have "\<dots> \<longleftrightarrow> (\<forall>g. group_members specs g = [] \<or> is_ok (build_job g (group_members specs g) env (Some ?o)))"
    using members_listed [of specs] by blast
  finally show ?thesis unfolding build_job_ok crons zones using empty by (metis empty_iff empty_set)
qed

lemma bundle_built_iff_witness:
  "\<not> is_ok (build_resources [in_group ''g'' (Some ''0 5'') (child_of [] ''a''),
     in_group ''g'' (Some ''0 6'') (child_of [] ''b'')] ''dev'' None)" (is "\<not> is_ok (build_resources ?ss _ _)")
proof -
  have "set (group_members ?ss ''g'') = set ?ss"
    by (auto simp: group_members_set in_group_def child_of_def scn_spec_def sample_spec_def default_runtime_def)
  moreover have "sc_cron (rs_schedule (?ss ! 0)) = Some ''0 5''" "sc_cron (rs_schedule (?ss ! 1)) = Some ''0 6''"
    by (simp_all add: in_group_def)
  ultimately show ?thesis
    unfolding bundle_built_iff by (intro notI) (auto simp: present_def dest!: spec [of _ "''g''"])
qed



text \<open>Keys are not always distinct: a table that depends on another one of its group whose name
  differs only in where the dot is becomes a task that waits for itself, in a job the
  generator accepts.\<close>

theorem colliding_names_deadlock:
  assumes "build_job grp specs env options = Inr job" "s \<in> set specs" "d \<in> set specs"
    "table_fqn d \<in> set (ti_depends_on (rs_table s))" "ti_domain (rs_table s) @ ''_'' @ ti_name (rs_table s) =
       ti_domain (rs_table d) @ ''_'' @ ti_name (rs_table d)"
  shows "\<exists>t \<in> set (job_tasks job). task_table t = table_fqn s \<and> key_of_task t \<in> set (task_waits_for t)"
proof -
  obtain o' cron zone where job: "job = job_mapping grp specs env o' cron zone"
    using build_job_Inr [OF assms(1)] by blast
  have under: "key_char (CHR ''_'')" "\<not> key_char (CHR ''.'')"
    by (simp_all add: key_char_def is_alpha_def is_lower_def is_upper_def is_digit_def chr_code_def)
  have "bundle_task_key (table_fqn x) = bundle_task_key (ti_domain (rs_table x) @ ''_'' @ ti_name (rs_table x))" for x
    by (simp add: bundle_task_key_def table_fqn_def identity_fqn_def under)
  with assms(5) have "bundle_task_key (table_fqn s) = bundle_task_key (table_fqn d)" by metis
  moreover have "table_fqn d \<in> set (inner_edges s (map table_fqn specs))"
    using assms(3,4) by (simp add: inner_edges_def)
  ultimately show ?thesis
    using assms(2) by (intro bexI [of _ "build_task s o' (or_env_expression o') (map table_fqn specs)"])
      (auto simp: job)
qed

lemma colliding_names_deadlock_witness:
  "\<exists>job. build_job ''g'' [in_domain ''hr_emp'' (child_of [''hr.emp_x''] ''x''), child_of [] ''emp_x''] ''dev'' None = Inr job \<and>
     (\<exists>t \<in> set (job_tasks job). task_table t = ''hr_emp.x'' \<and> key_of_task t \<in> set (task_waits_for t))"
  (is "\<exists>job. build_job _ [?x, ?y] _ _ = _ \<and> _")
proof -
  have "is_ok (build_job ''g'' [?x, ?y] ''dev'' None)" by code_simp
  then obtain job where job: "build_job ''g'' [?x, ?y] ''dev'' None = Inr job"
    by (cases "build_job ''g'' [?x, ?y] ''dev'' None") simp_all
  have "ti_domain (rs_table ?x) = ''hr_emp''" "ti_name (rs_table ?x) = ''x''" "ti_domain (rs_table ?y) = ''hr''"
    "ti_name (rs_table ?y) = ''emp_x''" "ti_depends_on (rs_table ?x) = [''hr.emp_x'']"
    by (simp_all add: in_domain_def child_of_def scn_spec_def sample_spec_def)
  with colliding_names_deadlock [OF job, of ?x ?y] job show ?thesis
    by (simp add: table_fqn_def identity_fqn_def)
qed

end
