(* ===== verification/CliArgs.thy ===== *)
theory CliArgs
  imports Bundle
begin

text \<open>
  The command line of \<open>ingest\<close> as its parser declares it (\<open>build_parser\<close> of cli.py), and what
  the standard library's \<open>argparse\<close> makes of a list of arguments: long options with their
  value in the next argument or after \<open>=\<close>, unambiguous prefixes of them, \<open>-h\<close>, and the rest
  of the arguments after the command for the parser of the command.  The separator \<open>--\<close> and
  the texts of usage and help are not modelled.
\<close>

section \<open>Options\<close>

datatype arg_value = ANone | AText string | ATexts "string list" | AFlag bool | ANum int

datatype arg_kind = StoreText | AppendText | StoreTrue | StoreInt | StoreChoice "string list"

record cli_option =
  op_flag :: string
  op_dest :: string
  op_kind :: arg_kind
  op_required :: bool
  op_default :: arg_value
  op_selection :: bool

definition cli_opt :: "string \<Rightarrow> string \<Rightarrow> arg_kind \<Rightarrow> bool \<Rightarrow> arg_value \<Rightarrow> cli_option" where
  "cli_opt flag dest kind required dflt =
     \<lparr>op_flag = flag, op_dest = dest, op_kind = kind, op_required = required, op_default = dflt,
      op_selection = False\<rparr>"

definition selection_options :: "cli_option list" where
  "selection_options =
     map (\<lambda>o'. o'\<lparr>op_selection := True\<rparr>)
       [cli_opt ''--table'' ''table'' AppendText False ANone,
        cli_opt ''--group'' ''group'' StoreText False ANone,
        cli_opt ''--domain'' ''domain'' StoreText False ANone,
        cli_opt ''--all'' ''all'' StoreTrue False (AFlag False)]"

definition env_option :: cli_option where
  "env_option = cli_opt ''--env'' ''env'' StoreText True ANone"

definition run_options :: "cli_option list" where
  "run_options =
     selection_options @
     [env_option,
      cli_opt ''--run-id'' ''run_id'' StoreText False ANone,
      cli_opt ''--trigger'' ''trigger'' (StoreChoice [''manual'', ''schedule'', ''backfill'', ''retry''])
        False (AText ''manual''),
      cli_opt ''--max-workers'' ''max_workers'' StoreInt False (ANum 1),
      cli_opt ''--dry-run'' ''dry_run'' StoreTrue False (AFlag False),
      cli_opt ''--continue-on-failure'' ''continue_on_failure'' StoreTrue False (AFlag False)]"

definition validate_options :: "cli_option list" where
  "validate_options =
     [env_option, cli_opt ''--table'' ''table'' AppendText False ANone,
      cli_opt ''--strict'' ''strict'' StoreTrue False (AFlag False)]"

definition show_sql_options :: "cli_option list" where
  "show_sql_options =
     [cli_opt ''--table'' ''table'' StoreText True ANone, env_option,
      cli_opt ''--lower-bound'' ''lower_bound'' StoreText False ANone,
      cli_opt ''--upper-bound'' ''upper_bound'' StoreText False ANone]"

definition backfill_options :: "cli_option list" where
  "backfill_options =
     [cli_opt ''--table'' ''table'' StoreText True ANone, env_option,
      cli_opt ''--from'' ''from_value'' StoreText True ANone,
      cli_opt ''--yes'' ''yes'' StoreTrue False (AFlag False)]"

definition init_control_options :: "cli_option list" where
  "init_control_options = [env_option, cli_opt ''--dry-run'' ''dry_run'' StoreTrue False (AFlag False)]"

definition list_tables_options :: "cli_option list" where
  "list_tables_options = [env_option]"

definition main_options :: "cli_option list" where
  "main_options = [cli_opt ''--config-root'' ''config_root'' StoreText False (AText ''config'')]"

definition command_options :: "string \<Rightarrow> cli_option list option" where
  "command_options cmd =
     map_of [(''run'', run_options), (''validate'', validate_options), (''show-sql'', show_sql_options),
       (''backfill'', backfill_options), (''init-control'', init_control_options),
       (''list-tables'', list_tables_options)] cmd"

section \<open>Tokens\<close>

datatype token =
    OptTok cli_option "string option"
  | HelpTok
  | ArgTok string
  | UnknownTok
  | BadTok
  | AmbiguousTok

definition looks_negative :: "string \<Rightarrow> bool" where
  "looks_negative t =
     (case t of
        [] \<Rightarrow> False
      | c # ds \<Rightarrow> c = CHR ''-'' \<and>
          (case split_once (CHR ''.'') ds of
             None \<Rightarrow> ds \<noteq> [] \<and> list_all is_digit ds
           | Some (a, b) \<Rightarrow> list_all is_digit a \<and> b \<noteq> [] \<and> list_all is_digit b))"

definition with_value :: "string \<Rightarrow> string \<times> string option" where
  "with_value t = (case split_once (CHR ''='') t of None \<Rightarrow> (t, None) | Some (a, b) \<Rightarrow> (a, Some b))"

text \<open>The options a long prefix stands for; \<open>None\<close> is \<open>--help\<close>.\<close>

definition by_prefix :: "cli_option list \<Rightarrow> string \<Rightarrow> cli_option option list" where
  "by_prefix opts p =
     (if starts_with ''--help'' p then [None] else []) @
     map Some (filter (\<lambda>o'. starts_with (op_flag o') p) opts)"

definition classify :: "cli_option list \<Rightarrow> string \<Rightarrow> token" where
  "classify opts t =
     (if \<not> starts_with t ''-'' \<or> t = ''-'' then ArgTok t
      else if t = ''-h'' \<or> t = ''--help'' then HelpTok
      else
        case find (\<lambda>o'. op_flag o' = t) opts of
          Some o' \<Rightarrow> OptTok o' None
        | None \<Rightarrow>
            (case with_value t of (flag, val) \<Rightarrow>
              case (if val = None then None else find (\<lambda>o'. op_flag o' = flag) opts) of
                Some o' \<Rightarrow> OptTok o' val
              | None \<Rightarrow>
                  if starts_with t ''--'' \<and> t \<noteq> ''--'' \<and> by_prefix opts flag \<noteq> [] then
                    (case by_prefix opts flag of
                       [None] \<Rightarrow> (if val = None then HelpTok else BadTok)
                     | [Some o'] \<Rightarrow> OptTok o' val
                     | _ \<Rightarrow> AmbiguousTok)
                  else if starts_with t ''-h'' then HelpTok
                  else if looks_negative t \<or> CHR '' '' \<in> set t then ArgTok t
                  else UnknownTok))"

section \<open>Parsing\<close>

type_synonym namespace = "(string, arg_value) dict"

datatype parsed = Exit int | Parsed string string namespace

text \<open>The value an option stores, or none when the argument is refused.\<close>

definition stored :: "cli_option \<Rightarrow> namespace \<Rightarrow> string \<Rightarrow> arg_value option" where
  "stored o' ns s =
     (case op_kind o' of
        StoreText \<Rightarrow> Some (AText s)
      | AppendText \<Rightarrow>
          Some (ATexts ((case dict_get ns (op_dest o') of Some (ATexts xs) \<Rightarrow> xs | _ \<Rightarrow> []) @ [s]))
      | StoreInt \<Rightarrow> map_option ANum (int_of_text s)
      | StoreChoice choices \<Rightarrow> if s \<in> set choices then Some (AText s) else None
      | StoreTrue \<Rightarrow> None)"

text \<open>
  The parser of a command, from left to right: the options seen so far, whether an argument
  was not recognised, the values.  An error ends the process with code 2, help with 0.
\<close>

fun consume ::
  "token list \<Rightarrow> string list \<Rightarrow> bool \<Rightarrow> namespace \<Rightarrow> int + (string list \<times> bool \<times> namespace)"
  and store_arg ::
  "cli_option \<Rightarrow> string \<Rightarrow> token list \<Rightarrow> string list \<Rightarrow> bool \<Rightarrow> namespace \<Rightarrow>
   int + (string list \<times> bool \<times> namespace)"
where
  "consume [] seen extras ns = Inr (seen, extras, ns)"
| "consume (HelpTok # ts) seen extras ns = Inl 0"
| "consume (BadTok # ts) seen extras ns = Inl 2"
| "consume (AmbiguousTok # ts) seen extras ns = Inl 2"
| "consume (UnknownTok # ts) seen extras ns = consume ts seen True ns"
| "consume (ArgTok s # ts) seen extras ns = consume ts seen True ns"
| "consume (OptTok o' (Some s) # ts) seen extras ns = store_arg o' s ts seen extras ns"
| "consume (OptTok o' None # ArgTok s # ts) seen extras ns =
     (if op_kind o' = StoreTrue
      then (if op_selection o' \<and> \<not> set seen \<subseteq> {op_dest o'} then Inl 2
            else consume (ArgTok s # ts) (if op_selection o' then op_dest o' # seen else seen) extras
                   (dict_set ns (op_dest o') (AFlag True)))
      else store_arg o' s ts seen extras ns)"
| "consume (OptTok o' None # ts) seen extras ns =
     (if op_kind o' = StoreTrue
      then (if op_selection o' \<and> \<not> set seen \<subseteq> {op_dest o'} then Inl 2
            else consume ts (if op_selection o' then op_dest o' # seen else seen) extras
                   (dict_set ns (op_dest o') (AFlag True)))
      else Inl 2)"
| "store_arg o' s ts seen extras ns =
     (case stored o' ns s of
        None \<Rightarrow> Inl 2
      | Some v \<Rightarrow>
          if op_selection o' \<and> \<not> set seen \<subseteq> {op_dest o'} then Inl 2
          else consume ts (if op_selection o' then op_dest o' # seen else seen) extras
                 (dict_set ns (op_dest o') v))"

definition defaults :: "cli_option list \<Rightarrow> namespace" where
  "defaults opts = map (\<lambda>o'. (op_dest o', op_default o')) opts"

definition given :: "namespace \<Rightarrow> cli_option \<Rightarrow> bool" where
  "given ns o' = (dict_get ns (op_dest o') \<noteq> Some (op_default o'))"

text \<open>Ambiguous prefixes are found before anything is consumed; what is missing, after.\<close>

definition parse_command :: "cli_option list \<Rightarrow> string list \<Rightarrow> int + namespace" where
  "parse_command opts args =
     (let toks = map (classify opts) args in
      if AmbiguousTok \<in> set toks then Inl 2
      else
        case consume toks [] False (defaults opts) of
          Inl code \<Rightarrow> Inl code
        | Inr (seen, extras, ns) \<Rightarrow>
            if extras \<or> (\<exists>o' \<in> set opts. op_required o' \<and> \<not> given ns o') \<or>
               ((\<exists>o' \<in> set opts. op_selection o') \<and> seen = [])
            then Inl 2 else Inr ns)"

fun parse_main :: "string \<Rightarrow> bool \<Rightarrow> string list \<Rightarrow> parsed" where
  "parse_main root' extras [] = Exit 2"
| "parse_main root' extras (t # ts) =
     (case classify main_options t of
        HelpTok \<Rightarrow> Exit 0
      | BadTok \<Rightarrow> Exit 2
      | AmbiguousTok \<Rightarrow> Exit 2
      | UnknownTok \<Rightarrow> parse_main root' True ts
      | OptTok _ (Some v) \<Rightarrow> parse_main v extras ts
      | OptTok _ None \<Rightarrow>
          (case ts of
             [] \<Rightarrow> Exit 2
           | v # ts' \<Rightarrow>
               (case classify main_options v of ArgTok _ \<Rightarrow> parse_main v extras ts' | _ \<Rightarrow> Exit 2))
      | ArgTok cmd \<Rightarrow>
          (case command_options cmd of
             None \<Rightarrow> Exit 2
           | Some opts \<Rightarrow>
               (case parse_command opts ts of
                  Inl code \<Rightarrow> Exit code
                | Inr ns \<Rightarrow> if extras then Exit 2 else Parsed root' cmd ns)))"

definition parse_args :: "string list \<Rightarrow> parsed" where
  "parse_args argv = parse_main ''config'' False argv"

section \<open>Arguments that are not recognised\<close>

text \<open>What was not recognised stays so: such a command line is never parsed.\<close>

lemma consume_extras:
  "consume toks seen extras ns = Inr (seen', extras', ns') \<Longrightarrow> extras \<or> UnknownTok \<in> set toks \<Longrightarrow> extras'"
  "store_arg o' s ts seen extras ns = Inr (seen', extras', ns') \<Longrightarrow> extras \<or> UnknownTok \<in> set ts \<Longrightarrow> extras'"
  by (induction toks seen extras ns and o' s ts seen extras ns rule: consume_store_arg.induct)
    (auto simp del: set_simps(2) simp: set_simps split: if_splits option.splits)

text \<open>Only help ends a parser with code 0.\<close>

lemma consume_code:
  "consume toks seen extras ns = Inl code \<Longrightarrow> code = 2 \<or> (code = 0 \<and> HelpTok \<in> set toks)"
  "store_arg o' s ts seen extras ns = Inl code \<Longrightarrow> code = 2 \<or> (code = 0 \<and> HelpTok \<in> set ts)"
  by (induction toks seen extras ns and o' s ts seen extras ns rule: consume_store_arg.induct)
    (auto split: if_splits option.splits)

lemma parse_command_code:
  "parse_command opts args = Inl code \<Longrightarrow> HelpTok \<notin> classify opts ` set args \<Longrightarrow> code = 2"
  using consume_code(1) [of "map (classify opts) args" "[]" False "defaults opts" code]
  by (auto simp: parse_command_def Let_def split: if_splits sum.splits prod.splits)

lemma unknown_refused:
  assumes "UnknownTok \<in> classify opts ` set args"
  shows "\<exists>code. parse_command opts args = Inl code"
proof (cases "consume (map (classify opts) args) [] False (defaults opts)")
  case (Inr r)
  obtain seen extras ns where r: "r = (seen, extras, ns)" by (cases r)
  with Inr assms have extras by (auto intro: consume_extras(1))
  with Inr r show ?thesis by (simp add: parse_command_def Let_def)
qed (simp add: parse_command_def Let_def)

lemma classify_plain: "\<not> starts_with t ''-'' \<Longrightarrow> classify opts t = ArgTok t"
  by (simp add: classify_def)

lemma run_tokens:
  "classify main_options ''run'' = ArgTok ''run''"
  "classify main_options ''--config-root'' = OptTok (hd main_options) None"
  "command_options ''run'' = Some run_options"
  "classify run_options ''--config-root'' = UnknownTok"
  "classify run_options ''--table'' = OptTok (run_options ! 0) None"
  "classify run_options ''--env'' = OptTok (run_options ! 4) None"
  "classify run_options ''--trigger'' = OptTok (run_options ! 6) None"
  "classify run_options ''schedule'' = ArgTok ''schedule''"
  by code_simp+

definition plain_arg :: "string \<Rightarrow> bool" where
  "plain_arg s = (\<not> starts_with s ''-'')"

lemma classify_arg: "plain_arg t \<Longrightarrow> classify opts t = ArgTok t"
  by (simp add: plain_arg_def classify_plain)

definition scheduled_values :: "string \<Rightarrow> string \<Rightarrow> namespace" where
  "scheduled_values fqn e =
     dict_set (dict_set (dict_set (defaults run_options) ''table'' (ATexts [fqn])) ''env'' (AText e))
       ''trigger'' (AText ''schedule'')"

text \<open>The command of a generated task, and the same with the root before the command.\<close>

lemma scheduled_command:
  assumes "plain_arg fqn" "plain_arg e"
  shows "parse_command run_options [''--table'', fqn, ''--env'', e, ''--trigger'', ''schedule''] =
    Inr (scheduled_values fqn e)"
proof -
  have "stored (run_options ! 0) (defaults run_options) fqn = Some (ATexts [fqn])"
    "op_dest (run_options ! 0) = ''table''" "op_selection (run_options ! 0)" "op_kind (run_options ! 0) = AppendText"
    "\<And>ns. stored (run_options ! 4) ns e = Some (AText e)" "op_dest (run_options ! 4) = ''env''"
    "\<not> op_selection (run_options ! 4)" "op_kind (run_options ! 4) = StoreText"
    "\<And>ns. stored (run_options ! 6) ns ''schedule'' = Some (AText ''schedule'')"
    "op_dest (run_options ! 6) = ''trigger''" "\<not> op_selection (run_options ! 6)"
    "op_kind (run_options ! 6) \<noteq> StoreTrue"
    by (simp_all add: stored_def run_options_def selection_options_def cli_opt_def defaults_def env_option_def)
  then have "consume (map (classify run_options) [''--table'', fqn, ''--env'', e, ''--trigger'', ''schedule'']) [] False
      (defaults run_options) = Inr ([''table''], False, scheduled_values fqn e)"
    by (simp only: list.map run_tokens(4-8) classify_arg [OF assms(1)] classify_arg [OF assms(2)]) (simp add: scheduled_values_def)
  moreover have "\<forall>o' \<in> set run_options. op_required o' \<longrightarrow> given (scheduled_values fqn e) o'"
    by (simp add: run_options_def selection_options_def cli_opt_def env_option_def given_def scheduled_values_def)
  ultimately show ?thesis
    using run_tokens(4-8) classify_arg [OF assms(1), of run_options] classify_arg [OF assms(2), of run_options]
    by (auto simp: parse_command_def)
qed

section \<open>Properties\<close>

text \<open>C31: The command of every generated task is refused by the parser it is written for, because it
  gives the configuration root after the command, where only the options of the command are
  known: no such command line is ever parsed, and the process ends with the usage error 2.
  With the root before the command it is parsed, with the table, the environment and the
  trigger of the task.\<close>

theorem generated_tasks_are_refused:
  "(\<forall>r c ns. parse_args (task_parameters spec o' e) \<noteq> Parsed r c ns) \<and>
   (plain_arg (table_fqn spec) \<longrightarrow> plain_arg e \<longrightarrow> plain_arg (bo_config_root o') \<longrightarrow>
      parse_args (task_parameters spec o' e) = Exit 2 \<and>
      parse_args [''--config-root'', bo_config_root o', ''run'', ''--table'', table_fqn spec, ''--env'', e,
          ''--trigger'', ''schedule''] =
        Parsed (bo_config_root o') ''run'' (scheduled_values (table_fqn spec) e))"
proof (intro conjI impI allI)
  let ?rest = "[''--table'', table_fqn spec, ''--env'', e, ''--config-root'', bo_config_root o', ''--trigger'', ''schedule'']"
  have "UnknownTok \<in> classify run_options ` set ?rest" using run_tokens(4) by (metis image_eqI list.set_intros)
  then obtain code where "parse_command run_options ?rest = Inl code" using unknown_refused by blast
  then show "parse_args (task_parameters spec o' e) \<noteq> Parsed r c ns" for r c ns
    using run_tokens(1,3) by (simp add: parse_args_def task_parameters_def)
  assume plain: "plain_arg (table_fqn spec)" "plain_arg e" "plain_arg (bo_config_root o')"
  have "HelpTok \<notin> classify run_options ` set ?rest"
    using run_tokens(4-8) classify_arg [OF plain(1), of run_options] classify_arg [OF plain(2), of run_options]
      classify_arg [OF plain(3), of run_options] by simp
  with parse_command_code \<open>parse_command run_options ?rest = Inl code\<close>
  have "parse_command run_options ?rest = Inl 2" by metis
  then show "parse_args (task_parameters spec o' e) = Exit 2"
    using run_tokens(1,3) by (simp add: parse_args_def task_parameters_def)
  show "parse_args [''--config-root'', bo_config_root o', ''run'', ''--table'', table_fqn spec, ''--env'', e,
          ''--trigger'', ''schedule''] =
        Parsed (bo_config_root o') ''run'' (scheduled_values (table_fqn spec) e)"
    using run_tokens(1-3) scheduled_command [OF plain(1,2)] classify_arg [OF plain(3), of main_options]
    by (simp add: parse_args_def)
qed

lemma generated_tasks_are_refused_witness:
  "parse_args (task_parameters (child_of [] ''a'') default_options ''${bundle.target}'') = Exit 2"
proof -
  have "plain_arg (table_fqn (child_of [] ''a''))" "plain_arg ''${bundle.target}''"
    "plain_arg (bo_config_root default_options)"
    by (simp_all add: plain_arg_def default_options_def)
  then show ?thesis using generated_tasks_are_refused by blast
qed

end
