(* ===== verification/ConfigResolve.thy ===== *)
theory ConfigResolve
  imports ConfigMerge
begin

text \<open>
  From configuration files to the effective configuration of one table in one environment
  (config/resolver.py, with the file access of config/loader.py): the layers, the identity
  stamps, the derived defaults and the \<open>${...}\<close> placeholders.  What YAML makes of a file is a
  parameter (\<open>parsed\<close>: no file, a parse error, or a value), and so are \<open>str\<close> of a
  mapping or a list and the digest of a configuration.
\<close>

section \<open>Reading values\<close>

fun truthy_cfg :: "cfg \<Rightarrow> bool" where
  "truthy_cfg (CScalar v) = truthy v"
| "truthy_cfg (CMap kvs) = (kvs \<noteq> [])"
| "truthy_cfg (CList xs) = (xs \<noteq> [])"
| "truthy_cfg (CAppend xs) = (xs \<noteq> [])"
| "truthy_cfg (CMergeBy k xs) = (xs \<noteq> [])"

text \<open>\<open>mapping.get(key) or fallback\<close>.\<close>

definition get_or :: "(string, cfg) dict \<Rightarrow> string \<Rightarrow> cfg \<Rightarrow> cfg" where
  "get_or d key fallback =
     (case dict_get d key of
        None \<Rightarrow> fallback
      | Some v \<Rightarrow> if truthy_cfg v then v else fallback)"

definition get_truthy :: "(string, cfg) dict \<Rightarrow> string \<Rightarrow> bool" where
  "get_truthy d key = (case dict_get d key of None \<Rightarrow> False | Some v \<Rightarrow> truthy_cfg v)"

text \<open>
  \<open>dict(value)\<close>: a mapping is copied, an empty list or text gives the empty dictionary.  A list
  of pairs, which Python would accept as well, is refused here.
\<close>

fun dict_of :: "cfg \<Rightarrow> (string, cfg) dict res" where
  "dict_of (CMap kvs) = Inr kvs"
| "dict_of (CList []) = Inr []"
| "dict_of (CScalar (VStr [])) = Inr []"
| "dict_of (CScalar (VStr (c # s))) = Inl (PyValueError ''dictionary update sequence'')"
| "dict_of _ = Inl (PyTypeError ''not a mapping'')"

text \<open>\<open>list(value)\<close>: the characters of a text, the keys of a mapping.\<close>

fun list_of :: "cfg \<Rightarrow> cfg list res" where
  "list_of (CList xs) = Inr xs"
| "list_of (CAppend xs) = Inr xs"
| "list_of (CMergeBy k xs) = Inr xs"
| "list_of (CMap kvs) = Inr (map (\<lambda>(k, _). CScalar (VStr k)) kvs)"
| "list_of (CScalar (VStr s)) = Inr (map (\<lambda>c. CScalar (VStr [c])) s)"
| "list_of (CScalar v) = Inl (PyTypeError ''not iterable'')"

fun text_of_cfg :: "(cfg \<Rightarrow> string) \<Rightarrow> cfg \<Rightarrow> string" where
  "text_of_cfg show_value (CScalar v) = py_str v"
| "text_of_cfg show_value v = show_value v"

section \<open>Files\<close>

type_synonym files = "string \<Rightarrow> (string + cfg) option"

definition is_file :: "files \<Rightarrow> string \<Rightarrow> bool" where
  "is_file parsed path = (parsed path \<noteq> None)"

definition load_yaml :: "files \<Rightarrow> string \<Rightarrow> (string, cfg) dict res" where
  "load_yaml parsed path =
     (case parsed path of
        None \<Rightarrow> Inl (ConfigLoadError path)
      | Some (Inl problem) \<Rightarrow> Inl (ConfigLoadError problem)
      | Some (Inr (CScalar VNone)) \<Rightarrow> Inr []
      | Some (Inr (CMap kvs)) \<Rightarrow> Inr kvs
      | Some (Inr _) \<Rightarrow> Inl (ConfigLoadError path))"

definition load_yaml_if_present :: "files \<Rightarrow> string \<Rightarrow> (string, cfg) dict res" where
  "load_yaml_if_present parsed path = (if is_file parsed path then load_yaml parsed path else Inr [])"

text \<open>\<open>domain.table\<close>: exactly one dot.\<close>

definition split_fqn :: "string \<Rightarrow> (string \<times> string) res" where
  "split_fqn fqn =
     (case split_all (CHR ''.'') fqn of
        [domain, table] \<Rightarrow> Inr (domain, table)
      | _ \<Rightarrow> Inl (ConfigLoadError fqn))"

definition table_config_path :: "files \<Rightarrow> string \<Rightarrow> string \<Rightarrow> string res" where
  "table_config_path parsed base fqn =
     bindE (split_fqn fqn) (\<lambda>(domain, table).
     let stem = base @ ''/tables/'' @ domain @ ''/'' @ table in
     case List.find (is_file parsed) [stem @ ''.yaml'', stem @ ''.yml''] of
       Some path \<Rightarrow> Inr path
     | None \<Rightarrow> Inl (ConfigLoadError fqn))"

definition env_path :: "files \<Rightarrow> string \<Rightarrow> string \<Rightarrow> string res" where
  "env_path parsed base env =
     (let stem = base @ ''/environments/'' @ env in
      case List.find (is_file parsed) [stem @ ''.yaml'', stem @ ''.yml''] of
        Some path \<Rightarrow> Inr path
      | None \<Rightarrow> Inl (ConfigResolutionError env))"

section \<open>Layers\<close>

definition env_control_keys :: "string list" where
  "env_control_keys = [''env'', ''overrides'', ''version'']"

definition env_overrides_for :: "(string, cfg) dict \<Rightarrow> string \<Rightarrow> string \<Rightarrow> (string, cfg) dict res" where
  "env_overrides_for env_cfg fqn path =
     (case get_or env_cfg ''overrides'' (CMap []) of
        CMap overrides \<Rightarrow>
          (case (case dict_get overrides fqn of None \<Rightarrow> CMap [] | Some b \<Rightarrow> b) of
             CMap block \<Rightarrow> Inr block
           | block \<Rightarrow> if truthy_cfg block then Inl (ConfigResolutionError path) else dict_of block)
      | _ \<Rightarrow> Inl (ConfigResolutionError path))"

text \<open>Identity stamps; the directory is the source of truth for the domain.\<close>

definition apply_identity :: "(string, cfg) dict \<Rightarrow> string \<Rightarrow> string \<Rightarrow> string \<Rightarrow> (string, cfg) dict res" where
  "apply_identity cfg domain table env =
     bindE (dict_of (get_or cfg ''table'' (CMap []))) (\<lambda>block.
     if get_truthy block ''domain'' \<and> dict_get block ''domain'' \<noteq> Some (CScalar (VStr domain))
     then Inl (ConfigResolutionError domain)
     else
       let block' = dict_setdefault (dict_set block ''domain'' (CScalar (VStr domain)))
                      ''name'' (CScalar (VStr table)) in
       Inr (dict_set (dict_set cfg ''table'' (CMap block')) ''env'' (CScalar (VStr env))))"

text \<open>The entries of a block that is a mapping by now; of anything else, \<open>.get\<close> fails.\<close>

fun block_of :: "cfg \<Rightarrow> (string, cfg) dict res" where
  "block_of (CMap kvs) = Inr kvs"
| "block_of _ = Inl (PyTypeError ''no attribute get'')"

definition derive_table_name :: "(cfg \<Rightarrow> string) \<Rightarrow> (string, cfg) dict \<Rightarrow> (string, cfg) dict \<Rightarrow> (string, cfg) dict" where
  "derive_table_name show_value block target =
     (if \<not> get_truthy target ''table_name'' \<and> get_truthy block ''source_object''
      then dict_set target ''table_name''
             (CScalar (VStr (str_lower (text_of_cfg show_value (the (dict_get block ''source_object''))))))
      else target)"

definition derive_merge_keys :: "(string, cfg) dict \<Rightarrow> (string, cfg) dict \<Rightarrow> (string, cfg) dict res" where
  "derive_merge_keys block target =
     (if \<not> get_truthy target ''merge_keys'' \<and> get_truthy block ''business_key''
      then bindE (list_of (the (dict_get block ''business_key''))) (\<lambda>keys.
           Inr (dict_set target ''merge_keys'' (CList keys)))
      else Inr target)"

definition derive_cluster_by :: "(string, cfg) dict \<Rightarrow> (string, cfg) dict res" where
  "derive_cluster_by target =
     (if dict_get target ''write_mode'' = Some (CScalar (VStr ''merge'')) \<and> \<not> get_truthy target ''cluster_by'' \<and>
         \<not> get_truthy target ''partition_by'' \<and> get_truthy target ''merge_keys''
      then bindE (list_of (the (dict_get target ''merge_keys''))) (\<lambda>keys.
           Inr (dict_set target ''cluster_by'' (CList keys)))
      else Inr target)"

definition apply_derived_defaults :: "(cfg \<Rightarrow> string) \<Rightarrow> (string, cfg) dict \<Rightarrow> (string, cfg) dict res" where
  "apply_derived_defaults show_value cfg =
     bindE (block_of (get_or cfg ''table'' (CMap []))) (\<lambda>block.
     bindE (dict_of (get_or cfg ''target'' (CMap []))) (\<lambda>target.
     bindE (derive_merge_keys block (derive_table_name show_value block target)) (\<lambda>target1.
     bindE (derive_cluster_by target1) (\<lambda>target2.
     Inr (dict_set cfg ''target'' (CMap target2))))))"

section \<open>Placeholders\<close>

definition name_char :: "char \<Rightarrow> bool" where
  "name_char c = (is_alpha c \<or> is_digit c \<or> c = CHR ''_'' \<or> c = CHR ''.'')"

text \<open>A match of \<open>\$\{([a-zA-Z0-9_.]+)\}\<close> at the start of a text: the name and what follows.\<close>

definition placeholder_at :: "string \<Rightarrow> (string \<times> string) option" where
  "placeholder_at s =
     (if starts_with s ''${'' then
        (let name = takeWhile name_char (drop 2 s); rest = dropWhile name_char (drop 2 s) in
         if name \<noteq> [] \<and> rest \<noteq> [] \<and> hd rest = CHR ''}'' then Some (name, tl rest) else None)
      else None)"

lemma placeholder_at_shorter: "placeholder_at s = Some (name, rest) \<Longrightarrow> length rest < length s"
proof -
  assume a: "placeholder_at s = Some (name, rest)"
  then have r: "rest = tl (dropWhile name_char (drop 2 s))" "dropWhile name_char (drop 2 s) \<noteq> []"
    by (auto simp: placeholder_at_def Let_def split: if_splits)
  have "length (dropWhile name_char (drop 2 s)) \<le> length (drop 2 s)" by (rule length_dropWhile_le)
  moreover have "length rest < length (dropWhile name_char (drop 2 s))" using r by simp
  ultimately show ?thesis by simp
qed

text \<open>One pass over a text, from left to right; whether something was replaced comes with it.\<close>

function substitute :: "(string \<Rightarrow> string res) \<Rightarrow> string \<Rightarrow> (bool \<times> string) res" where
  "substitute f s =
     (case s of
        [] \<Rightarrow> Inr (False, [])
      | c # t \<Rightarrow>
          (case placeholder_at s of
             Some (name, rest) \<Rightarrow>
               bindE (f name) (\<lambda>v. bindE (substitute f rest) (\<lambda>(_, u). Inr (True, v @ u)))
           | None \<Rightarrow> bindE (substitute f t) (\<lambda>(b, u). Inr (b, c # u))))"
  by pat_completeness auto
termination
  by (relation "measure (\<lambda>(_, s). length s)") (auto dest: placeholder_at_shorter)

declare substitute.simps [simp del]

definition lookup_path :: "cfg \<Rightarrow> string \<Rightarrow> cfg option" where
  "lookup_path cfg dotted =
     (case at_path cfg (split_all (CHR ''.'') dotted) of Some (CScalar VNone) \<Rightarrow> None | r \<Rightarrow> r)"

definition placeholder_value :: "(string, string) dict \<Rightarrow> cfg \<Rightarrow> string \<Rightarrow> string res" where
  "placeholder_value identity current name =
     (case dict_get identity name of
        Some v \<Rightarrow> Inr v
      | None \<Rightarrow>
          (case lookup_path current name of
             Some (CScalar v) \<Rightarrow> Inr (py_str v)
           | _ \<Rightarrow> Inl (ConfigResolutionError name)))"

function walk_strings :: "(string \<Rightarrow> string res) \<Rightarrow> cfg \<Rightarrow> (bool \<times> cfg) res"
  and walk_entries :: "(string \<Rightarrow> string res) \<Rightarrow> (string \<times> cfg) list \<Rightarrow> (bool \<times> (string \<times> cfg) list) res"
  and walk_items :: "(string \<Rightarrow> string res) \<Rightarrow> cfg list \<Rightarrow> (bool \<times> cfg list) res"
where
  "walk_strings f (CScalar v) =
     (case v of
        VStr s \<Rightarrow> bindE (substitute f s) (\<lambda>(b, t). Inr (b, CScalar (VStr t)))
      | _ \<Rightarrow> Inr (False, CScalar v))"
| "walk_strings f (CMap kvs) = bindE (walk_entries f kvs) (\<lambda>(b, m). Inr (b, CMap m))"
| "walk_strings f (CList xs) = bindE (walk_items f xs) (\<lambda>(b, ys). Inr (b, CList ys))"
| "walk_strings f (CAppend xs) = bindE (walk_items f xs) (\<lambda>(b, ys). Inr (b, CList ys))"
| "walk_strings f (CMergeBy k xs) = bindE (walk_items f xs) (\<lambda>(b, ys). Inr (b, CList ys))"
| "walk_entries f [] = Inr (False, [])"
| "walk_entries f ((k, v) # kvs) =
     bindE (walk_strings f v) (\<lambda>(b, v').
     bindE (walk_entries f kvs) (\<lambda>(b', kvs'). Inr (b \<or> b', (k, v') # kvs')))"
| "walk_items f [] = Inr (False, [])"
| "walk_items f (x # xs) =
     bindE (walk_strings f x) (\<lambda>(b, x').
     bindE (walk_items f xs) (\<lambda>(b', xs'). Inr (b \<or> b', x' # xs')))"
  by pat_completeness auto
termination
  by (relation "measure (\<lambda>x. case x of
        Inl (_, v) \<Rightarrow> 2 * size v
      | Inr (Inl (_, kvs)) \<Rightarrow> 2 * size_list (size_prod (\<lambda>_. 0) size) kvs + 1
      | Inr (Inr (_, xs)) \<Rightarrow> 2 * size_list size xs + 1)") simp_all

text \<open>At most so many passes; a pass that replaces nothing ends them.\<close>

definition max_interpolation_passes :: nat where
  "max_interpolation_passes = 5"

fun interpolate_passes :: "nat \<Rightarrow> (string, string) dict \<Rightarrow> cfg \<Rightarrow> cfg res" where
  "interpolate_passes 0 identity current = Inl (ConfigResolutionError ''did not converge'')"
| "interpolate_passes (Suc n) identity current =
     bindE (walk_strings (placeholder_value identity current) current) (\<lambda>(replaced, next_cfg).
     if replaced then interpolate_passes n identity next_cfg else Inr next_cfg)"

definition interpolate :: "(string, string) dict \<Rightarrow> cfg \<Rightarrow> cfg res" where
  "interpolate identity cfg = interpolate_passes max_interpolation_passes identity cfg"

section \<open>Resolution\<close>

record resolved_config =
  rv_table_fqn :: string
  rv_env :: string
  rv_data :: cfg
  rv_config_hash :: string
  rv_sources :: "string list"

definition resolve ::
  "(cfg \<Rightarrow> string) \<Rightarrow> (cfg \<Rightarrow> string) \<Rightarrow> files \<Rightarrow> string \<Rightarrow> string \<Rightarrow> string \<Rightarrow> resolved_config res" where
  "resolve show_value hash_config parsed base fqn env =
     bindE (split_fqn fqn) (\<lambda>(domain, table).
     let defaults_path = base @ ''/defaults.yaml'' in
     bindE (table_config_path parsed base fqn) (\<lambda>table_path.
     bindE (env_path parsed base env) (\<lambda>env_file.
     bindE (load_yaml parsed defaults_path) (\<lambda>defaults.
     bindE (load_yaml parsed table_path) (\<lambda>table_cfg.
     bindE (load_yaml parsed env_file) (\<lambda>env_cfg.
     if get_truthy env_cfg ''env'' \<and> dict_get env_cfg ''env'' \<noteq> Some (CScalar (VStr env))
     then Inl (ConfigResolutionError env_file)
     else
       let env_global = filter (\<lambda>(k, _). k \<notin> set env_control_keys) env_cfg in
       bindE (env_overrides_for env_cfg fqn env_file) (\<lambda>env_table.
       bindE (merge_layers [Some (CMap defaults), Some (CMap table_cfg), Some (CMap env_global),
                Some (CMap env_table)]) (\<lambda>merged.
       bindE (block_of merged) (\<lambda>data.
       bindE (apply_identity data domain table env) (\<lambda>stamped.
       bindE (apply_derived_defaults show_value stamped) (\<lambda>derived.
       bindE (interpolate [(''table_fqn'', fqn), (''env'', env), (''domain'', domain), (''table'', table)]
                (CMap derived)) (\<lambda>final.
       Inr \<lparr>rv_table_fqn = fqn, rv_env = env, rv_data = final, rv_config_hash = hash_config final,
             rv_sources = [defaults_path, table_path, env_file]\<rparr>))))))))))))"

definition resolve_all ::
  "(cfg \<Rightarrow> string) \<Rightarrow> (cfg \<Rightarrow> string) \<Rightarrow> files \<Rightarrow> string \<Rightarrow> string list \<Rightarrow> string \<Rightarrow> resolved_config list res" where
  "resolve_all show_value hash_config parsed base tables env =
     mapE (\<lambda>fqn. resolve show_value hash_config parsed base fqn env) tables"

section \<open>What interpolation leaves\<close>

fun no_placeholder :: "string \<Rightarrow> bool" where
  "no_placeholder [] = True"
| "no_placeholder (c # t) = (placeholder_at (c # t) = None \<and> no_placeholder t)"

fun settled_cfg :: "cfg \<Rightarrow> bool" where
  "settled_cfg (CScalar v) = (case v of VStr s \<Rightarrow> no_placeholder s | _ \<Rightarrow> True)"
| "settled_cfg (CMap kvs) = list_all (\<lambda>kv. settled_cfg (snd kv)) kvs"
| "settled_cfg (CList xs) = list_all settled_cfg xs"
| "settled_cfg (CAppend xs) = list_all settled_cfg xs"
| "settled_cfg (CMergeBy k xs) = list_all settled_cfg xs"

lemma substitute_settled: "no_placeholder s \<Longrightarrow> substitute f s = Inr (False, s)"
  by (induction s) (simp_all add: substitute.simps)

lemma substitute_same: "substitute f s = Inr (False, t) \<Longrightarrow> t = s \<and> no_placeholder s"
proof (induction s arbitrary: t)
  case (Cons c s)
  then show ?case
    by (cases "placeholder_at (c # s)")
      (auto simp: substitute.simps [of f "c # s"] bindE_Inr_iff)
qed (simp add: substitute.simps)

lemma walk_same:
  "walk_strings f v = Inr (b, r) \<Longrightarrow> \<not> b \<Longrightarrow> r = copy_value v \<and> settled_cfg r"
  "walk_entries f kvs = Inr (b, m) \<Longrightarrow> \<not> b \<Longrightarrow> m = copy_dict kvs \<and> settled_cfg (CMap m)"
  "walk_items f xs = Inr (b, ys) \<Longrightarrow> \<not> b \<Longrightarrow> ys = map copy_value xs \<and> list_all settled_cfg ys"
proof (induction f v and f kvs and f xs arbitrary: b r and b m and b ys
    rule: walk_strings_walk_entries_walk_items.induct)
  case (1 f v)
  then show ?case by (cases v) (auto simp: bindE_Inr_iff dest: substitute_same)
qed (fastforce simp: bindE_Inr_iff)+

lemma walk_settled:
  "settled_cfg v \<Longrightarrow> walk_strings f v = Inr (False, copy_value v)"
  "settled_cfg (CMap kvs) \<Longrightarrow> walk_entries f kvs = Inr (False, copy_dict kvs)"
  "list_all settled_cfg xs \<Longrightarrow> walk_items f xs = Inr (False, map copy_value xs)"
proof (induction f v and f kvs and f xs rule: walk_strings_walk_entries_walk_items.induct)
  case (1 f v)
  then show ?case by (cases v) (auto simp: substitute_settled)
qed auto

lemma walk_plain:
  "walk_strings f v = Inr (b, r) \<Longrightarrow> plain_cfg r"
  "walk_entries f kvs = Inr (b, m) \<Longrightarrow> plain_cfg (CMap m)"
  "walk_items f xs = Inr (b, ys) \<Longrightarrow> list_all plain_cfg ys"
proof (induction f v and f kvs and f xs arbitrary: b r and b m and b ys
    rule: walk_strings_walk_entries_walk_items.induct)
  case (1 f v)
  then show ?case by (cases v) (auto simp: bindE_Inr_iff)
qed (fastforce simp: bindE_Inr_iff)+

lemma walk_entries_get:
  "walk_entries f kvs = Inr (b, m) \<Longrightarrow> dict_get kvs k = Some v \<Longrightarrow>
   \<exists>b' v'. walk_strings f v = Inr (b', v') \<and> dict_get m k = Some v'"
  by (induction kvs arbitrary: b m) (auto simp: bindE_Inr_iff split: if_splits)

lemma walk_keeps_settled:
  "walk_strings f v = Inr (b, r) \<Longrightarrow> at_path v path = Some (CScalar (VStr s)) \<Longrightarrow> no_placeholder s \<Longrightarrow>
   at_path r path = Some (CScalar (VStr s))"
proof (induction path arbitrary: v b r)
  case (Cons k ks)
  then obtain kvs x where v: "v = CMap kvs" "dict_get kvs k = Some x" "at_path x ks = Some (CScalar (VStr s))"
    by (cases v) (auto split: option.splits)
  with Cons.prems(1) obtain m where m: "r = CMap m" "walk_entries f kvs = Inr (b, m)" by (auto simp: bindE_Inr_iff)
  from walk_entries_get [OF m(2) v(2)] obtain b' x' where "walk_strings f x = Inr (b', x')" "dict_get m k = Some x'"
    by blast
  with Cons.IH [OF this(1) v(3)] Cons.prems(3) m(1) show ?case by simp
qed (simp add: substitute_settled)

lemma interpolate_passes_settled:
  "interpolate_passes n ids v = Inr r \<Longrightarrow> settled_cfg r \<and> plain_cfg r"
  by (induction n ids v rule: interpolate_passes.induct)
    (auto simp: bindE_Inr_iff dest: walk_same(1) walk_plain(1) split: if_splits)

lemma interpolate_passes_keeps:
  "interpolate_passes n ids v = Inr r \<Longrightarrow> at_path v path = Some (CScalar (VStr s)) \<Longrightarrow> no_placeholder s \<Longrightarrow>
   at_path r path = Some (CScalar (VStr s))"
  by (induction n ids v rule: interpolate_passes.induct)
    (auto simp: bindE_Inr_iff dest: walk_keeps_settled split: if_splits)

lemma interpolate_settled: "settled_cfg v \<Longrightarrow> plain_cfg v \<Longrightarrow> interpolate ids v = Inr v"
  using walk_settled(1) [of v] plain_copy [of v]
  by (simp add: interpolate_def max_interpolation_passes_def numeral_eq_Suc)

lemma apply_identity_stamps:
  "apply_identity cfg domain table env = Inr d \<Longrightarrow>
   at_path (CMap d) [''table'', ''domain''] = Some (CScalar (VStr domain)) \<and>
   at_path (CMap d) [''env''] = Some (CScalar (VStr env))"
  by (auto simp: apply_identity_def bindE_Inr_iff Let_def dict_setdefault_def split: if_splits option.splits)

lemma derived_defaults_keep:
  "apply_derived_defaults show_value cfg = Inr d \<Longrightarrow> k \<noteq> ''target'' \<Longrightarrow> dict_get d k = dict_get cfg k"
  by (auto simp: apply_derived_defaults_def bindE_Inr_iff)

section \<open>Properties\<close>

text \<open>C25: A configuration that resolves has no placeholder and no list strategy left, so that
  interpolating it again, with whatever identity, changes nothing; its hash is that of what
  it holds; and it carries the domain of the file's place and the environment it was
  resolved for, whatever the files say.\<close>

theorem resolved_config_is_settled:
  assumes "resolve show_value hash_config parsed base fqn env = Inr rc"
  shows "settled_cfg (rv_data rc) \<and> plain_cfg (rv_data rc) \<and>
    (\<forall>identity. interpolate identity (rv_data rc) = Inr (rv_data rc)) \<and>
    rv_config_hash rc = hash_config (rv_data rc) \<and>
    (\<exists>domain table. split_fqn fqn = Inr (domain, table) \<and>
      (no_placeholder domain \<longrightarrow>
        at_path (rv_data rc) [''table'', ''domain''] = Some (CScalar (VStr domain)))) \<and>
    (no_placeholder env \<longrightarrow> at_path (rv_data rc) [''env''] = Some (CScalar (VStr env)))"
proof -
  from assms obtain domain table data stamped derived final where
    1: "split_fqn fqn = Inr (domain, table)" "apply_identity data domain table env = Inr stamped"
      "apply_derived_defaults show_value stamped = Inr derived" and
    2: "interpolate [(''table_fqn'', fqn), (''env'', env), (''domain'', domain), (''table'', table)]
      (CMap derived) = Inr final" "rv_data rc = final" "rv_config_hash rc = hash_config final"
    unfolding resolve_def by (auto simp: bindE_Inr_iff Let_def split: if_splits)
  have stamps: "at_path (CMap derived) [''table'', ''domain''] = Some (CScalar (VStr domain))"
    "at_path (CMap derived) [''env''] = Some (CScalar (VStr env))"
    using apply_identity_stamps [OF 1(2)] derived_defaults_keep [OF 1(3)] by (auto split: option.splits)
  have "settled_cfg final \<and> plain_cfg final"
    using 2(1) unfolding interpolate_def by (rule interpolate_passes_settled)
  moreover have "no_placeholder domain \<Longrightarrow> at_path final [''table'', ''domain''] = Some (CScalar (VStr domain))"
    "no_placeholder env \<Longrightarrow> at_path final [''env''] = Some (CScalar (VStr env))"
    using interpolate_passes_keeps [OF 2(1) [unfolded interpolate_def]] stamps by blast+
  ultimately show ?thesis using interpolate_settled 1(1) 2(2,3) by auto
qed

definition sample_files :: files where
  "sample_files path =
     (if path = ''c/defaults.yaml'' then Some (Inr (CMap
        [(''target'', CMap [(''catalog'', CScalar (VStr ''main_${env}'')),
           (''comment'', CScalar (VStr ''to ${target.catalog}'')), (''write_mode'', CScalar (VStr ''merge''))])]))
      else if path = ''c/tables/hr/emp.yml'' then Some (Inr (CMap
        [(''table'', CMap [(''source_object'', CScalar (VStr ''EMP'')),
           (''business_key'', CList [CScalar (VStr ''ID'')])])]))
      else if path = ''c/environments/dev.yaml'' then Some (Inr (CMap [(''env'', CScalar (VStr ''dev''))]))
      else None)"

lemma resolved_config_is_settled_witness:
  "\<exists>rc. resolve (\<lambda>_. []) (\<lambda>_. ''hash'') sample_files ''c'' ''hr.emp'' ''dev'' = Inr rc \<and>
     settled_cfg (rv_data rc) \<and> at_path (rv_data rc) [''table'', ''domain''] = Some (CScalar (VStr ''hr'')) \<and>
     at_path (rv_data rc) [''target'', ''comment''] = Some (CScalar (VStr ''to main_dev'')) \<and>
     at_path (rv_data rc) [''target'', ''cluster_by''] = Some (CList [CScalar (VStr ''ID'')])"
proof -
  let ?r = "resolve (\<lambda>_. []) (\<lambda>_. ''hash'') sample_files ''c'' ''hr.emp'' ''dev''"
  have "case ?r of Inl _ \<Rightarrow> False | Inr rc \<Rightarrow>
      at_path (rv_data rc) [''target'', ''comment''] = Some (CScalar (VStr ''to main_dev'')) \<and>
      at_path (rv_data rc) [''target'', ''cluster_by''] = Some (CList [CScalar (VStr ''ID'')])" by code_simp
  then obtain rc where rc: "?r = Inr rc"
    "at_path (rv_data rc) [''target'', ''comment''] = Some (CScalar (VStr ''to main_dev''))"
    "at_path (rv_data rc) [''target'', ''cluster_by''] = Some (CList [CScalar (VStr ''ID'')])"
    by (auto split: sum.splits)
  have "split_fqn ''hr.emp'' = Inr (''hr'', ''emp'')" "no_placeholder ''hr''" by code_simp+
  with resolved_config_is_settled [OF rc(1)] rc show ?thesis by auto
qed

end
