(* ===== verification/SpecConfig.thy ===== *)
theory SpecConfig
  imports ConfigResolve RunSpec
begin

text \<open>
  From an effective configuration to a run specification: \<open>RunSpec.from_config\<close> of
  engine/run_spec.py, one builder per dataclass.  The code assumes a configuration that has
  passed the JSON schema; where a value does not have the type of its field the builders
  return \<open>PyTypeError\<close>, while Python would carry the value on.
\<close>

section \<open>Fields\<close>

text \<open>\<open>d.get(key, fallback)\<close> for a field of each type; \<open>None\<close> is a value, not an absence.\<close>

definition ill_typed :: "string \<Rightarrow> 'a res" where
  "ill_typed key = Inl (PyTypeError key)"

definition get_text :: "(string, cfg) dict \<Rightarrow> string \<Rightarrow> string \<Rightarrow> string res" where
  "get_text d key fallback =
     (case dict_get d key of
        None \<Rightarrow> Inr fallback
      | Some (CScalar (VStr s)) \<Rightarrow> Inr s
      | Some _ \<Rightarrow> ill_typed key)"

definition get_opt_text :: "(string, cfg) dict \<Rightarrow> string \<Rightarrow> string option \<Rightarrow> string option res" where
  "get_opt_text d key fallback =
     (case dict_get d key of
        None \<Rightarrow> Inr fallback
      | Some (CScalar VNone) \<Rightarrow> Inr None
      | Some (CScalar (VStr s)) \<Rightarrow> Inr (Some s)
      | Some _ \<Rightarrow> ill_typed key)"

text \<open>\<open>d[key]\<close>.\<close>

definition require_text :: "(string, cfg) dict \<Rightarrow> string \<Rightarrow> string res" where
  "require_text d key =
     (case dict_get d key of
        None \<Rightarrow> Inl (PyKeyError key)
      | Some (CScalar (VStr s)) \<Rightarrow> Inr s
      | Some _ \<Rightarrow> ill_typed key)"

definition get_int :: "(string, cfg) dict \<Rightarrow> string \<Rightarrow> int \<Rightarrow> int res" where
  "get_int d key fallback =
     (case dict_get d key of
        None \<Rightarrow> Inr fallback
      | Some (CScalar (VInt n)) \<Rightarrow> Inr n
      | Some _ \<Rightarrow> ill_typed key)"

definition get_opt_int :: "(string, cfg) dict \<Rightarrow> string \<Rightarrow> int option res" where
  "get_opt_int d key =
     (case dict_get d key of
        None \<Rightarrow> Inr None
      | Some (CScalar VNone) \<Rightarrow> Inr None
      | Some (CScalar (VInt n)) \<Rightarrow> Inr (Some n)
      | Some _ \<Rightarrow> ill_typed key)"

definition get_bool :: "(string, cfg) dict \<Rightarrow> string \<Rightarrow> bool \<Rightarrow> bool res" where
  "get_bool d key fallback =
     (case dict_get d key of
        None \<Rightarrow> Inr fallback
      | Some (CScalar (VBool b)) \<Rightarrow> Inr b
      | Some _ \<Rightarrow> ill_typed key)"

definition get_value :: "(string, cfg) dict \<Rightarrow> string \<Rightarrow> pyval \<Rightarrow> pyval res" where
  "get_value d key fallback =
     (case dict_get d key of
        None \<Rightarrow> Inr fallback
      | Some (CScalar v) \<Rightarrow> Inr v
      | Some _ \<Rightarrow> ill_typed key)"

text \<open>A block: \<open>d.get(key, {})\<close>, and \<open>d.get(key) or {}\<close>.\<close>

definition get_block :: "(string, cfg) dict \<Rightarrow> string \<Rightarrow> (string, cfg) dict res" where
  "get_block d key = (case dict_get d key of None \<Rightarrow> Inr [] | Some v \<Rightarrow> block_of v)"

definition get_block_or :: "(string, cfg) dict \<Rightarrow> string \<Rightarrow> (string, cfg) dict res" where
  "get_block_or d key = block_of (get_or d key (CMap []))"

fun scalar_of :: "cfg \<Rightarrow> pyval res" where
  "scalar_of (CScalar v) = Inr v"
| "scalar_of _ = Inl (PyTypeError ''scalar'')"

fun text_value_of :: "cfg \<Rightarrow> string res" where
  "text_value_of (CScalar (VStr s)) = Inr s"
| "text_value_of _ = Inl (PyTypeError ''text'')"

text \<open>\<open>_tuple(value)\<close>.\<close>

definition tuple_of :: "(cfg \<Rightarrow> 'a res) \<Rightarrow> (string, cfg) dict \<Rightarrow> string \<Rightarrow> 'a list res" where
  "tuple_of item d key =
     (if get_truthy d key then bindE (list_of (the (dict_get d key))) (mapE item) else Inr [])"

text \<open>\<open>dict(d.get(key) or {})\<close>.\<close>

definition dict_field :: "(cfg \<Rightarrow> 'a res) \<Rightarrow> (string, cfg) dict \<Rightarrow> string \<Rightarrow> (string, 'a) dict res" where
  "dict_field item d key =
     bindE (dict_of (get_or d key (CMap []))) (\<lambda>entries.
     mapE (\<lambda>(k, v). bindE (item v) (\<lambda>a. Inr (k, a))) entries)"

section \<open>The parts of a specification\<close>

definition table_from :: "(string, cfg) dict \<Rightarrow> table_identity res" where
  "table_from d =
     bindE (require_text d ''domain'') (\<lambda>domain.
     bindE (require_text d ''name'') (\<lambda>name.
     bindE (require_text d ''source_schema'') (\<lambda>source_schema.
     bindE (require_text d ''source_object'') (\<lambda>source_object.
     bindE (tuple_of text_value_of d ''business_key'') (\<lambda>business_key.
     bindE (get_opt_text d ''description'' None) (\<lambda>description.
     bindE (get_opt_text d ''owner'' None) (\<lambda>owner.
     bindE (tuple_of text_value_of d ''depends_on'') (\<lambda>depends_on.
     Inr \<lparr>ti_domain = domain, ti_name = name, ti_source_schema = source_schema,
           ti_source_object = source_object, ti_business_key = business_key,
           ti_description = description, ti_owner = owner, ti_depends_on = depends_on\<rparr>))))))))"

definition read_from :: "(string, cfg) dict \<Rightarrow> read_spec res" where
  "read_from d =
     bindE (get_int d ''num_partitions'' 1) (\<lambda>num_partitions.
     bindE (get_opt_text d ''partition_column'' None) (\<lambda>partition_column.
     bindE (get_value d ''lower_bound'' VNone) (\<lambda>lower_bound.
     bindE (get_value d ''upper_bound'' VNone) (\<lambda>upper_bound.
     bindE (get_text d ''bounds_strategy'' ''auto'') (\<lambda>bounds_strategy.
     Inr \<lparr>rd_num_partitions = num_partitions, rd_partition_column = partition_column,
           rd_lower_bound = lower_bound, rd_upper_bound = upper_bound,
           rd_bounds_strategy = bounds_strategy\<rparr>)))))"

definition source_from :: "(string, cfg) dict \<Rightarrow> source_spec res" where
  "source_from d =
     bindE (get_block_or d ''jdbc'') (\<lambda>jdbc.
     bindE (get_block_or d ''read'') (\<lambda>rd.
     bindE (get_text d ''type'' ''oracle'') (\<lambda>source_type.
     bindE (get_int d ''fetch_size'' 10000) (\<lambda>fetch_size.
     bindE (get_text jdbc ''driver'' ''oracle.jdbc.OracleDriver'') (\<lambda>driver.
     bindE (get_opt_text jdbc ''url'' None) (\<lambda>url.
     bindE (get_opt_text jdbc ''session_init_statement'' None) (\<lambda>session_init.
     bindE (dict_field scalar_of jdbc ''options'') (\<lambda>options.
     bindE (get_opt_text d ''secret_scope'' None) (\<lambda>secret_scope.
     bindE (dict_field text_value_of d ''secret_keys'') (\<lambda>secret_keys.
     bindE (dict_field text_value_of d ''custom_schema'') (\<lambda>custom_schema.
     bindE (read_from rd) (\<lambda>read.
     Inr \<lparr>so_type = source_type, so_fetch_size = fetch_size, so_driver = driver, so_url = url,
           so_session_init = session_init, so_options = options, so_secret_scope = secret_scope,
           so_secret_keys = secret_keys, so_custom_schema = custom_schema, so_read = read\<rparr>))))))))))))"

definition incremental_from :: "(string, cfg) dict \<Rightarrow> incremental_spec res" where
  "incremental_from d =
     bindE (get_text d ''strategy'' ''watermark'') (\<lambda>strategy.
     bindE (get_opt_text d ''watermark_column'' None) (\<lambda>watermark_column.
     bindE (get_text d ''watermark_type'' ''timestamp'') (\<lambda>watermark_type.
     bindE (get_opt_text d ''overlap'' (Some ''PT0S'')) (\<lambda>overlap.
     bindE (get_value d ''lower_bound_default'' VNone) (\<lambda>lower_bound_default.
     bindE (get_value d ''bound_inclusive'' (VStr ''auto'')) (\<lambda>bound_inclusive.
     bindE (get_bool d ''use_upper_bound'' True) (\<lambda>use_upper_bound.
     Inr \<lparr>in_strategy = strategy, in_watermark_column = watermark_column,
           in_watermark_type = watermark_type, in_overlap = overlap,
           in_lower_bound_default = lower_bound_default, in_bound_inclusive = bound_inclusive,
           in_use_upper_bound = use_upper_bound\<rparr>)))))))"

definition columns_from :: "(string, cfg) dict \<Rightarrow> column_choice res" where
  "columns_from d =
     (case dict_get d ''columns'' of
        None \<Rightarrow> Inr AllColumns
      | Some v \<Rightarrow>
          if v = CScalar (VStr ''*'') then Inr AllColumns
          else bindE (bindE (list_of v) (mapE text_value_of)) (\<lambda>cs. Inr (Columns cs)))"

definition extraction_from :: "(string, cfg) dict \<Rightarrow> extraction_spec res" where
  "extraction_from d =
     bindE (get_block_or d ''incremental'') (\<lambda>incr.
     bindE (get_text d ''mode'' ''full'') (\<lambda>mode.
     bindE (columns_from d) (\<lambda>columns.
     bindE (tuple_of text_value_of d ''exclude_columns'') (\<lambda>exclude_columns.
     bindE (get_opt_text d ''filter'' None) (\<lambda>row_filter.
     bindE (get_opt_text d ''query_file'' None) (\<lambda>query_file.
     bindE (get_opt_int d ''row_limit'') (\<lambda>row_limit.
     bindE (incremental_from incr) (\<lambda>inc.
     Inr \<lparr>ex_mode = mode, ex_columns = columns, ex_exclude_columns = exclude_columns,
           ex_filter = row_filter, ex_query_file = query_file, ex_row_limit = row_limit,
           ex_incremental = inc\<rparr>))))))))"

definition target_from :: "(string, cfg) dict \<Rightarrow> target_spec res" where
  "target_from d =
     bindE (require_text d ''catalog'') (\<lambda>catalog.
     bindE (require_text d ''schema'') (\<lambda>schema.
     bindE (require_text d ''table_name'') (\<lambda>table_name.
     bindE (get_text d ''layer'' ''bronze'') (\<lambda>layer.
     bindE (get_text d ''format'' ''delta'') (\<lambda>fmt.
     bindE (get_text d ''write_mode'' ''merge'') (\<lambda>write_mode.
     bindE (tuple_of text_value_of d ''merge_keys'') (\<lambda>merge_keys.
     bindE (get_text d ''merge_guard'' ''watermark'') (\<lambda>merge_guard.
     bindE (get_bool d ''enable_change_data_feed'' False) (\<lambda>cdf.
     bindE (tuple_of text_value_of d ''partition_by'') (\<lambda>partition_by.
     bindE (tuple_of text_value_of d ''cluster_by'') (\<lambda>cluster_by.
     bindE (get_bool d ''add_audit_columns'' True) (\<lambda>add_audit_columns.
     bindE (get_bool d ''schema_evolution'' True) (\<lambda>schema_evolution.
     bindE (get_text d ''column_case'' ''preserve'') (\<lambda>column_case.
     bindE (dict_field text_value_of d ''table_properties'') (\<lambda>table_properties.
     Inr \<lparr>tg_catalog = catalog, tg_schema = schema, tg_table_name = table_name, tg_layer = layer,
           tg_format = fmt, tg_write_mode = write_mode, tg_merge_keys = merge_keys,
           tg_merge_guard = merge_guard, tg_enable_cdf = cdf, tg_partition_by = partition_by,
           tg_cluster_by = cluster_by, tg_add_audit_columns = add_audit_columns,
           tg_schema_evolution = schema_evolution, tg_column_case = column_case,
           tg_table_properties = table_properties\<rparr>)))))))))))))))"

definition control_from :: "(string, cfg) dict \<Rightarrow> control_spec res" where
  "control_from d =
     bindE (require_text d ''catalog'') (\<lambda>catalog.
     bindE (require_text d ''schema'') (\<lambda>schema.
     Inr \<lparr>cs_catalog = catalog, cs_schema = schema\<rparr>))"

definition expectation_from :: "cfg \<Rightarrow> expectation res" where
  "expectation_from e =
     bindE (block_of e) (\<lambda>d.
     bindE (require_text d ''column'') (\<lambda>column.
     bindE (require_text d ''rule'') (\<lambda>rule.
     bindE (tuple_of scalar_of d ''values'') (\<lambda>vals.
     bindE (get_value d ''value'' VNone) (\<lambda>val.
     bindE (get_opt_text d ''pattern'' None) (\<lambda>pattern.
     bindE (get_text d ''action'' ''fail'') (\<lambda>action.
     Inr \<lparr>xp_column = column, xp_rule = rule, xp_values = vals, xp_value = val,
           xp_pattern = pattern, xp_action = action\<rparr>)))))))"

definition quality_from :: "(string, cfg) dict \<Rightarrow> quality_spec res" where
  "quality_from d =
     bindE (get_bool d ''row_count_reconciliation'' True) (\<lambda>row_count.
     bindE (get_bool d ''fail_on_schema_drift'' False) (\<lambda>drift.
     bindE (get_bool d ''null_check_keys'' True) (\<lambda>null_check.
     bindE (tuple_of expectation_from d ''expectations'') (\<lambda>expectations.
     Inr \<lparr>qu_row_count_reconciliation = row_count, qu_fail_on_schema_drift = drift,
           qu_null_check_keys = null_check, qu_expectations = expectations\<rparr>))))"

definition runtime_from :: "(string, cfg) dict \<Rightarrow> runtime_spec res" where
  "runtime_from d =
     bindE (get_int d ''retries'' 2) (\<lambda>retries.
     bindE (get_int d ''retry_backoff_seconds'' 30) (\<lambda>backoff.
     bindE (get_int d ''timeout_minutes'' 120) (\<lambda>timeout.
     bindE (get_bool d ''enabled'' True) (\<lambda>enabled.
     Inr \<lparr>ru_retries = retries, ru_retry_backoff_seconds = backoff, ru_timeout_minutes = timeout,
           ru_enabled = enabled\<rparr>))))"

definition alerting_from :: "(string, cfg) dict \<Rightarrow> alerting_spec res" where
  "alerting_from d =
     bindE (tuple_of text_value_of d ''on_failure'') (\<lambda>on_failure.
     bindE (tuple_of text_value_of d ''on_reconciliation_mismatch'') (\<lambda>on_mismatch.
     bindE (tuple_of text_value_of d ''on_freshness_breach'') (\<lambda>on_freshness.
     bindE (get_value d ''freshness_sla_hours'' VNone) (\<lambda>sla.
     Inr \<lparr>al_on_failure = on_failure, al_on_reconciliation_mismatch = on_mismatch,
           al_on_freshness_breach = on_freshness, al_freshness_sla_hours = sla\<rparr>))))"

definition schedule_from :: "(string, cfg) dict \<Rightarrow> schedule_spec res" where
  "schedule_from d =
     bindE (get_text d ''group'' ''default'') (\<lambda>grp.
     bindE (get_opt_text d ''cron'' None) (\<lambda>cron.
     bindE (get_text d ''timezone'' ''UTC'') (\<lambda>timezone.
     bindE (get_int d ''job_retries'' 0) (\<lambda>job_retries.
     Inr \<lparr>sc_group = grp, sc_cron = cron, sc_timezone = timezone, sc_job_retries = job_retries\<rparr>))))"

definition from_config :: "(string, cfg) dict \<Rightarrow> string \<Rightarrow> run_spec res" where
  "from_config d config_hash =
     bindE (get_text d ''env'' []) (\<lambda>env.
     bindE (bindE (get_block d ''table'') table_from) (\<lambda>table.
     bindE (bindE (get_block d ''source'') source_from) (\<lambda>source.
     bindE (bindE (get_block d ''extraction'') extraction_from) (\<lambda>extraction.
     bindE (bindE (get_block d ''target'') target_from) (\<lambda>target.
     bindE (bindE (get_block d ''control'') control_from) (\<lambda>control.
     bindE (bindE (get_block_or d ''quality'') quality_from) (\<lambda>quality.
     bindE (bindE (get_block_or d ''runtime'') runtime_from) (\<lambda>runtime.
     bindE (bindE (get_block_or d ''alerting'') alerting_from) (\<lambda>alerting.
     bindE (bindE (get_block_or d ''schedule'') schedule_from) (\<lambda>schedule.
     bindE (bindE (get_block_or d ''logging'') (\<lambda>l. get_text l ''level'' ''INFO'')) (\<lambda>log_level.
     Inr \<lparr>rs_env = env, rs_table = table, rs_source = source, rs_extraction = extraction,
           rs_target = target, rs_control = control, rs_quality = quality, rs_runtime = runtime,
           rs_alerting = alerting, rs_schedule = schedule, rs_log_level = log_level,
           rs_config_hash = config_hash\<rparr>)))))))))))"

end
