(* ===== verification/ConfigValidate.thy ===== *)
theory ConfigValidate
  imports SpecConfig SqlBuilder Extractor
begin

text \<open>
  The semantic checks of an effective configuration (config/validator.py).  A message is a
  constructor that names its check; the JSON schema, which a third-party library evaluates,
  is a parameter.  The checks read the configuration once into a view of the values they
  use; a value that the schema would refuse makes the reading fail.
\<close>

datatype problem =
    SchemaProblem string
  | BadIdentifier string string
  | BadColumn string
  | DuplicateColumn string
  | UnsafePredicate
  | NeedsWatermarkColumn
  | ScnWithColumn
  | OverlapIgnored
  | BadLowerDefault
  | NeedsQueryFile
  | QueryFileMissing string
  | ColumnsIgnored
  | FilterIgnored
  | QueryFileIgnored
  | NeedsMergeKeys
  | NotSelected string string
  | NeedsBounds
  | NeedsValues nat
  | NeedsValue nat
  | NeedsPattern nat
  | NeedsSecretScope
  | NeedsUrl
  | UrlHasCredentials
  | NotResolved pyerr

datatype caution =
    TieBreakerOnly
  | GuardOmitted
  | PartitionedMerge
  | MergeKeysUnused
  | NoBusinessKey
  | SingleThreaded

record validation_report =
  vr_table_fqn :: string
  vr_env :: string
  vr_errors :: "problem list"
  vr_warnings :: "caution list"

definition report_is_ok :: "validation_report \<Rightarrow> bool" where
  "report_is_ok r = (vr_errors r = [])"

definition raise_if_failed :: "(problem \<Rightarrow> string) \<Rightarrow> validation_report \<Rightarrow> validation_report res" where
  "raise_if_failed show_problem r =
     (if vr_errors r \<noteq> [] then Inl (ConfigValidationError (map show_problem (vr_errors r))) else Inr r)"

section \<open>The values the checks read\<close>

record expectation_view =
  ev_column :: "string option"
  ev_rule :: "string option"
  ev_has_values :: bool
  ev_value :: pyval
  ev_pattern :: "string option"

record view =
  vw_source_schema :: "string option"
  vw_source_object :: "string option"
  vw_has_business_key :: bool
  vw_mode :: "string option"
  vw_columns :: "string list"
  vw_filter :: "string option"
  vw_query_file :: "string option"
  vw_strategy :: string
  vw_watermark_column :: "string option"
  vw_watermark_type :: string
  vw_overlap :: "string option"
  vw_lower_default :: pyval
  vw_write_mode :: "string option"
  vw_merge_keys :: "string list"
  vw_merge_guard :: string
  vw_partition_by :: "string list"
  vw_cluster_by :: "string list"
  vw_num_partitions :: int
  vw_partition_column :: "string option"
  vw_bounds_strategy :: string
  vw_lower_bound :: pyval
  vw_upper_bound :: pyval
  vw_expectations :: "expectation_view list"
  vw_secret_scope :: "string option"
  vw_url :: "string option"

definition expectation_view_of :: "cfg \<Rightarrow> expectation_view res" where
  "expectation_view_of e =
     bindE (block_of e) (\<lambda>d.
     bindE (get_opt_text d ''column'' None) (\<lambda>column.
     bindE (get_opt_text d ''rule'' None) (\<lambda>rule.
     bindE (get_value d ''value'' VNone) (\<lambda>val.
     bindE (get_opt_text d ''pattern'' None) (\<lambda>pattern.
     Inr \<lparr>ev_column = column, ev_rule = rule, ev_has_values = get_truthy d ''values'',
           ev_value = val, ev_pattern = pattern\<rparr>)))))"

text \<open>The explicit columns: only a list counts.\<close>

definition explicit_columns :: "(string, cfg) dict \<Rightarrow> string list res" where
  "explicit_columns extraction =
     (case dict_get extraction ''columns'' of
        Some (CList xs) \<Rightarrow> mapE text_value_of xs
      | _ \<Rightarrow> Inr [])"

definition view_of :: "(string, cfg) dict \<Rightarrow> view res" where
  "view_of d =
     bindE (get_block d ''table'') (\<lambda>table.
     bindE (get_block d ''source'') (\<lambda>source.
     bindE (get_block d ''extraction'') (\<lambda>extraction.
     bindE (get_block_or extraction ''incremental'') (\<lambda>incr.
     bindE (get_block d ''target'') (\<lambda>target.
     bindE (get_block_or d ''quality'') (\<lambda>quality.
     bindE (get_block_or source ''read'') (\<lambda>rd.
     bindE (get_block_or source ''jdbc'') (\<lambda>jdbc.
     bindE (get_opt_text table ''source_schema'' None) (\<lambda>source_schema.
     bindE (get_opt_text table ''source_object'' None) (\<lambda>source_object.
     bindE (get_opt_text extraction ''mode'' None) (\<lambda>mode.
     bindE (explicit_columns extraction) (\<lambda>columns.
     bindE (get_opt_text extraction ''filter'' None) (\<lambda>row_filter.
     bindE (get_opt_text extraction ''query_file'' None) (\<lambda>query_file.
     bindE (get_text incr ''strategy'' ''watermark'') (\<lambda>strategy.
     bindE (get_opt_text incr ''watermark_column'' None) (\<lambda>watermark_column.
     bindE (get_text incr ''watermark_type'' ''timestamp'') (\<lambda>watermark_type.
     bindE (get_opt_text incr ''overlap'' None) (\<lambda>overlap.
     bindE (get_value incr ''lower_bound_default'' VNone) (\<lambda>lower_default.
     bindE (get_opt_text target ''write_mode'' None) (\<lambda>write_mode.
     bindE (tuple_of text_value_of target ''merge_keys'') (\<lambda>merge_keys.
     bindE (get_text target ''merge_guard'' ''watermark'') (\<lambda>merge_guard.
     bindE (tuple_of text_value_of target ''partition_by'') (\<lambda>partition_by.
     bindE (tuple_of text_value_of target ''cluster_by'') (\<lambda>cluster_by.
     bindE (get_int rd ''num_partitions'' 1) (\<lambda>num_partitions.
     bindE (get_opt_text rd ''partition_column'' None) (\<lambda>partition_column.
     bindE (get_text rd ''bounds_strategy'' ''auto'') (\<lambda>bounds_strategy.
     bindE (get_value rd ''lower_bound'' VNone) (\<lambda>lower_bound.
     bindE (get_value rd ''upper_bound'' VNone) (\<lambda>upper_bound.
     bindE (tuple_of expectation_view_of quality ''expectations'') (\<lambda>expectations.
     bindE (get_opt_text source ''secret_scope'' None) (\<lambda>secret_scope.
     bindE (get_opt_text jdbc ''url'' None) (\<lambda>url.
     Inr \<lparr>vw_source_schema = source_schema, vw_source_object = source_object,
           vw_has_business_key = get_truthy table ''business_key'', vw_mode = mode,
           vw_columns = columns, vw_filter = row_filter, vw_query_file = query_file,
           vw_strategy = strategy, vw_watermark_column = watermark_column,
           vw_watermark_type = watermark_type, vw_overlap = overlap,
           vw_lower_default = lower_default, vw_write_mode = write_mode,
           vw_merge_keys = merge_keys, vw_merge_guard = merge_guard,
           vw_partition_by = partition_by, vw_cluster_by = cluster_by,
           vw_num_partitions = num_partitions, vw_partition_column = partition_column,
           vw_bounds_strategy = bounds_strategy, vw_lower_bound = lower_bound,
           vw_upper_bound = upper_bound, vw_expectations = expectations,
           vw_secret_scope = secret_scope, vw_url = url\<rparr>))))))))))))))))))))))))))))))))"

section \<open>The checks\<close>

definition is_oracle_ident :: "string \<Rightarrow> bool" where
  "is_oracle_ident s = re_dollar oracle_ident_body s"

definition check_source_names :: "view \<Rightarrow> problem list" where
  "check_source_names v =
     concat (map (\<lambda>(label, name).
         if present name \<and> \<not> is_oracle_ident (text_of name) then [BadIdentifier label (text_of name)] else [])
       [(''table.source_schema'', vw_source_schema v), (''table.source_object'', vw_source_object v)])"

fun check_columns :: "string list \<Rightarrow> string list \<Rightarrow> problem list" where
  "check_columns seen [] = []"
| "check_columns seen (col # cols) =
     (if is_oracle_ident col then [] else [BadColumn col]) @
     (if str_upper col \<in> set seen then [DuplicateColumn col] else []) @
     check_columns (str_upper col # seen) cols"

definition unsafe_predicate :: "string \<Rightarrow> bool" where
  "unsafe_predicate s = list_ex (contains_str s) ['';'', ''--'', ''/*'', ''*/'']"

definition check_filter :: "view \<Rightarrow> problem list" where
  "check_filter v =
     (if present (vw_filter v) \<and> unsafe_predicate (text_of (vw_filter v)) then [UnsafePredicate] else [])"

definition check_mode :: "view \<Rightarrow> problem list" where
  "check_mode v =
     (if vw_mode v = Some ''incremental'' then
        (if vw_strategy v = ''watermark'' \<and> \<not> present (vw_watermark_column v) then [NeedsWatermarkColumn] else []) @
        (if vw_strategy v = ''scn'' \<and> present (vw_watermark_column v) then [ScnWithColumn] else [])
      else
        (if present (vw_overlap v) \<and> vw_overlap v \<noteq> Some ''PT0S'' then [OverlapIgnored] else []))"

definition declared_type :: "view \<Rightarrow> string" where
  "declared_type v = (if vw_strategy v = ''scn'' then ''number'' else vw_watermark_type v)"

definition check_lower_default :: "view \<Rightarrow> problem list res" where
  "check_lower_default v =
     (if vw_lower_default v \<noteq> VNone \<and> vw_mode v = Some ''incremental'' then
        (case canonicalize (vw_lower_default v) (declared_type v) of
           Inl (WatermarkError m) \<Rightarrow> Inr [BadLowerDefault]
         | Inl e \<Rightarrow> Inl e
         | Inr _ \<Rightarrow> Inr [])
      else Inr [])"

text \<open>The existence of the query file is looked at when the root of the configuration is known.\<close>

definition check_query :: "(string \<Rightarrow> bool) option \<Rightarrow> view \<Rightarrow> problem list" where
  "check_query query_file_exists v =
     (if vw_mode v = Some ''query'' then
        (if \<not> present (vw_query_file v) then [NeedsQueryFile]
         else case query_file_exists of
             None \<Rightarrow> []
           | Some found \<Rightarrow>
               if found (text_of (vw_query_file v)) then [] else [QueryFileMissing (text_of (vw_query_file v))]) @
        (if vw_columns v \<noteq> [] then [ColumnsIgnored] else []) @
        (if present (vw_filter v) then [FilterIgnored] else [])
      else if present (vw_query_file v) then [QueryFileIgnored] else [])"

definition check_write :: "view \<Rightarrow> problem list" where
  "check_write v = (if vw_write_mode v = Some ''merge'' \<and> vw_merge_keys v = [] then [NeedsMergeKeys] else [])"

definition require_columns :: "string \<Rightarrow> string list \<Rightarrow> string list \<Rightarrow> problem list" where
  "require_columns label vals column_set =
     map (NotSelected label) (filter (\<lambda>x. x \<noteq> [] \<and> str_upper x \<notin> set column_set) vals)"

definition check_column_set :: "view \<Rightarrow> problem list" where
  "check_column_set v =
     (if vw_columns v = [] then []
      else
        let column_set = map str_upper (vw_columns v) in
        require_columns ''target.merge_keys'' (vw_merge_keys v) column_set @
        require_columns ''target.partition_by'' (vw_partition_by v) column_set @
        require_columns ''target.cluster_by'' (vw_cluster_by v) column_set @
        require_columns ''quality.expectations'' (map (\<lambda>e. text_of (ev_column e)) (vw_expectations v)) column_set @
        require_columns ''extraction.incremental.watermark_column'' [text_of (vw_watermark_column v)] column_set @
        require_columns ''source.read.partition_column'' [text_of (vw_partition_column v)] column_set)"

definition check_read :: "view \<Rightarrow> problem list" where
  "check_read v =
     (if vw_bounds_strategy v = ''explicit'' \<and> present (vw_partition_column v) \<and>
         (vw_lower_bound v = VNone \<or> vw_upper_bound v = VNone)
      then [NeedsBounds] else [])"

definition check_expectation :: "nat \<Rightarrow> expectation_view \<Rightarrow> problem list" where
  "check_expectation i e =
     (if ev_rule e = Some ''in_set'' \<and> \<not> ev_has_values e then [NeedsValues i] else []) @
     (if ev_rule e \<in> {Some ''min'', Some ''max''} \<and> ev_value e = VNone then [NeedsValue i] else []) @
     (if ev_rule e = Some ''regex'' \<and> \<not> present (ev_pattern e) then [NeedsPattern i] else [])"

definition check_expectations :: "view \<Rightarrow> problem list" where
  "check_expectations v =
     concat (map (\<lambda>(i, e). check_expectation i e) (enumerate 0 (vw_expectations v)))"

text \<open>A search for \<open>(?i)(password|pwd)\s*=\<close>.\<close>

definition assigns :: "string \<Rightarrow> string \<Rightarrow> bool" where
  "assigns s name =
     (starts_with s name \<and> (case dropWhile is_space (drop (length name) s) of [] \<Rightarrow> False | c # _ \<Rightarrow> c = CHR ''=''))"

fun embeds_credentials :: "string \<Rightarrow> bool" where
  "embeds_credentials [] = False"
| "embeds_credentials (c # s) =
     (assigns (str_lower (c # s)) ''password'' \<or> assigns (str_lower (c # s)) ''pwd'' \<or> embeds_credentials s)"

definition check_credentials :: "view \<Rightarrow> problem list" where
  "check_credentials v =
     (if \<not> present (vw_secret_scope v) then [NeedsSecretScope] else []) @
     (if \<not> present (vw_url v) then [NeedsUrl]
      else if embeds_credentials (text_of (vw_url v)) then [UrlHasCredentials] else [])"

text \<open>The warnings, in the order of the code.\<close>

definition cautions :: "view \<Rightarrow> caution list" where
  "cautions v =
     (if vw_mode v = Some ''full'' \<and> present (vw_watermark_column v) then [TieBreakerOnly] else []) @
     (if vw_write_mode v = Some ''merge'' then
        (if vw_merge_guard v = ''watermark'' \<and> \<not> present (vw_watermark_column v) then [GuardOmitted] else []) @
        (if vw_partition_by v \<noteq> [] then [PartitionedMerge] else [])
      else if vw_merge_keys v \<noteq> [] \<and> vw_write_mode v = Some ''overwrite'' then [MergeKeysUnused] else []) @
     (if vw_write_mode v = Some ''merge'' \<and> \<not> vw_has_business_key v then [NoBusinessKey] else []) @
     (if 1 < vw_num_partitions v \<and> \<not> present (vw_partition_column v) then [SingleThreaded] else [])"

definition semantic_errors :: "(string \<Rightarrow> bool) option \<Rightarrow> view \<Rightarrow> problem list res" where
  "semantic_errors query_file_exists v =
     bindE (check_lower_default v) (\<lambda>bad_default.
     Inr (check_source_names v @ check_columns [] (vw_columns v) @ check_filter v @ check_mode v @
       bad_default @ check_query query_file_exists v @ check_write v @ check_column_set v @
       check_read v @ check_expectations v @ check_credentials v))"

definition validate ::
  "((string, cfg) dict \<Rightarrow> string list) \<Rightarrow> (string \<Rightarrow> bool) option \<Rightarrow> string \<Rightarrow> string \<Rightarrow> (string, cfg) dict \<Rightarrow>
   validation_report res" where
  "validate schema_errors query_file_exists fqn env d =
     (let report = \<lparr>vr_table_fqn = fqn, vr_env = env,
                    vr_errors = map SchemaProblem (schema_errors d), vr_warnings = []\<rparr> in
      if vr_errors report \<noteq> [] then Inr report
      else
        bindE (view_of d) (\<lambda>v.
        bindE (semantic_errors query_file_exists v) (\<lambda>errors.
        Inr (report\<lparr>vr_errors := errors, vr_warnings := cautions v\<rparr>))))"

section \<open>What both sides read\<close>

lemma get_text_opt:
  "get_text d k fb = Inr s \<Longrightarrow> get_opt_text d k None = Inr o' \<Longrightarrow> o' = Some s \<or> (o' = None \<and> dict_get d k = None \<and> s = fb)"
  by (auto simp: get_text_def get_opt_text_def ill_typed_def split: option.splits cfg.splits pyval.splits)

lemma require_text_opt: "require_text d k = Inr s \<Longrightarrow> get_opt_text d k None = Inr o' \<Longrightarrow> o' = Some s"
  by (auto simp: require_text_def get_opt_text_def ill_typed_def split: option.splits cfg.splits pyval.splits)

lemma from_config_parts:
  assumes "from_config d h = Inr spec"
  obtains tb so ex tg where
    "get_block d ''table'' = Inr tb" "table_from tb = Inr (rs_table spec)"
    "get_block d ''source'' = Inr so" "source_from so = Inr (rs_source spec)"
    "get_block d ''extraction'' = Inr ex" "extraction_from ex = Inr (rs_extraction spec)"
    "get_block d ''target'' = Inr tg" "target_from tg = Inr (rs_target spec)"
  using assms unfolding from_config_def by (auto simp: bindE_Inr_iff)

lemma table_from_names:
  "table_from d = Inr t \<Longrightarrow>
   require_text d ''source_schema'' = Inr (ti_source_schema t) \<and> require_text d ''source_object'' = Inr (ti_source_object t)"
  unfolding table_from_def by (auto simp: bindE_Inr_iff)

lemma source_from_parts:
  assumes "source_from d = Inr s"
  obtains jdbc rd where
    "get_block_or d ''jdbc'' = Inr jdbc" "get_opt_text jdbc ''url'' None = Inr (so_url s)"
    "get_opt_text d ''secret_scope'' None = Inr (so_secret_scope s)"
    "get_block_or d ''read'' = Inr rd" "read_from rd = Inr (so_read s)"
  using assms unfolding source_from_def by (auto simp: bindE_Inr_iff)

lemma read_from_fields:
  "read_from d = Inr r \<Longrightarrow>
   get_int d ''num_partitions'' 1 = Inr (rd_num_partitions r) \<and>
   get_opt_text d ''partition_column'' None = Inr (rd_partition_column r) \<and>
   get_value d ''lower_bound'' VNone = Inr (rd_lower_bound r) \<and>
   get_value d ''upper_bound'' VNone = Inr (rd_upper_bound r) \<and>
   get_text d ''bounds_strategy'' ''auto'' = Inr (rd_bounds_strategy r)"
  unfolding read_from_def by (auto simp: bindE_Inr_iff)

lemma extraction_from_parts:
  assumes "extraction_from d = Inr e"
  obtains inc where
    "get_block_or d ''incremental'' = Inr inc" "incremental_from inc = Inr (ex_incremental e)"
    "get_text d ''mode'' ''full'' = Inr (ex_mode e)" "columns_from d = Inr (ex_columns e)"
    "get_opt_text d ''query_file'' None = Inr (ex_query_file e)"
  using assms unfolding extraction_from_def by (auto simp: bindE_Inr_iff)

lemma incremental_from_fields:
  "incremental_from d = Inr i \<Longrightarrow>
   get_text d ''strategy'' ''watermark'' = Inr (in_strategy i) \<and>
   get_opt_text d ''watermark_column'' None = Inr (in_watermark_column i) \<and>
   get_text d ''watermark_type'' ''timestamp'' = Inr (in_watermark_type i) \<and>
   get_value d ''lower_bound_default'' VNone = Inr (in_lower_bound_default i)"
  unfolding incremental_from_def by (auto simp: bindE_Inr_iff)

lemma target_from_fields:
  "target_from d = Inr t \<Longrightarrow>
   get_text d ''write_mode'' ''merge'' = Inr (tg_write_mode t) \<and>
   tuple_of text_value_of d ''merge_keys'' = Inr (tg_merge_keys t)"
  unfolding target_from_def by (auto simp: bindE_Inr_iff)

lemma view_of_parts:
  assumes "view_of d = Inr v"
  obtains tb so ex inc tg rd jdbc where
    "get_block d ''table'' = Inr tb" "get_block d ''source'' = Inr so" "get_block d ''extraction'' = Inr ex"
    "get_block_or ex ''incremental'' = Inr inc" "get_block d ''target'' = Inr tg"
    "get_block_or so ''read'' = Inr rd" "get_block_or so ''jdbc'' = Inr jdbc"
    "get_opt_text tb ''source_schema'' None = Inr (vw_source_schema v)"
    "get_opt_text tb ''source_object'' None = Inr (vw_source_object v)"
    "get_opt_text ex ''mode'' None = Inr (vw_mode v)" "explicit_columns ex = Inr (vw_columns v)"
    "get_opt_text ex ''query_file'' None = Inr (vw_query_file v)"
    "get_text inc ''strategy'' ''watermark'' = Inr (vw_strategy v)"
    "get_opt_text inc ''watermark_column'' None = Inr (vw_watermark_column v)"
    "get_text inc ''watermark_type'' ''timestamp'' = Inr (vw_watermark_type v)"
    "get_value inc ''lower_bound_default'' VNone = Inr (vw_lower_default v)"
    "get_opt_text tg ''write_mode'' None = Inr (vw_write_mode v)"
    "tuple_of text_value_of tg ''merge_keys'' = Inr (vw_merge_keys v)"
    "get_int rd ''num_partitions'' 1 = Inr (vw_num_partitions v)"
    "get_opt_text rd ''partition_column'' None = Inr (vw_partition_column v)"
    "get_text rd ''bounds_strategy'' ''auto'' = Inr (vw_bounds_strategy v)"
    "get_value rd ''lower_bound'' VNone = Inr (vw_lower_bound v)"
    "get_value rd ''upper_bound'' VNone = Inr (vw_upper_bound v)"
    "get_opt_text so ''secret_scope'' None = Inr (vw_secret_scope v)"
    "get_opt_text jdbc ''url'' None = Inr (vw_url v)"
  using assms unfolding view_of_def bindE_Inr_iff
  apply (elim exE conjE)
  apply (drule Inr_inject)
  apply (drule sym [of _ v])
  by (rule that, assumption, assumption, assumption, assumption, assumption, assumption, assumption)
    (simp (no_asm_simp) only: view.select_convs)+

text \<open>
  What the JSON schema demands of the blocks (src/config/schema/config.schema.json): the modes
  and the names of the source are there, the names not empty, and columns are \<open>"*"\<close> or a
  list that is not empty.
\<close>

definition schema_demands :: "(string, cfg) dict \<Rightarrow> bool" where
  "schema_demands d =
     (case (get_block d ''table'', get_block d ''extraction'', get_block d ''target'') of
        (Inr tb, Inr ex, Inr tg) \<Rightarrow>
          dict_get ex ''mode'' \<noteq> None \<and> dict_get tg ''write_mode'' \<noteq> None \<and>
          get_truthy tb ''source_schema'' \<and> get_truthy tb ''source_object'' \<and>
          (case dict_get ex ''columns'' of
             None \<Rightarrow> True
           | Some (CScalar v) \<Rightarrow> v = VStr ''*''
           | Some (CList xs) \<Rightarrow> xs \<noteq> []
           | Some _ \<Rightarrow> False)
      | _ \<Rightarrow> False)"

text \<open>The view and the specification agree on what the checks are about.\<close>

definition agrees :: "view \<Rightarrow> run_spec \<Rightarrow> bool" where
  "agrees v spec =
     (vw_source_schema v = Some (ti_source_schema (rs_table spec)) \<and>
      vw_source_object v = Some (ti_source_object (rs_table spec)) \<and>
      ti_source_schema (rs_table spec) \<noteq> [] \<and> ti_source_object (rs_table spec) \<noteq> [] \<and>
      vw_mode v = Some (ex_mode (rs_extraction spec)) \<and>
      vw_columns v = column_list (rs_extraction spec) \<and>
      vw_query_file v = ex_query_file (rs_extraction spec) \<and>
      vw_strategy v = in_strategy (incremental spec) \<and>
      vw_watermark_column v = in_watermark_column (incremental spec) \<and>
      vw_watermark_type v = in_watermark_type (incremental spec) \<and>
      vw_lower_default v = in_lower_bound_default (incremental spec) \<and>
      vw_write_mode v = Some (tg_write_mode (rs_target spec)) \<and>
      vw_merge_keys v = tg_merge_keys (rs_target spec) \<and>
      vw_partition_column v = rd_partition_column (so_read (rs_source spec)) \<and>
      vw_bounds_strategy v = rd_bounds_strategy (so_read (rs_source spec)) \<and>
      vw_lower_bound v = rd_lower_bound (so_read (rs_source spec)) \<and>
      vw_upper_bound v = rd_upper_bound (so_read (rs_source spec)) \<and>
      vw_secret_scope v = so_secret_scope (rs_source spec) \<and> vw_url v = so_url (rs_source spec))"

lemma columns_agree:
  "columns_from d = Inr c \<Longrightarrow> explicit_columns d = Inr cs \<Longrightarrow>
   (case dict_get d ''columns'' of None \<Rightarrow> True | Some (CScalar v) \<Rightarrow> v = VStr ''*''
      | Some (CList xs) \<Rightarrow> xs \<noteq> [] | Some _ \<Rightarrow> False) \<Longrightarrow>
   cs = (case c of AllColumns \<Rightarrow> [] | Columns cs' \<Rightarrow> cs')"
  by (auto simp: columns_from_def explicit_columns_def bindE_Inr_iff split: option.splits cfg.splits)

lemma present_mode: "dict_get d k \<noteq> None \<Longrightarrow> get_text d k fb = Inr s \<Longrightarrow> get_opt_text d k None = Inr o' \<Longrightarrow> o' = Some s"
  using get_text_opt [of d k fb s o'] by auto

lemma truthy_text: "get_truthy d k \<Longrightarrow> require_text d k = Inr s \<Longrightarrow> s \<noteq> []"
  by (auto simp: get_truthy_def require_text_def ill_typed_def split: option.splits cfg.splits pyval.splits)

lemma view_agrees:
  assumes "from_config d h = Inr spec" "view_of d = Inr v" "schema_demands d"
  shows "agrees v spec"
proof -
  from assms(1) obtain tb so ex tg where f:
    "get_block d ''table'' = Inr tb" "table_from tb = Inr (rs_table spec)"
    "get_block d ''source'' = Inr so" "source_from so = Inr (rs_source spec)"
    "get_block d ''extraction'' = Inr ex" "extraction_from ex = Inr (rs_extraction spec)"
    "get_block d ''target'' = Inr tg" "target_from tg = Inr (rs_target spec)"
    by (rule from_config_parts)
  note fields = f(1,3,5,7) table_from_names [OF f(2)] target_from_fields [OF f(8)]
  have demands: "dict_get ex ''mode'' \<noteq> None" "dict_get tg ''write_mode'' \<noteq> None"
      "get_truthy tb ''source_schema''" "get_truthy tb ''source_object''"
      "case dict_get ex ''columns'' of None \<Rightarrow> True | Some (CScalar v) \<Rightarrow> v = VStr ''*''
        | Some (CList xs) \<Rightarrow> xs \<noteq> [] | Some _ \<Rightarrow> False"
    using assms(3) f(1,5,7) by (simp_all add: schema_demands_def)
  from f(4) obtain jdbc rd where s:
    "get_block_or so ''jdbc'' = Inr jdbc" "get_opt_text jdbc ''url'' None = Inr (so_url (rs_source spec))"
    "get_opt_text so ''secret_scope'' None = Inr (so_secret_scope (rs_source spec))"
    "get_block_or so ''read'' = Inr rd" "read_from rd = Inr (so_read (rs_source spec))"
    by (rule source_from_parts)
  from f(6) obtain inc where e:
    "get_block_or ex ''incremental'' = Inr inc" "incremental_from inc = Inr (incremental spec)"
    "get_text ex ''mode'' ''full'' = Inr (ex_mode (rs_extraction spec))"
    "columns_from ex = Inr (ex_columns (rs_extraction spec))"
    "get_opt_text ex ''query_file'' None = Inr (ex_query_file (rs_extraction spec))"
    by (rule extraction_from_parts)
  show ?thesis
    using assms(2)
  proof (rule view_of_parts, goal_cases)
    case v: (1 tb' so' ex' inc' tg' rd' jdbc')
    have same: "tb' = tb" "so' = so" "ex' = ex" "tg' = tg" using v(1,2,3,5) f(1,3,5,7) by simp_all
    then have same2: "inc' = inc" "rd' = rd" "jdbc' = jdbc" using v(4,6,7) e(1) s(1,4) by simp_all
    note v = v [unfolded same same2]
    have "vw_source_schema v = Some (ti_source_schema (rs_table spec))"
      "vw_source_object v = Some (ti_source_object (rs_table spec))"
      using require_text_opt table_from_names [OF f(2)] v(8,9) by blast+
    moreover have "ti_source_schema (rs_table spec) \<noteq> []" "ti_source_object (rs_table spec) \<noteq> []"
      using truthy_text table_from_names [OF f(2)] demands(3,4) by blast+
    moreover have "vw_mode v = Some (ex_mode (rs_extraction spec))"
      using present_mode [OF demands(1) e(3) v(10)] .
    moreover have "vw_write_mode v = Some (tg_write_mode (rs_target spec))"
      using present_mode [OF demands(2) _ v(17)] target_from_fields [OF f(8)] by blast
    moreover have "vw_columns v = column_list (rs_extraction spec)"
      using columns_agree [OF e(4) v(11) demands(5)] by (simp add: column_list_def)
    ultimately show ?case
      using v e(5) s(2,3) incremental_from_fields [OF e(2)] read_from_fields [OF s(5)]
        target_from_fields [OF f(8)]
      by (simp add: agrees_def)
  qed
qed

section \<open>What validation buys\<close>

text \<open>The failures of a run that a validated configuration rules out.\<close>

definition runnable :: "run_spec \<Rightarrow> bool" where
  "runnable spec =
     (is_ok (secret_scope spec) \<and> present (so_url (rs_source spec)) \<and>
      is_ok (sql_identifier (ti_source_schema (rs_table spec))) \<and>
      is_ok (sql_identifier (ti_source_object (rs_table spec))) \<and>
      mapE sql_identifier (column_list (rs_extraction spec)) = Inr (column_list (rs_extraction spec)) \<and>
      is_ok (partition_bounds_source spec) \<and>
      (is_merge (rs_target spec) \<longrightarrow> tg_merge_keys (rs_target spec) \<noteq> []) \<and>
      (ex_mode (rs_extraction spec) = ''query'' \<longrightarrow> present (ex_query_file (rs_extraction spec))) \<and>
      (ex_mode (rs_extraction spec) = ''incremental'' \<and> in_strategy (incremental spec) \<in> {''watermark'', ''scn''} \<longrightarrow>
        present (effective_watermark_column (incremental spec))) \<and>
      (ex_mode (rs_extraction spec) = ''incremental'' \<and> \<not> uses_scn (incremental spec) \<longrightarrow>
        (\<forall>overlap. is_ok (compute_window None (in_watermark_type (incremental spec)) overlap
          (in_lower_bound_default (incremental spec))))))"

lemma check_columns_ident:
  "check_columns seen cs = [] \<Longrightarrow> c \<in> set cs \<Longrightarrow> is_oracle_ident c"
  by (induction cs arbitrary: seen) (auto split: if_splits)

lemma ident_nonempty: "is_oracle_ident c \<Longrightarrow> c \<noteq> []"
  by (auto simp: is_oracle_ident_def re_dollar_def oracle_ident_body_def)

lemma sql_identifier_ident: "is_oracle_ident c \<Longrightarrow> sql_identifier c = Inr c"
  using ident_nonempty by (auto simp: sql_identifier_def is_oracle_ident_def)

lemma mapE_ident: "(\<And>c. c \<in> set cs \<Longrightarrow> f c = Inr c) \<Longrightarrow> mapE f cs = Inr cs"
  by (induction cs) simp_all

lemma no_errors_runnable:
  assumes "agrees v spec" "semantic_errors files_known v = Inr []"
  shows "runnable spec"
proof -
  note a = assms(1) [unfolded agrees_def]
  from assms(2) obtain bad where bad: "check_lower_default v = Inr bad" and
    none: "check_source_names v = []" "check_columns [] (vw_columns v) = []" "check_mode v = []"
      "bad = []" "check_query files_known v = []" "check_write v = []" "check_read v = []" "check_credentials v = []"
    by (auto simp: semantic_errors_def bindE_Inr_iff)
  have cred: "present (so_secret_scope (rs_source spec))" "present (so_url (rs_source spec))"
    using none(8) a by (auto simp: check_credentials_def split: if_splits)
  have names: "is_oracle_ident (ti_source_schema (rs_table spec))" "is_oracle_ident (ti_source_object (rs_table spec))"
    using none(1) a by (auto simp: check_source_names_def present_def text_of_def split: if_splits)
  have cols: "mapE sql_identifier (column_list (rs_extraction spec)) = Inr (column_list (rs_extraction spec))"
    using check_columns_ident [OF none(2)] a by (intro mapE_ident sql_identifier_ident) simp
  have bounds: "is_ok (partition_bounds_source spec)"
    using none(7) a
    by (auto simp: check_read_def partition_bounds_source_def is_parallel_def Let_def is_ok_def split: if_splits)
  have keys: "is_merge (rs_target spec) \<longrightarrow> tg_merge_keys (rs_target spec) \<noteq> []"
    using none(6) a by (auto simp: check_write_def is_merge_def split: if_splits)
  have query: "ex_mode (rs_extraction spec) = ''query'' \<longrightarrow> present (ex_query_file (rs_extraction spec))"
    using none(5) a by (auto simp: check_query_def split: if_splits)
  have mark: "ex_mode (rs_extraction spec) = ''incremental'' \<and> in_strategy (incremental spec) \<in> {''watermark'', ''scn''} \<longrightarrow>
      present (effective_watermark_column (incremental spec))"
    using none(3) a
    by (auto simp: check_mode_def effective_watermark_column_def uses_scn_def present_def split: if_splits)
  have window: "is_ok (compute_window None (in_watermark_type (incremental spec)) overlap
      (in_lower_bound_default (incremental spec)))"
    if "ex_mode (rs_extraction spec) = ''incremental''" "\<not> uses_scn (incremental spec)" for overlap
  proof -
    have "declared_type v = in_watermark_type (incremental spec)"
      using that(2) a by (simp add: declared_type_def uses_scn_def)
    then have "in_lower_bound_default (incremental spec) = VNone \<or>
        (\<exists>c. canonicalize (in_lower_bound_default (incremental spec)) (in_watermark_type (incremental spec)) = Inr c)"
      using bad none(4) that(1) a
      by (auto simp: check_lower_default_def split: if_splits sum.splits pyerr.splits)
    then show ?thesis by (auto simp: compute_window_def is_ok_def)
  qed
  show ?thesis
    using cred names cols bounds keys query mark window
    by (simp add: runnable_def secret_scope_def sql_identifier_ident is_ok_def)
qed

lemma validated_runnable:
  assumes "validate schema_errors files_known fqn env d = Inr report" "report_is_ok report"
    "from_config d config_hash = Inr spec"
    "\<forall>d. schema_errors d = [] \<longrightarrow> schema_demands d"
  shows "runnable spec"
proof -
  from assms(1,2) obtain v where
    "schema_errors d = []" "view_of d = Inr v" "semantic_errors files_known v = Inr []"
    by (auto simp: validate_def Let_def report_is_ok_def bindE_Inr_iff split: if_splits)
  with no_errors_runnable view_agrees [OF assms(3)] assms(4) show ?thesis by blast
qed

section \<open>Properties\<close>

text \<open>A configuration that passes validation, of the shape its JSON schema demands, becomes a
  specification whose run cannot fail for want of a secret scope, a URL, a valid source name
  or column, explicit partition bounds, merge keys, a query file or a watermark column; and
  its first incremental run finds a window, unless it is by SCN.\<close>

theorem validated_spec_is_runnable:
  assumes "validate schema_errors files_known fqn env d = Inr report" "report_is_ok report"
    "from_config d config_hash = Inr spec"
    "\<forall>d. schema_errors d = [] \<longrightarrow> schema_demands d"
  shows "runnable spec"
  using assms by (rule validated_runnable)

definition scn_config :: "(string, cfg) dict" where
  "scn_config =
     [(''env'', CScalar (VStr ''dev'')),
      (''table'', CMap [(''domain'', CScalar (VStr ''hr'')), (''name'', CScalar (VStr ''emp'')),
         (''source_schema'', CScalar (VStr ''HR'')), (''source_object'', CScalar (VStr ''EMP''))]),
      (''source'', CMap [(''secret_scope'', CScalar (VStr ''scope'')),
         (''jdbc'', CMap [(''url'', CScalar (VStr ''jdbc:oracle''))])]),
      (''extraction'', CMap [(''mode'', CScalar (VStr ''incremental'')),
         (''incremental'', CMap [(''strategy'', CScalar (VStr ''scn'')),
            (''lower_bound_default'', CScalar (VInt 0))])]),
      (''target'', CMap [(''catalog'', CScalar (VStr ''main'')), (''schema'', CScalar (VStr ''raw'')),
         (''table_name'', CScalar (VStr ''emp'')), (''write_mode'', CScalar (VStr ''merge'')),
         (''merge_keys'', CList [CScalar (VStr ''ID'')])]),
      (''control'', CMap [(''catalog'', CScalar (VStr ''main'')), (''schema'', CScalar (VStr ''ops''))])]"

definition demanding_schema :: "(string, cfg) dict \<Rightarrow> string list" where
  "demanding_schema d = (if schema_demands d then [] else [''shape''])"

lemma scn_config_validates:
  "(case validate demanding_schema None ''hr.emp'' ''dev'' scn_config of
      Inl _ \<Rightarrow> False | Inr r \<Rightarrow> report_is_ok r) \<and> is_ok (from_config scn_config ''h'')"
  by code_simp

lemma validated_spec_is_runnable_witness:
  "\<exists>spec. from_config scn_config ''h'' = Inr spec \<and> runnable spec"
proof -
  from scn_config_validates obtain r spec where
    "validate demanding_schema None ''hr.emp'' ''dev'' scn_config = Inr r" "report_is_ok r"
    "from_config scn_config ''h'' = Inr spec"
    by (auto simp: is_ok_def split: sum.splits)
  with validated_spec_is_runnable [of demanding_schema None "''hr.emp''" "''dev''" scn_config r "''h''" spec]
  show ?thesis by (auto simp: demanding_schema_def)
qed


end
