(* ===== verification/ConfigTree.thy ===== *)
theory ConfigTree
  imports ConfigValidate
begin

text \<open>
  The configuration as files: the constructors of the YAML loader and the discovery of tables
  (config/loader.py), the resolver's views of the tree (config/resolver.py), and the entry
  points of the package, \<open>build_run_spec\<close> and \<open>validate_all\<close> (config/__init__.py).  What the
  YAML library composes from a text is a tree of nodes; the values of plain scalars are the
  library's.
\<close>

section \<open>Constructing values from nodes\<close>

datatype ynode =
    YScalar pyval
  | YSeq "ynode list"
  | YMap "(string \<times> ynode) list"
  | YAppend ynode
  | YMergeBy string ynode

text \<open>A repeated key is an error at the key, before its value is looked at.\<close>

fun construct :: "ynode \<Rightarrow> cfg res"
  and construct_all :: "ynode list \<Rightarrow> cfg list res"
  and construct_mapping :: "(string \<times> ynode) list \<Rightarrow> (string, cfg) dict \<Rightarrow> (string, cfg) dict res"
  and construct_append :: "ynode \<Rightarrow> cfg res"
  and construct_merge_by :: "string \<Rightarrow> ynode \<Rightarrow> cfg res"
where
  "construct (YScalar v) = Inr (CScalar v)"
| "construct (YSeq ns) = bindE (construct_all ns) (\<lambda>xs. Inr (CList xs))"
| "construct (YMap kvs) = bindE (construct_mapping kvs []) (\<lambda>m. Inr (CMap m))"
| "construct (YAppend n) = construct_append n"
| "construct (YMergeBy k n) = construct_merge_by k n"
| "construct_all [] = Inr []"
| "construct_all (n # ns) = bindE (construct n) (\<lambda>x. bindE (construct_all ns) (\<lambda>xs. Inr (x # xs)))"
| "construct_mapping [] m = Inr m"
| "construct_mapping ((k, n) # rest) m =
     (if k \<in> set (dict_keys m) then Inl (ConfigLoadError k)
      else bindE (construct n) (\<lambda>v. construct_mapping rest (dict_set m k v)))"
| "construct_append (YSeq ns) = bindE (construct_all ns) (\<lambda>xs. Inr (CAppend xs))"
| "construct_append _ = Inl (ConfigLoadError ''!append'')"
| "construct_merge_by k (YSeq ns) =
     (if k = [] then Inl (ConfigLoadError ''!merge_by'')
      else bindE (construct_all ns) (\<lambda>xs. Inr (CMergeBy k xs)))"
| "construct_merge_by k _ = Inl (ConfigLoadError (''!merge_by:'' @ k))"

text \<open>What a file gives to \<open>load_yaml\<close>: a problem of the YAML text, an empty document, a node.\<close>

definition loaded :: "string + ynode option \<Rightarrow> string + cfg" where
  "loaded composed =
     (case composed of
        Inl problem \<Rightarrow> Inl problem
      | Inr None \<Rightarrow> Inr (CScalar VNone)
      | Inr (Some n) \<Rightarrow>
          (case construct n of
             Inl (ConfigLoadError what) \<Rightarrow> Inl what
           | Inl _ \<Rightarrow> Inl []
           | Inr v \<Rightarrow> Inr v))"

section \<open>The tree\<close>

text \<open>
  A directory tree under a root: whether it is there, the files one directory below \<open>tables\<close>
  and those in \<open>environments\<close>, when these directories are there, and the YAML content of
  files by path.
\<close>

record config_tree =
  ct_is_dir :: bool
  ct_table_files :: "(string \<times> string) list option"
  ct_env_files :: "string list option"
  ct_content :: "string \<Rightarrow> (string + ynode option) option"

definition tree_files :: "config_tree \<Rightarrow> files" where
  "tree_files tree path = map_option loaded (ct_content tree path)"

text \<open>The pattern \<open>*.y*ml\<close> and \<open>Path.stem\<close>.\<close>

definition yaml_glob :: "string \<Rightarrow> bool" where
  "yaml_glob name =
     (2 \<le> length name \<and> drop (length name - 2) name = ''ml'' \<and>
      contains_str (take (length name - 2) name) ''.y'')"

fun last_dot :: "string \<Rightarrow> (string \<times> string) option" where
  "last_dot [] = None"
| "last_dot (c # s) =
     (case last_dot s of
        Some (a, b) \<Rightarrow> Some (c # a, b)
      | None \<Rightarrow> if c = CHR ''.'' then Some ([], s) else None)"

definition stem :: "string \<Rightarrow> string" where
  "stem name =
     (case last_dot name of
        Some (a, b) \<Rightarrow> if a \<noteq> [] \<and> b \<noteq> [] then a else name
      | None \<Rightarrow> name)"

definition discover_tables :: "config_tree \<Rightarrow> string list" where
  "discover_tables tree =
     (case ct_table_files tree of
        None \<Rightarrow> []
      | Some listing \<Rightarrow>
          map (\<lambda>(d, name). d @ ''.'' @ stem name)
            (filter (\<lambda>(_, name). \<not> starts_with name ''_'')
               (sort_key (\<lambda>(d, name). [d, name]) (filter (\<lambda>(_, name). yaml_glob name) listing))))"

text \<open>\<open>ConfigResolver(root)\<close> raises when the root is no directory.\<close>

definition open_resolver :: "config_tree \<Rightarrow> string \<Rightarrow> unit res" where
  "open_resolver tree root' = (if ct_is_dir tree then Inr () else Inl (ConfigResolutionError root'))"

definition list_tables :: "config_tree \<Rightarrow> string list" where
  "list_tables tree = discover_tables tree"

definition environments :: "config_tree \<Rightarrow> string list" where
  "environments tree =
     (case ct_env_files tree of None \<Rightarrow> [] | Some names \<Rightarrow> sort (map stem (filter yaml_glob names)))"

definition require_environment :: "config_tree \<Rightarrow> string \<Rightarrow> string \<Rightarrow> unit res" where
  "require_environment tree root' env = bindE (env_path (tree_files tree) root' env) (\<lambda>_. Inr ())"

section \<open>The entry points\<close>

text \<open>
  What the package leaves to libraries: the texts of values and of problems, the hash, the
  JSON schema, and which files a query may be read from.
\<close>

record config_lib =
  cl_show_value :: "cfg \<Rightarrow> string"
  cl_hash_config :: "cfg \<Rightarrow> string"
  cl_schema_errors :: "(string, cfg) dict \<Rightarrow> string list"
  cl_show_problem :: "problem \<Rightarrow> string"
  cl_query_file :: "string \<Rightarrow> string \<Rightarrow> bool"
  cl_tree :: "string \<Rightarrow> config_tree"

definition resolve_in :: "config_lib \<Rightarrow> string \<Rightarrow> string \<Rightarrow> string \<Rightarrow> resolved_config res" where
  "resolve_in lib root' fqn env =
     resolve (cl_show_value lib) (cl_hash_config lib) (tree_files (cl_tree lib root')) root' fqn env"

definition config_data :: "resolved_config \<Rightarrow> (string, cfg) dict" where
  "config_data rc = (case rv_data rc of CMap d \<Rightarrow> d | _ \<Rightarrow> [])"

definition validate_in ::
  "config_lib \<Rightarrow> string \<Rightarrow> string \<Rightarrow> string \<Rightarrow> resolved_config \<Rightarrow> validation_report res" where
  "validate_in lib root' fqn env rc =
     validate (cl_schema_errors lib) (Some (cl_query_file lib root')) fqn env (config_data rc)"

definition build_run_spec :: "config_lib \<Rightarrow> string \<Rightarrow> string \<Rightarrow> string \<Rightarrow> run_spec res" where
  "build_run_spec lib root' fqn env =
     bindE (open_resolver (cl_tree lib root') root') (\<lambda>_.
     bindE (resolve_in lib root' fqn env) (\<lambda>rc.
     bindE (validate_in lib root' fqn env rc) (\<lambda>report.
     bindE (raise_if_failed (cl_show_problem lib) report) (\<lambda>_.
     from_config (config_data rc) (rv_config_hash rc)))))"

fun config_error :: "pyerr \<Rightarrow> bool" where
  "config_error (ConfigLoadError _) = True"
| "config_error (ConfigResolutionError _) = True"
| "config_error (ConfigMergeError _) = True"
| "config_error _ = False"

definition validate_one :: "config_lib \<Rightarrow> string \<Rightarrow> string \<Rightarrow> string \<Rightarrow> validation_report res" where
  "validate_one lib root' env fqn =
     (case resolve_in lib root' fqn env of
        Inl e \<Rightarrow>
          if config_error e
          then Inr \<lparr>vr_table_fqn = fqn, vr_env = env, vr_errors = [NotResolved e], vr_warnings = []\<rparr>
          else Inl e
      | Inr rc \<Rightarrow> validate_in lib root' fqn env rc)"

definition validate_all :: "config_lib \<Rightarrow> string \<Rightarrow> string \<Rightarrow> validation_report list res" where
  "validate_all lib root' env =
     bindE (open_resolver (cl_tree lib root') root') (\<lambda>_.
     mapE (validate_one lib root' env) (list_tables (cl_tree lib root')))"

section \<open>What the loader accepts\<close>

text \<open>No mapping repeats a key, the strategy tags are on lists and have their key.\<close>

fun tidy :: "ynode \<Rightarrow> bool" where
  "tidy (YScalar v) = True"
| "tidy (YSeq ns) = list_all tidy ns"
| "tidy (YMap kvs) = (distinct (map fst kvs) \<and> list_all (\<lambda>kv. tidy (snd kv)) kvs)"
| "tidy (YAppend (YSeq ns)) = list_all tidy ns"
| "tidy (YMergeBy k (YSeq ns)) = (k \<noteq> [] \<and> list_all tidy ns)"
| "tidy _ = False"

abbreviation wf_values :: "(string, cfg) dict \<Rightarrow> bool" where
  "wf_values m \<equiv> dict_ok m \<and> list_all (\<lambda>kv. wf_cfg (snd kv)) m"

lemma construct_spec:
  "is_ok (construct n) = tidy n \<and> (\<forall>v. construct n = Inr v \<longrightarrow> wf_cfg v)"
  "is_ok (construct_all ns) = list_all tidy ns \<and> (\<forall>xs. construct_all ns = Inr xs \<longrightarrow> list_all wf_cfg xs)"
  "(is_ok (construct_mapping kvs m) \<longleftrightarrow> distinct (map fst kvs) \<and> set (map fst kvs) \<inter> set (dict_keys m) = {} \<and>
      list_all (\<lambda>kv. tidy (snd kv)) kvs) \<and>
    (\<forall>m'. construct_mapping kvs m = Inr m' \<longrightarrow> wf_values m \<longrightarrow> wf_values m')"
  "is_ok (construct_append n') = tidy (YAppend n') \<and> (\<forall>v. construct_append n' = Inr v \<longrightarrow> wf_cfg v)"
  "is_ok (construct_merge_by k n'') = tidy (YMergeBy k n'') \<and> (\<forall>v. construct_merge_by k n'' = Inr v \<longrightarrow> wf_cfg v)"
proof (induction n and ns and kvs m and n' and k n''
    rule: construct_construct_all_construct_mapping_construct_append_construct_merge_by.induct)
  case (9 k n rest m)
  show ?case
  proof (cases "k \<in> set (dict_keys m)")
    case False
    then have set: "dict_set m k v = m @ [(k, v)]" for v by (rule dict_set_fresh)
    have wf: "wf_values (dict_set m k v)" if "wf_values m" "wf_cfg v" for v
      using that False by (simp add: set dict_ok_def dict_keys_def)
    show ?thesis
    proof (cases "construct n")
      case (Inr v)
      with 9(1) [OF False] 9(2) [OF False, of v] False wf [of v] show ?thesis
        by (auto simp: set dict_keys_def)
    qed (use 9(1) [OF False] False in auto)
  qed simp
qed (auto simp: is_ok_bind_Inr bindE_Inr_iff is_ok_bindE is_ok_iff dict_keys_def)

section \<open>Reports and specifications\<close>

lemma validate_named:
  "validate schema_errors files_known fqn env d = Inr report \<Longrightarrow> vr_table_fqn report = fqn"
  by (auto simp: validate_def Let_def bindE_Inr_iff split: if_splits)

lemma validate_one_named: "validate_one lib root' env fqn = Inr report \<Longrightarrow> vr_table_fqn report = fqn"
  by (auto simp: validate_one_def validate_in_def validate_named split: sum.splits if_splits)

lemma validate_all_Inr:
  "validate_all lib root' env = Inr reports \<Longrightarrow>
   list_all2 (\<lambda>fqn report. validate_one lib root' env fqn = Inr report) (list_tables (cl_tree lib root')) reports"
  by (auto simp: validate_all_def bindE_Inr_iff mapE_Inr_iff)

lemma open_resolver_Inr: "open_resolver tree root' = Inr u \<longleftrightarrow> ct_is_dir tree"
  by (auto simp: open_resolver_def)

text \<open>A table whose report has no errors: its specification is what its configuration converts to.\<close>

lemma ok_report_builds:
  assumes "ct_is_dir (cl_tree lib root')" "validate_one lib root' env fqn = Inr report" "report_is_ok report"
  shows "\<exists>rc. resolve_in lib root' fqn env = Inr rc \<and> validate_in lib root' fqn env rc = Inr report \<and>
    build_run_spec lib root' fqn env = from_config (config_data rc) (rv_config_hash rc)"
proof -
  obtain rc where "resolve_in lib root' fqn env = Inr rc" "validate_in lib root' fqn env rc = Inr report"
    using assms(2,3) by (auto simp: validate_one_def report_is_ok_def split: sum.splits if_splits)
  then show ?thesis
    using assms(1,3) by (auto simp: build_run_spec_def open_resolver_def raise_if_failed_def report_is_ok_def)
qed

lemma build_run_spec_Inr:
  assumes "build_run_spec lib root' fqn env = Inr spec"
  shows "\<exists>rc report. resolve_in lib root' fqn env = Inr rc \<and> validate_in lib root' fqn env rc = Inr report \<and>
    report_is_ok report \<and> from_config (config_data rc) (rv_config_hash rc) = Inr spec"
  using assms
  by (auto simp: build_run_spec_def bindE_Inr_iff raise_if_failed_def report_is_ok_def split: if_splits)

text \<open>Two files of one stem in a directory are one table, listed twice.\<close>

lemma twin_files_list_a_table_twice:
  "list_tables \<lparr>ct_is_dir = True, ct_table_files = Some [(''hr'', ''emp.yml''), (''hr'', ''emp.yaml'')],
     ct_env_files = None, ct_content = (\<lambda>_. None)\<rparr> = [''hr.emp'', ''hr.emp'']"
  by code_simp

section \<open>Properties\<close>

text \<open>C29: The loader accepts a document exactly when no mapping in it repeats a key and every merge
  strategy is on a list, with a key where it needs one; and whatever it loads is well formed,
  as the merge assumes: no mapping has a repeated key.\<close>

theorem loaded_configuration_is_well_formed:
  "is_ok (construct n) = tidy n \<and> (\<forall>v. construct n = Inr v \<longrightarrow> wf_cfg v)"
  by (rule construct_spec)

lemma loaded_configuration_is_well_formed_witness:
  "is_ok (construct (YMap [(''a'', YMergeBy ''k'' (YSeq [])), (''b'', YScalar VNone)])) \<and>
   \<not> is_ok (construct (YMap [(''a'', YScalar VNone), (''b'', YMap []), (''a'', YScalar VNone)]))"
  by (simp only: loaded_configuration_is_well_formed) simp

text \<open>C10: Validation of a tree reports on every discovered table once, in order, and one broken
  file hides no other; and where all reports are ok, every table's specification is built
  from its resolved configuration without a further check failing, and its run cannot fail
  for what the validation checks.\<close>

theorem validated_tree_builds_runnable_specs:
  assumes "validate_all lib root' env = Inr reports"
    "\<forall>d. cl_schema_errors lib d = [] \<longrightarrow> schema_demands d"
  shows "map vr_table_fqn reports = list_tables (cl_tree lib root') \<and>
    (list_all report_is_ok reports \<longrightarrow>
      (\<forall>fqn \<in> set (list_tables (cl_tree lib root')). \<exists>rc. resolve_in lib root' fqn env = Inr rc \<and>
        build_run_spec lib root' fqn env = from_config (config_data rc) (rv_config_hash rc) \<and>
        (\<forall>spec. build_run_spec lib root' fqn env = Inr spec \<longrightarrow> runnable spec)))"
proof (intro conjI impI ballI)
  note all = validate_all_Inr [OF assms(1)]
  show "map vr_table_fqn reports = list_tables (cl_tree lib root')"
    using all by (induction rule: list_all2_induct) (simp_all add: validate_one_named)
  fix fqn assume ok: "list_all report_is_ok reports" and fqn: "fqn \<in> set (list_tables (cl_tree lib root'))"
  have dir: "ct_is_dir (cl_tree lib root')"
    using assms(1) by (auto simp: validate_all_def bindE_Inr_iff open_resolver_def split: if_splits)
  from all fqn obtain report where "validate_one lib root' env fqn = Inr report" "report \<in> set reports"
    by (induction rule: list_all2_induct) auto
  with ok_report_builds [OF dir this(1)] ok obtain rc where
    rc: "resolve_in lib root' fqn env = Inr rc" "validate_in lib root' fqn env rc = Inr report"
      "build_run_spec lib root' fqn env = from_config (config_data rc) (rv_config_hash rc)" "report_is_ok report"
    by (auto simp: list_all_iff)
  have "runnable spec" if "build_run_spec lib root' fqn env = Inr spec" for spec
    by (rule validated_runnable [OF rc(2) [unfolded validate_in_def] rc(4) that [unfolded rc(3)] assms(2)])
  with rc show "\<exists>rc. resolve_in lib root' fqn env = Inr rc \<and>
      build_run_spec lib root' fqn env = from_config (config_data rc) (rv_config_hash rc) \<and>
      (\<forall>spec. build_run_spec lib root' fqn env = Inr spec \<longrightarrow> runnable spec)"
    by blast
qed

definition sample_node :: ynode where
  "sample_node = YMap
     [(''table'', YMap [(''source_schema'', YScalar (VStr ''HR'')), (''source_object'', YScalar (VStr ''EMP''))]),
      (''source'', YMap [(''secret_scope'', YScalar (VStr ''scope'')),
         (''jdbc'', YMap [(''url'', YScalar (VStr ''jdbc:oracle''))])]),
      (''extraction'', YMap [(''mode'', YScalar (VStr ''full''))]),
      (''target'', YMap [(''catalog'', YScalar (VStr ''main'')), (''schema'', YScalar (VStr ''raw'')),
         (''write_mode'', YScalar (VStr ''merge'')), (''merge_keys'', YSeq [YScalar (VStr ''ID'')])]),
      (''control'', YMap [(''catalog'', YScalar (VStr ''main'')), (''schema'', YScalar (VStr ''ops''))])]"

definition sample_tree :: config_tree where
  "sample_tree =
     \<lparr>ct_is_dir = True, ct_table_files = Some [(''hr'', ''emp.yaml''), (''hr'', ''_shared.yaml'')],
      ct_env_files = Some [''dev.yaml''],
      ct_content = (\<lambda>path.
        if path = ''c/defaults.yaml'' then Some (Inr None)
        else if path = ''c/tables/hr/emp.yaml'' then Some (Inr (Some sample_node))
        else if path = ''c/environments/dev.yaml'' then Some (Inr None)
        else None)\<rparr>"

definition sample_lib :: config_lib where
  "sample_lib =
     \<lparr>cl_show_value = (\<lambda>_. []), cl_hash_config = (\<lambda>_. ''hash''), cl_schema_errors = demanding_schema,
      cl_show_problem = (\<lambda>_. []), cl_query_file = (\<lambda>_ _. False), cl_tree = (\<lambda>_. sample_tree)\<rparr>"

lemma sample_tree_validates:
  "list_tables sample_tree = [''hr.emp''] \<and>
   (case validate_all sample_lib ''c'' ''dev'' of Inl _ \<Rightarrow> False | Inr rs \<Rightarrow> list_all report_is_ok rs) \<and>
   is_ok (build_run_spec sample_lib ''c'' ''hr.emp'' ''dev'')"
  by code_simp

lemma validated_tree_builds_runnable_specs_witness:
  "\<exists>spec. build_run_spec sample_lib ''c'' ''hr.emp'' ''dev'' = Inr spec \<and> runnable spec"
proof -
  obtain rs spec where "validate_all sample_lib ''c'' ''dev'' = Inr rs" "list_all report_is_ok rs"
    "build_run_spec sample_lib ''c'' ''hr.emp'' ''dev'' = Inr spec"
    using sample_tree_validates by (auto simp: is_ok_iff split: sum.splits)
  moreover have "\<forall>d. cl_schema_errors sample_lib d = [] \<longrightarrow> schema_demands d"
    by (simp add: sample_lib_def demanding_schema_def)
  moreover have "list_tables (cl_tree sample_lib ''c'') = [''hr.emp'']"
    using sample_tree_validates by (simp add: sample_lib_def)
  ultimately show ?thesis using validated_tree_builds_runnable_specs by fastforce
qed

end
