(* ===== verification/Json.thy ===== *)
theory Json
  imports EventLog
begin

text \<open>
  What \<open>json.dumps\<close> writes for the objects the program gives it: a log line
  (observability/logger.py), with \<open>default=str\<close>, and the summary of a run (cli.py), with an
  indentation of two.
\<close>

definition hex_digit :: "nat \<Rightarrow> char" where
  "hex_digit n = (if n < 10 then digit_char n else char_of (87 + n))"

definition json_char :: "char \<Rightarrow> string" where
  "json_char c =
     (if c = dquote then [CHR 0x5C, dquote]
      else if c = CHR 0x5C then [CHR 0x5C, CHR 0x5C]
      else if c = newline then [CHR 0x5C, CHR ''n'']
      else if c = CHR 0x0D then [CHR 0x5C, CHR ''r'']
      else if c = CHR 0x09 then [CHR 0x5C, CHR ''t'']
      else if c = CHR 0x0C then [CHR 0x5C, CHR ''f'']
      else if c = CHR 0x08 then [CHR 0x5C, CHR ''b'']
      else if chr_code c < 32 \<or> 126 < chr_code c
      then [CHR 0x5C, CHR ''u'', CHR ''0'', CHR ''0'', hex_digit (chr_code c div 16), hex_digit (chr_code c mod 16)]
      else [c])"

definition json_string :: "string \<Rightarrow> string" where
  "json_string s = [dquote] @ concat (map json_char s) @ [dquote]"

text \<open>The values JSON has no form for are written as the string of their \<open>str\<close>.\<close>

fun json_scalar :: "pyval \<Rightarrow> string" where
  "json_scalar VNone = ''null''"
| "json_scalar (VBool b) = (if b then ''true'' else ''false'')"
| "json_scalar (VInt n) = str_int n"
| "json_scalar (VFloat q t) = t"
| "json_scalar (VStr s) = json_string s"
| "json_scalar v = json_string (py_str v)"

fun json_value :: "payload_value \<Rightarrow> string" where
  "json_value (PV v) = json_scalar v"
| "json_value (PNames ns) = ''['' @ join '', '' (map json_string ns) @ '']''"

definition json_item :: "string \<times> payload_value \<Rightarrow> string" where
  "json_item = (\<lambda>(k, v). json_string k @ '': '' @ json_value v)"

text \<open>On one line, and with an indentation of two (for the non-empty objects of the program).\<close>

definition json_line :: "payload \<Rightarrow> string" where
  "json_line p = ''{'' @ join '', '' (map json_item p) @ ''}''"

definition json_object :: "payload \<Rightarrow> string" where
  "json_object p =
     ''{'' @ [newline] @ join ('','' @ [newline]) (map (\<lambda>kv. ''  '' @ json_item kv) p) @ [newline] @ ''}''"

section \<open>A document stays on its line\<close>

text \<open>Every character is written with printable ones, so no text can break a line or leave its quotes.\<close>

definition printable :: "char \<Rightarrow> bool" where
  "printable c = (32 \<le> chr_code c \<and> chr_code c \<le> 126)"

lemma printable_hex: "n < 16 \<Longrightarrow> printable (hex_digit n)"
  by (simp add: hex_digit_def printable_def digit_char_def chr_code_def)

lemma printable_json_char: "list_all printable (json_char c)"
proof -
  have "chr_code c < 256" by (simp add: chr_code_def)
  then have "chr_code c div 16 < 16" "chr_code c mod 16 < 16" by simp_all
  moreover have "list_all printable [dquote, CHR 0x5C, CHR ''n'', CHR ''r'', CHR ''t'', CHR ''f'', CHR ''b'', CHR ''u'', CHR ''0'']"
    by code_simp
  ultimately show ?thesis
    using printable_hex by (simp add: json_char_def printable_def not_less)
qed

lemma printable_json_string: "list_all printable (json_string s)"
proof -
  have "printable dquote" by code_simp
  then show ?thesis using printable_json_char by (induction s) (simp_all add: json_string_def)
qed

text \<open>The text of a float is that of its \<open>repr\<close>, which has no control character.\<close>

fun plain_floats :: "payload_value \<Rightarrow> bool" where
  "plain_floats (PV (VFloat q t)) = list_all printable t"
| "plain_floats v = True"

lemma printable_join: "list_all printable sep \<Longrightarrow> list_all (list_all printable) xs \<Longrightarrow> list_all printable (join sep xs)"
  by (induction sep xs rule: join.induct) simp_all

lemma printable_str_int: "list_all printable (str_int n)"
proof -
  have "list_all printable (str_nat k)" for k
    using num_char_str_nat [of k]
    by (rule list.pred_mono_strong) (auto simp: num_char_def is_digit_def printable_def chr_code_def)
  then show ?thesis by (simp add: str_int_def printable_def chr_code_def)
qed

lemma printable_json_value: "plain_floats v \<Longrightarrow> list_all printable (json_value v)"
proof (cases v)
  case (PV x)
  moreover have "list_all printable (json_scalar x)" if "plain_floats (PV x)"
    using that printable_json_string printable_str_int
    by (cases x) (simp_all add: printable_def chr_code_def)
  ultimately show "plain_floats v \<Longrightarrow> ?thesis" by simp
next
  case (PNames ns)
  have "list_all printable (join '', '' (map json_string ns))"
    by (rule printable_join) (simp_all add: list_all_iff [of "list_all printable"] printable_json_string printable_def chr_code_def)
  with PNames show ?thesis by (simp add: printable_def chr_code_def)
qed

text \<open>An object is one line of printable characters.\<close>

lemma printable_json_line:
  assumes "list_all (plain_floats \<circ> snd) p"
  shows "list_all printable (json_line p)"
proof -
  have "list_all printable (join '', '' (map json_item p))"
    by (rule printable_join)
      (use assms printable_json_string printable_json_value in
        \<open>auto simp: list_all_iff [of "list_all printable"] list_all_iff [of "plain_floats \<circ> snd"] json_item_def
          printable_def [of "CHR '' ''"] printable_def [of "CHR '':''"] printable_def [of "CHR '',''"] chr_code_def\<close>)
  then show ?thesis by (simp add: json_line_def printable_def chr_code_def)
qed

end
