(* ===== verification/Cli.thy ===== *)
theory Cli
  imports CliArgs ConfigTree Json
begin

text \<open>
  The commands of \<open>ingest\<close> (cli.py) and the engine they build (orchestration/factory.py).  A
  command acts on the lines printed so far and the world; the lines stay printed when an
  exception leaves it.
\<close>

section \<open>Commands\<close>

type_synonym 'a cmd = "string list \<times> world \<Rightarrow> (exn + 'a) \<times> string list \<times> world"

definition retC :: "'a \<Rightarrow> 'a cmd" where
  "retC a = (\<lambda>s. (Inr a, s))"

definition bindC :: "'a cmd \<Rightarrow> ('a \<Rightarrow> 'b cmd) \<Rightarrow> 'b cmd" where
  "bindC m f = (\<lambda>s. case m s of (Inl e, s') \<Rightarrow> (Inl e, s') | (Inr a, s') \<Rightarrow> f a s')"

definition liftC :: "'a res \<Rightarrow> 'a cmd" where
  "liftC r = (\<lambda>s. (case r of Inl e \<Rightarrow> Inl (PyError e) | Inr a \<Rightarrow> Inr a, s))"

definition sayC :: "string list \<Rightarrow> unit cmd" where
  "sayC lines = (\<lambda>(out, w). (Inr (), out @ lines, w))"

text \<open>An action on the world.\<close>

definition doC :: "'a act \<Rightarrow> 'a cmd" where
  "doC m = (\<lambda>(out, w). case m w of (r, w') \<Rightarrow> (r, out, w'))"

text \<open>
  What the commands use from outside: the environment of the engine, the configuration and its
  libraries, the texts of validation warnings.
\<close>

record 's cli_env =
  ci_env :: "'s env"
  ci_lib :: config_lib
  ci_show_caution :: "caution \<Rightarrow> string"

definition exit_ok :: int where "exit_ok = 0"
definition exit_failed :: int where "exit_failed = 1"
definition exit_usage :: int where "exit_usage = 2"

text \<open>The attributes of the parsed arguments.\<close>

definition arg_text :: "namespace \<Rightarrow> string \<Rightarrow> string option" where
  "arg_text ns k = (case dict_get ns k of Some (AText s) \<Rightarrow> Some s | _ \<Rightarrow> None)"

definition arg_texts :: "namespace \<Rightarrow> string \<Rightarrow> string list option" where
  "arg_texts ns k = (case dict_get ns k of Some (ATexts xs) \<Rightarrow> Some xs | _ \<Rightarrow> None)"

definition arg_flag :: "namespace \<Rightarrow> string \<Rightarrow> bool" where
  "arg_flag ns k = (dict_get ns k = Some (AFlag True))"

definition arg_int :: "namespace \<Rightarrow> string \<Rightarrow> int" where
  "arg_int ns k = (case dict_get ns k of Some (ANum n) \<Rightarrow> n | _ \<Rightarrow> 1)"

abbreviation arg :: "namespace \<Rightarrow> string \<Rightarrow> string" where
  "arg ns k \<equiv> text_of (arg_text ns k)"

section \<open>Texts\<close>

text \<open>\<open>{x:<n}\<close>.\<close>

definition pad_right :: "nat \<Rightarrow> string \<Rightarrow> string" where
  "pad_right n s = s @ replicate (n - length s) (CHR '' '')"

definition str_len :: "'a list \<Rightarrow> string" where
  "str_len xs = str_int (int (length xs))"

text \<open>\<open>repr\<close> of a text without control characters.\<close>

definition quote_text :: "string \<Rightarrow> string" where
  "quote_text s =
     (let q = (if quote \<in> set s \<and> dquote \<notin> set s then dquote else quote) in
      [q] @ concat (map (\<lambda>c. if c = q \<or> c = CHR 0x5C then [CHR 0x5C, c] else [c]) s) @ [q])"

section \<open>Configuration\<close>

definition resolve_all_specs :: "config_lib \<Rightarrow> string \<Rightarrow> string \<Rightarrow> run_spec list res" where
  "resolve_all_specs lib root' env =
     bindE (open_resolver (cl_tree lib root') root') (\<lambda>_.
     mapE (\<lambda>fqn. build_run_spec lib root' fqn env) (list_tables (cl_tree lib root')))"

section \<open>The engine\<close>

text \<open>
  \<open>get_spark\<close>, and \<open>build_engine\<close>: the stores check the names of their tables, the audit log
  starts empty, for the run, with the user Spark names, or none when it cannot say.
\<close>

definition get_sparkA :: "'s env \<Rightarrow> unit act" where
  "get_sparkA env = executeA env SparkCall (\<lambda>w. w)"

definition current_userA :: "'s env \<Rightarrow> string option act" where
  "current_userA env =
     catchA
       (bindA (queryA env SparkCall (\<lambda>n _. en_spark env n ''SELECT current_user()'')) (\<lambda>rows.
        bindA (liftA (first_cell rows)) (\<lambda>v. retA (if v = VNone then None else Some (py_str v)))))
       (\<lambda>e. if catchable e then retA None else raiseA e)"

definition store_tables :: "control_spec \<Rightarrow> string list res" where
  "store_tables c =
     mapE (\<lambda>name. qualify [cs_catalog c, cs_schema c, name])
       [''ingestion_runs'', ''ingestion_tasks'', ''config_registry'', ''reconciliation'', ''watermarks'', ''audit_log'']"

definition build_engineA :: "'s env \<Rightarrow> run_spec \<Rightarrow> string \<Rightarrow> unit act" where
  "build_engineA env spec rid =
     bindA (liftA (store_tables (rs_control spec))) (\<lambda>_.
     bindA (current_userA env) (\<lambda>actor.
     modifyA (\<lambda>w. w\<lparr>wd_audit :=
       (new_audit_log (Some rid) (Some (rs_env spec)) actor 100, snd (wd_audit w))\<rparr>)))"

section \<open>Commands on the configuration\<close>

definition report_lines :: "config_lib \<Rightarrow> (caution \<Rightarrow> string) \<Rightarrow> validation_report \<Rightarrow> string list" where
  "report_lines lib show_caution r =
     map (\<lambda>e. ''ERROR '' @ vr_table_fqn r @ '': '' @ cl_show_problem lib e) (vr_errors r) @
     map (\<lambda>c. ''WARN  '' @ vr_table_fqn r @ '': '' @ show_caution c) (vr_warnings r) @
     (if report_is_ok r \<and> vr_warnings r = [] then [''OK    '' @ vr_table_fqn r] else [])"

definition validate_summary :: "validation_report list \<Rightarrow> string" where
  "validate_summary reports =
     (let failed = filter (\<lambda>r. vr_errors r \<noteq> []) reports; warned = filter (\<lambda>r. vr_warnings r \<noteq> []) reports in
      [newline] @ str_len reports @ '' table(s): '' @
      str_int (int (length reports) - int (length failed)) @ '' ok, '' @ str_len failed @
      '' with errors, '' @ str_len warned @ '' with warnings'')"

definition validate_code :: "bool \<Rightarrow> validation_report list \<Rightarrow> int" where
  "validate_code strict reports =
     (if filter (\<lambda>r. vr_errors r \<noteq> []) reports \<noteq> [] then exit_failed
      else if strict \<and> filter (\<lambda>r. vr_warnings r \<noteq> []) reports \<noteq> [] then exit_failed else exit_ok)"

definition cmd_validate :: "'s cli_env \<Rightarrow> string \<Rightarrow> namespace \<Rightarrow> int cmd" where
  "cmd_validate ce root' args =
     (let lib = ci_lib ce in
      bindC (liftC (bindE (open_resolver (cl_tree lib root') root') (\<lambda>_.
               require_environment (cl_tree lib root') root' (arg args ''env'')))) (\<lambda>_.
      bindC (liftC (validate_all lib root' (arg args ''env''))) (\<lambda>all.
      let reports = (case arg_texts args ''table'' of
            None \<Rightarrow> all
          | Some wanted \<Rightarrow>
              if wanted = [] then all else filter (\<lambda>r. vr_table_fqn r \<in> set wanted) all)
      in
      if reports = [] then bindC (sayC [''no tables matched'']) (\<lambda>_. retC exit_usage)
      else
        bindC (sayC (concat (map (report_lines lib (ci_show_caution ce)) (sort_key vr_table_fqn reports)))) (\<lambda>_.
        bindC (sayC [validate_summary reports]) (\<lambda>_.
        retC (validate_code (arg_flag args ''strict'') reports))))))"

definition placeholder_time :: pdatetime where
  "placeholder_time = midnight (PDate 2026 1 1)"

definition stage_of_query :: "run_spec \<Rightarrow> source_query \<Rightarrow> stage_query res" where
  "stage_of_query spec q =
     build_stage_query spec
       (if sq_projected_columns q = [] then [''<all columns>''] else sq_projected_columns q)
       ''run_id_placeholder'' ''batch_id_placeholder'' placeholder_time raw_view"

definition cmd_show_sql :: "'s cli_env \<Rightarrow> string \<Rightarrow> namespace \<Rightarrow> int cmd" where
  "cmd_show_sql ce root' args =
     bindC (liftC (build_run_spec (ci_lib ce) root' (arg args ''table'') (arg args ''env''))) (\<lambda>spec.
     bindC (if ex_mode (rs_extraction spec) \<noteq> ''query''
            then bindC (liftC (build_source_query spec (arg_text args ''lower_bound'') (arg_text args ''upper_bound'') None))
                   (\<lambda>q. retC (Some q))
            else retC None) (\<lambda>query.
     bindC (sayC [''-- source query for '' @ table_fqn spec @ '' ['' @ rs_env spec @ ''] -> '' @ target_fqn (rs_target spec)]) (\<lambda>_.
     case query of
       None \<Rightarrow>
         bindC (sayC [''-- mode: query; see '' @
           (case ex_query_file (rs_extraction spec) of None \<Rightarrow> ''None'' | Some f \<Rightarrow> f)]) (\<lambda>_. retC exit_ok)
     | Some q \<Rightarrow>
         bindC (sayC [sq_sql q @ [newline]]) (\<lambda>_.
         bindC (liftC (stage_of_query spec q)) (\<lambda>stage.
         bindC (if selects_all_columns (rs_extraction spec) then retC ()
                else sayC [''-- staging ('' @ tg_write_mode (rs_target spec) @ '')'', st_sql stage]) (\<lambda>_.
         retC exit_ok))))))"

definition numbered :: "'a list \<Rightarrow> (nat \<times> 'a) list" where
  "numbered xs = zip [0..<length xs] xs"

definition table_line :: "nat \<Rightarrow> run_spec \<Rightarrow> string" where
  "table_line depth s =
     str_nat depth @ ''  '' @ pad_right 32 (table_fqn s) @ '' '' @ pad_right 12 (ex_mode (rs_extraction s)) @
     '' '' @ pad_right 10 (tg_write_mode (rs_target s)) @ '' group='' @ sc_group (rs_schedule s)"

definition cmd_list_tables :: "'s cli_env \<Rightarrow> string \<Rightarrow> namespace \<Rightarrow> int cmd" where
  "cmd_list_tables ce root' args =
     bindC (liftC (resolve_all_specs (ci_lib ce) root' (arg args ''env''))) (\<lambda>specs.
     bindC (liftC (order_tables specs)) (\<lambda>levels.
     bindC (sayC (concat (map (\<lambda>(depth, level). map (table_line depth) level) (numbered levels)))) (\<lambda>_.
     bindC (sayC [[newline] @ str_len specs @ '' table(s) in '' @ str_len levels @ '' dependency level(s)'']) (\<lambda>_.
     retC exit_ok))))"

section \<open>Commands on the engine\<close>

definition dry_run_line :: "nat \<Rightarrow> run_spec \<Rightarrow> string" where
  "dry_run_line depth s =
     ''  ['' @ str_nat depth @ ''] '' @ table_fqn s @ '' -> '' @ target_fqn (rs_target s) @ '' ('' @
     ex_mode (rs_extraction s) @ ''/'' @ tg_write_mode (rs_target s) @ '') config='' @ take 8 (rs_config_hash s)"

definition failed_outcomes :: "batch_result \<Rightarrow> task_outcome list" where
  "failed_outcomes b = filter (\<lambda>o'. to_status o' = TaskFailed) (br_outcomes b)"

definition failed_line :: "'s env \<Rightarrow> task_outcome \<Rightarrow> string" where
  "failed_line env o' =
     ''FAILED '' @ to_table_fqn o' @ '': '' @
     (case to_error o' of None \<Rightarrow> ''None'' | Some e \<Rightarrow> exn_text env e)"

definition batch_code :: "batch_result \<Rightarrow> int" where
  "batch_code b = (if br_status b = RunSucceeded then exit_ok else exit_failed)"

text \<open>The run identifier: the one given, or a fresh one, for which an identifier is drawn.\<close>

definition run_idA :: "'s env \<Rightarrow> string option \<Rightarrow> string \<Rightarrow> pdatetime \<Rightarrow> string act" where
  "run_idA env given_id env_name started =
     (if present given_id then retA (text_of given_id)
      else bindA (freshA env) (\<lambda>suffix. retA (make_run_id env_name started suffix)))"

definition run_tablesA ::
  "'s env \<Rightarrow> runner_options \<Rightarrow> run_spec list \<Rightarrow> string option \<Rightarrow> string \<Rightarrow> string \<Rightarrow> batch_result act" where
  "run_tablesA env opt specs given_id env_name trigger =
     bindA (get_sparkA env) (\<lambda>_.
     bindA (nowA env) (\<lambda>started.
     bindA (run_idA env given_id env_name started) (\<lambda>rid.
     bindA (build_engineA env (hd specs) rid) (\<lambda>_.
     run_batchA env opt specs rid env_name trigger None None None))))"

definition options_of_run :: "namespace \<Rightarrow> runner_options" where
  "options_of_run args =
     batch_options (arg_int args ''max_workers'') (\<not> arg_flag args ''continue_on_failure'')"

definition cmd_run :: "'s cli_env \<Rightarrow> string \<Rightarrow> namespace \<Rightarrow> int cmd" where
  "cmd_run ce root' args =
     bindC (liftC (bindE (resolve_all_specs (ci_lib ce) root' (arg args ''env'')) (\<lambda>specs.
              select_specs specs (arg_texts args ''table'') (arg_text args ''group'') (arg_text args ''domain'')))) (\<lambda>specs.
     if specs = [] then bindC (sayC [''no tables matched the selection'']) (\<lambda>_. retC exit_usage)
     else if arg_flag args ''dry_run'' then
       bindC (liftC (order_tables specs)) (\<lambda>levels.
       bindC (sayC [''dry run: '' @ str_len specs @ '' table(s) in '' @ str_len levels @ '' level(s)'']) (\<lambda>_.
       bindC (sayC (concat (map (\<lambda>(depth, level). map (dry_run_line depth) level) (numbered levels)))) (\<lambda>_.
       retC exit_ok)))
     else
       bindC (doC (run_tablesA (ci_env ce) (options_of_run args) specs
                (arg_text args ''run_id'') (arg args ''env'') (arg args ''trigger''))) (\<lambda>result.
       bindC (sayC [json_object (batch_summary result)]) (\<lambda>_.
       bindC (sayC (map (failed_line (ci_env ce)) (failed_outcomes result))) (\<lambda>_.
       retC (batch_code result)))))"

text \<open>\<open>WatermarkStore.force_set\<close> on the marks of the world.\<close>

definition force_markA ::
  "'s env \<Rightarrow> string \<Rightarrow> string \<Rightarrow> pyval \<Rightarrow> string \<Rightarrow> string option \<Rightarrow> string \<Rightarrow> pdatetime \<Rightarrow> unit act" where
  "force_markA env fqn env_name v ty column rid updated_at =
     bindA (liftA (canonicalize v ty)) (\<lambda>canonical.
     executeA env MarkCall (\<lambda>w. w\<lparr>wd_marks :=
       merge_force (wm_make_params fqn env_name column ty canonical rid updated_at) (wd_marks w)\<rparr>))"

definition rewindA :: "'s env \<Rightarrow> run_spec \<Rightarrow> string \<Rightarrow> string \<Rightarrow> string act" where
  "rewindA env spec env_name from_value =
     bindA (get_sparkA env) (\<lambda>_.
     bindA (nowA env) (\<lambda>started.
     bindA (run_idA env None env_name started) (\<lambda>rid.
     bindA (build_engineA env spec rid) (\<lambda>_.
     bindA (force_markA env (table_fqn spec) env_name (VStr from_value) (scn_or_type (incremental spec))
              (effective_watermark_column (incremental spec)) rid started) (\<lambda>_.
     bindA (emitA env WATERMARK_FORCED (Some (table_fqn spec))
              [(''value'', PV (VStr from_value)), (''reason'', PV (VStr ''backfill''))] (Some rid) True) (\<lambda>_.
     retA rid))))))"

definition cmd_backfill :: "'s cli_env \<Rightarrow> string \<Rightarrow> namespace \<Rightarrow> int cmd" where
  "cmd_backfill ce root' args =
     (let env_name = arg args ''env''; from_value = arg args ''from_value'' in
      bindC (liftC (build_run_spec (ci_lib ce) root' (arg args ''table'') env_name)) (\<lambda>spec.
      if \<not> tracks_watermark (rs_extraction spec) then
        bindC (sayC [table_fqn spec @ '' is a '' @ ex_mode (rs_extraction spec) @
          '' extract with no watermark; there is nothing to rewind. Re-run it instead.'']) (\<lambda>_. retC exit_usage)
      else if \<not> arg_flag args ''yes'' then
        bindC (sayC [''About to reset the watermark for '' @ table_fqn spec @ '' ['' @ env_name @ ''] to '' @
          quote_text from_value @ ''. Re-run with --yes to proceed.'']) (\<lambda>_. retC exit_usage)
      else
        bindC (doC (rewindA (ci_env ce) spec env_name from_value)) (\<lambda>rid.
        bindC (sayC [''watermark for '' @ table_fqn spec @ '' reset to '' @ from_value]) (\<lambda>_.
        bindC (doC (run_batchA (ci_env ce) lone_worker [spec] rid env_name ''backfill'' None None None)) (\<lambda>result.
        bindC (sayC [json_object (batch_summary result)]) (\<lambda>_.
        retC (batch_code result)))))))"

definition execute_ddlA :: "'s env \<Rightarrow> string \<Rightarrow> unit act" where
  "execute_ddlA env statement =
     executeA env ControlCall (\<lambda>w. w\<lparr>wd_ddl := wd_ddl w @ [statement]\<rparr>)"

definition cmd_init_control :: "'s cli_env \<Rightarrow> string \<Rightarrow> namespace \<Rightarrow> int cmd" where
  "cmd_init_control ce root' args =
     bindC (liftC (resolve_all_specs (ci_lib ce) root' (arg args ''env''))) (\<lambda>specs.
     if specs = [] then
       bindC (sayC [''no tables configured, so no control plane location is known'']) (\<lambda>_. retC exit_usage)
     else
       let control = rs_control (hd specs) in
       bindC (liftC (ddl_statements (cs_catalog control) (cs_schema control))) (\<lambda>statements.
       if arg_flag args ''dry_run'' then
         bindC (sayC (map (\<lambda>st. st @ '';'' @ [newline]) statements)) (\<lambda>_. retC exit_ok)
       else
         bindC (doC (bindA (get_sparkA (ci_env ce)) (\<lambda>_. eachA (execute_ddlA (ci_env ce)) statements))) (\<lambda>_.
         bindC (sayC [''control plane ready at '' @ cs_catalog control @ ''.'' @ cs_schema control]) (\<lambda>_.
         retC exit_ok))))"

section \<open>The entry point\<close>

definition cli_command :: "'s cli_env \<Rightarrow> string \<Rightarrow> string \<Rightarrow> namespace \<Rightarrow> int cmd" where
  "cli_command ce cmd =
     (if cmd = ''run'' then cmd_run ce
      else if cmd = ''validate'' then cmd_validate ce
      else if cmd = ''show-sql'' then cmd_show_sql ce
      else if cmd = ''backfill'' then cmd_backfill ce
      else if cmd = ''init-control'' then cmd_init_control ce
      else cmd_list_tables ce)"

text \<open>The exceptions \<open>main\<close> takes for mistakes of the user.\<close>

fun usage_error :: "exn \<Rightarrow> bool" where
  "usage_error (PyError (ConfigValidationError _)) = True"
| "usage_error (PyError (ConfigResolutionError _)) = True"
| "usage_error (PyError (ConfigLoadError _)) = True"
| "usage_error (PyError (DependencyError _)) = True"
| "usage_error _ = False"

definition handle_error :: "'s env \<Rightarrow> exn \<Rightarrow> int cmd" where
  "handle_error env e =
     (if usage_error e then
        bindC (sayC [''error: '' @ exn_text env e]) (\<lambda>_. retC exit_usage)
      else if catchable e then
        bindC (sayC [''error: '' @ exn_name env e @ '': '' @ exn_text env e]) (\<lambda>_. retC exit_failed)
      else (\<lambda>s. (Inl e, s)))"

definition catchC :: "'a cmd \<Rightarrow> (exn \<Rightarrow> 'a cmd) \<Rightarrow> 'a cmd" where
  "catchC m h = (\<lambda>s. case m s of (Inl e, s') \<Rightarrow> h e s' | (Inr a, s') \<Rightarrow> (Inr a, s'))"

definition cli_main :: "'s cli_env \<Rightarrow> string list \<Rightarrow> int cmd" where
  "cli_main ce argv =
     (case parse_args argv of
        Exit code \<Rightarrow> retC code
      | Parsed root' cmd ns \<Rightarrow> catchC (cli_command ce cmd root' ns) (handle_error (ci_env ce)))"

section \<open>Commands that only look\<close>

text \<open>Whatever it returns or raises, the command leaves the world as it found it.\<close>

definition looks :: "'a cmd \<Rightarrow> bool" where
  "looks m = (\<forall>out w. snd (snd (m (out, w))) = w)"

named_theorems look_rules \<open>commands that leave the world alone\<close>

lemma looks_ret [look_rules]: "looks (retC a)"
  by (simp add: looks_def retC_def)

lemma looks_lift [look_rules]: "looks (liftC r)"
  by (simp add: looks_def liftC_def)

lemma looks_say [look_rules]: "looks (sayC ls)"
  by (simp add: looks_def sayC_def)

lemma looks_bind [look_rules]:
  assumes "looks m" "\<And>a. looks (f a)"
  shows "looks (bindC m f)"
  unfolding looks_def
proof (intro allI)
  fix out w
  obtain r out' w' where m: "m (out, w) = (r, out', w')" by (cases "m (out, w)")
  then have "w' = w" using assms(1) by (metis looks_def snd_conv)
  with m show "snd (snd (bindC m f (out, w))) = w"
    using assms(2) by (cases r) (auto simp: bindC_def looks_def)
qed

lemma looks_if [look_rules]: "(b \<Longrightarrow> looks m) \<Longrightarrow> (\<not> b \<Longrightarrow> looks n) \<Longrightarrow> looks (if b then m else n)"
  by simp

lemma looks_let [look_rules]: "(\<And>a. a = x \<Longrightarrow> looks (f a)) \<Longrightarrow> looks (let a = x in f a)"
  by (simp add: Let_def)

lemma looks_option [look_rules]:
  "looks m \<Longrightarrow> (\<And>a. looks (f a)) \<Longrightarrow> looks (case x of None \<Rightarrow> m | Some a \<Rightarrow> f a)"
  by (cases x) simp_all

lemma looks_catch [look_rules]:
  assumes "looks m" "\<And>e. looks (h e)"
  shows "looks (catchC m h)"
  unfolding looks_def
proof (intro allI)
  fix out w
  obtain r out' w' where m: "m (out, w) = (r, out', w')" by (cases "m (out, w)")
  then have "w' = w" using assms(1) by (metis looks_def snd_conv)
  with m show "snd (snd (catchC m h (out, w))) = w"
    using assms(2) by (cases r) (auto simp: catchC_def looks_def)
qed

lemma looks_handle [look_rules]: "looks (handle_error env e)"
  unfolding handle_error_def by (intro look_rules) (simp add: looks_def)

lemma looks_commands:
  "looks (cmd_validate ce root' args)" "looks (cmd_show_sql ce root' args)" "looks (cmd_list_tables ce root' args)"
  "arg_flag args ''dry_run'' \<Longrightarrow> looks (cmd_run ce root' args)"
  "arg_flag args ''dry_run'' \<Longrightarrow> looks (cmd_init_control ce root' args)"
  "\<not> arg_flag args ''yes'' \<Longrightarrow> looks (cmd_backfill ce root' args)"
  unfolding cmd_validate_def cmd_show_sql_def cmd_list_tables_def cmd_run_def cmd_init_control_def cmd_backfill_def
  by (intro look_rules; simp)+

text \<open>When the command line asks for nothing but a look.\<close>

definition only_looks :: "string \<Rightarrow> namespace \<Rightarrow> bool" where
  "only_looks cmd ns =
     (cmd \<in> {''validate'', ''show-sql'', ''list-tables''} \<or>
      (cmd \<in> {''run'', ''init-control''} \<and> arg_flag ns ''dry_run'') \<or>
      (cmd = ''backfill'' \<and> \<not> arg_flag ns ''yes''))"

lemma looks_main: "parse_args argv = Parsed root' cmd ns \<Longrightarrow> only_looks cmd ns \<Longrightarrow> looks (cli_main ce argv)"
  unfolding cli_main_def only_looks_def
  by (auto simp: cli_command_def intro!: looks_catch looks_handle looks_commands)

section \<open>Reading a command backwards\<close>

lemma bindC_InrE:
  assumes "bindC m f s = (Inr b, s')"
  obtains a s1 where "m s = (Inr a, s1)" "f a s1 = (Inr b, s')"
  using assms by (auto simp: bindC_def split: prod.splits sum.splits)

lemma liftC_Inr [simp]: "liftC r s = (Inr a, s') \<longleftrightarrow> r = Inr a \<and> s' = s"
  by (auto simp: liftC_def split: sum.splits)

lemma retC_Inr [simp]: "retC a s = (Inr b, s') \<longleftrightarrow> b = a \<and> s' = s"
  by (auto simp: retC_def)

lemma sayC_Inr [simp]: "sayC ls (out, w) = (Inr u, s') \<longleftrightarrow> s' = (out @ ls, w)"
  by (auto simp: sayC_def)

lemma doC_Inr [simp]: "doC m (out, w) = (Inr a, s') \<longleftrightarrow> (\<exists>w'. m w = (Inr a, w') \<and> s' = (out, w'))"
  by (auto simp: doC_def split: prod.splits)

text \<open>Code 0 is never that of an error.\<close>

lemma catch_ok:
  assumes "catchC m (handle_error env) s = (Inr 0, s')"
  shows "m s = (Inr 0, s')"
  using assms
  by (auto simp: catchC_def handle_error_def bindC_def sayC_def retC_def exit_usage_def exit_failed_def
      split: prod.splits sum.splits if_splits)

section \<open>Rewinding a mark\<close>

text \<open>After the forced MERGE the mark of the table reads back as what was forced.\<close>

lemma wm_get_force:
  "\<exists>mark. wm_get (mp_table_fqn p) (mp_env p) (merge_force p rows) = Some mark \<and> wr_value mark = mp_value p \<and>
     wr_run_id mark = Some (mp_run_id p)"
  by (simp add: merge_force_def wm_get_find find_wm_merge from_row_def wm_insert_row_def Let_def split: option.split)

lemma wm_force_frame:
  "filter (\<lambda>r. wm_key r \<noteq> wm_target p) (merge_force p rows) = filter (\<lambda>r. wm_key r \<noteq> wm_target p) rows"
  by (rule forced.step_frame)

lemma keeps_get_spark [frames]: "book f \<Longrightarrow> keeps f (get_sparkA env)"
  unfolding get_sparkA_def by (rule keeps_execute) simp_all

lemma keeps_current_user [frames]: "book f \<Longrightarrow> keeps f (current_userA env)"
  unfolding current_userA_def by (intro frames)

lemma keeps_build_engine [frames]: "book f \<Longrightarrow> keeps f (build_engineA env spec rid)"
  unfolding build_engineA_def by (intro frames) (simp_all add: steps_def modifyA_def book_def)

lemma keeps_run_id [frames]: "book f \<Longrightarrow> keeps f (run_idA env given_id e t)"
  unfolding run_idA_def by (intro frames)

lemma keeps_force_mark [frames]:
  "book f \<Longrightarrow> (\<And>w x. f (w\<lparr>wd_marks := x\<rparr>) = f w) \<Longrightarrow> keeps f (force_markA env fqn e v ty c rid t)"
  unfolding force_markA_def by (intro frames keeps_execute) simp_all

lemma keeps_rewind [frames]:
  "book f \<Longrightarrow> (\<And>w x. f (w\<lparr>wd_marks := x\<rparr>) = f w) \<Longrightarrow> keeps f (rewindA env spec e v)"
  unfolding rewindA_def by (intro frames)

abbreviation forced_params ::
  "run_spec \<Rightarrow> string \<Rightarrow> string option \<Rightarrow> string \<Rightarrow> pdatetime \<Rightarrow> wm_params" where
  "forced_params spec e c rid t \<equiv>
     wm_make_params (table_fqn spec) e (effective_watermark_column (incremental spec))
       (scn_or_type (incremental spec)) c rid t"

lemma rewind_Inr:
  assumes "rewindA env spec e v w = (Inr rid, w')"
  shows "\<exists>c t. canonicalize (VStr v) (scn_or_type (incremental spec)) = Inr c \<and>
    wd_marks w' = merge_force (forced_params spec e c rid t) (wd_marks w)"
proof -
  from assms obtain w1 t w2 w3 w4 w5 where
    1: "get_sparkA env w = (Inr (), w1)" "nowA env w1 = (Inr t, w2)" "run_idA env None e t w2 = (Inr rid, w3)"
      "build_engineA env spec rid w3 = (Inr (), w4)" and
    2: "force_markA env (table_fqn spec) e (VStr v) (scn_or_type (incremental spec))
      (effective_watermark_column (incremental spec)) rid t w4 = (Inr (), w5)" and
    3: "emitA env WATERMARK_FORCED (Some (table_fqn spec))
      [(''value'', PV (VStr v)), (''reason'', PV (VStr ''backfill''))] (Some rid) True w5 = (Inr (), w')"
    unfolding rewindA_def by (elim bindA_InrE) auto
  have "wd_marks w4 = wd_marks w3" using 1(4) by (rule keepsD) (simp add: frames)
  also have "\<dots> = wd_marks w2" using 1(3) by (rule keepsD) (simp add: frames)
  also have "\<dots> = wd_marks w1" using 1(2) by (rule keepsD) (simp add: frames)
  also have "\<dots> = wd_marks w" using 1(1) by (rule keepsD) (simp add: frames)
  finally have marks: "wd_marks w4 = wd_marks w" .
  from 2 obtain c where c: "canonicalize (VStr v) (scn_or_type (incremental spec)) = Inr c"
    "wd_marks w5 = merge_force (forced_params spec e c rid t) (wd_marks w4)"
    unfolding force_markA_def by (elim bindA_InrE) (auto dest!: executeA_Inr)
  moreover have "wd_marks w' = wd_marks w5" using 3 by (rule keepsD) (simp add: frames)
  ultimately show ?thesis using marks by auto
qed

section \<open>What a batch returned\<close>

lemma derive_succeeded: "derive_run_status sts = RunSucceeded \<Longrightarrow> TaskFailed \<notin> set sts"
  by (auto simp: derive_run_status_def Let_def filter_empty_conv split: if_splits)

lemma derive_succeeded_iff:
  "list_all settled os \<Longrightarrow> derive_run_status (map to_status os) = RunSucceeded \<longleftrightarrow> (\<forall>o' \<in> set os. to_status o' \<noteq> TaskFailed)"
  by (auto simp: derive_run_status_def Let_def filter_empty_conv settled_def list_all_iff list_ex_iff)

lemma batch_Inr:
  assumes "run_batchA env opt specs rid e trigger tb job jr w = (Inr res, w')"
  shows "set (map to_table_fqn (br_outcomes res)) = set (map table_fqn specs)"
    "br_status res = RunSucceeded \<longleftrightarrow> failed_outcomes res = []"
proof -
  from assms obtain levels where levels: "order_tables specs = Inr levels"
    unfolding run_batchA_def by (elim bindA_InrE) simp
  from run_batch_split [OF this assms] obtain w3 bs w4 where
    lv: "levelsA env opt rid levels no_outcomes w3 = (Inr (None, bs), w4)" and
    res: "res = result_of rid e None bs" .
  have "mset (map to_table_fqn (br_outcomes res)) = mset (map table_fqn (concat levels))"
    using levels_account [OF lv] by (simp add: res result_of_def no_outcomes_def del: mset_map)
  then show "set (map to_table_fqn (br_outcomes res)) = set (map table_fqn specs)"
    using order_tables_Inr(2) [OF levels] mset_eq_setD by metis
  have "list_all settled (bs_outcomes bs)"
    using levels_settled [OF lv] by (simp add: no_outcomes_def)
  then show "br_status res = RunSucceeded \<longleftrightarrow> failed_outcomes res = []"
    using derive_succeeded_iff [of "bs_outcomes bs"]
    by (auto simp: res result_of_def failed_outcomes_def filter_empty_conv)
qed

lemma run_tables_Inr:
  "run_tablesA env opt specs given_id e trigger w = (Inr res, w') \<Longrightarrow>
   \<exists>rid w1. run_batchA env opt specs rid e trigger None None None w1 = (Inr res, w')"
  unfolding run_tablesA_def by (elim bindA_InrE) blast

text \<open>Spark answers, and the names of the control tables are sound: then an engine is built.\<close>

definition spark_up :: "'s env \<Rightarrow> bool" where
  "spark_up env = (\<forall>n. en_fault env SparkCall n = NoFault)"

lemma first_cell_error: "first_cell rows = Inl e \<Longrightarrow> is_exception e"
  by (auto simp: first_cell_def split: list.splits)

lemma build_engine_up:
  assumes "spark_up env" "is_ok (store_tables (rs_control spec))"
  shows "\<exists>w'. build_engineA env spec rid w = (Inr (), w')"
proof -
  have "\<exists>actor w1. current_userA env w = (Inr actor, w1)"
    using assms(1)
    by (cases "first_cell (en_spark env (wd_calls w) ''SELECT current_user()'')")
      (auto simp: current_userA_def spark_up_def catchA_def bindA_def queryA_def callA_def Let_def liftA_def retA_def
        raiseA_def dest: first_cell_error)
  with assms(2) show ?thesis
    by (auto simp: build_engineA_def is_ok_iff bindA_def liftA_def retA_def modifyA_def)
qed

lemma run_id_up: "\<exists>rid w'. run_idA env given_id e t w = (Inr rid, w')"
  by (cases "present given_id") (simp_all add: run_idA_def freshA_def bindA_def retA_def)

lemma run_tables_up:
  assumes "spark_up env" "control_up env" "polite_senders env" "is_ok (store_tables (rs_control (hd specs)))"
    "is_ok (order_tables specs)" "list_all (\<lambda>s. 0 \<le> ru_retries (rs_runtime s)) specs"
  shows "\<exists>res w'. run_tablesA env opt specs given_id e trigger w = (Inr res, w')"
proof -
  obtain levels where levels: "order_tables specs = Inr levels" using assms(5) by (auto simp: is_ok_iff)
  obtain w1 where 1: "get_sparkA env w = (Inr (), w1)"
    using assms(1) by (simp add: get_sparkA_def executeA_def callA_def spark_up_def)
  obtain t w2 where 2: "nowA env w1 = (Inr t, w2)" by (simp add: nowA_def)
  obtain rid w3 where 3: "run_idA env given_id e t w2 = (Inr rid, w3)"
    using run_id_up by blast
  obtain w4 where 4: "build_engineA env (hd specs) rid w3 = (Inr (), w4)"
    using build_engine_up [OF assms(1,4)] by blast
  obtain res w5 where "run_batchA env opt specs rid e trigger None None None w4 = (Inr res, w5)"
    using run_batch_up [OF levels assms(2,3,6)] by blast
  with 1 2 3 4 show ?thesis by (simp add: run_tablesA_def bindA_def)
qed

text \<open>A batch of disabled tables skips them all.\<close>

lemma disabled_retries:
  assumes "run_with_retriesA env spec rid w = (Inr o', w')" "\<not> ru_enabled (rs_runtime spec)"
  shows "to_status o' \<noteq> TaskFailed"
proof (cases "nat (ru_retries (rs_runtime spec) + 1)")
  case 0
  with assms(1) show ?thesis by (simp add: run_with_retriesA_def raiseA_def)
next
  case (Suc n)
  with assms obtain o1 w1 where "skip_taskA env spec rid 1 ''disabled by config'' w = (Inr o1, w1)"
    "(if succeeded o1 \<or> to_status o1 = TaskSkipped then retA o1
      else bindA (if n > 0 then back_offA env spec rid 1 else retA ())
        (\<lambda>_. attemptsA env spec rid (1 + 1) n (Some o1))) w1 = (Inr o', w')"
    by (auto simp: run_with_retriesA_def runA_def elim!: bindA_InrE)
  then show ?thesis by (auto dest: skip_task_Inr)
qed

lemma disabled_batch:
  assumes "run_batchA env opt [spec] rid e trigger tb job jr w = (Inr res, w')" "\<not> ru_enabled (rs_runtime spec)"
    "order_tables [spec] = Inr [[spec]]"
  shows "failed_outcomes res = []"
proof -
  from run_batch_split [OF assms(3,1)] obtain w3 bs w4 where
    lv: "levelsA env opt rid [[spec]] no_outcomes w3 = (Inr (None, bs), w4)" and
    res: "res = result_of rid e None bs" .
  have "partition_level (ro_skip_dependents opt) [spec] (bs_failed no_outcomes) = ([spec], [])"
    by (simp add: partition_level_def blocked_by_def no_outcomes_def)
  from levels_Cons [OF lv this] obtain bs1 w1 bs2 w2 where
    "skip_blockedA env rid [] no_outcomes w3 = (Inr (None, bs1), w1)"
    "run_levelA env opt rid [spec] bs1 w1 = (Inr (None, bs2), w2)" "levelsA env opt rid [] bs2 w2 = (Inr (None, bs), w4)"
    by auto
  then obtain o1 w5 where o1: "run_with_retriesA env spec rid w1 = (Inr o1, w5)" "bs_outcomes bs = [o1]"
    by (auto simp: run_levelA_def tryA_def no_outcomes_def bindA_def split: prod.splits sum.splits)
  from disabled_retries [OF o1(1) assms(2)] o1(2) show ?thesis
    by (simp add: failed_outcomes_def res result_of_def)
qed

section \<open>One broken table\<close>

text \<open>Every command but \<open>validate\<close>, \<open>show-sql\<close> and \<open>backfill\<close> builds all tables first.\<close>

lemma one_broken_table_stops_every_run:
  assumes "build_run_spec (ci_lib ce) root' fqn (arg ns ''env'') = Inl e"
    "fqn \<in> set (list_tables (cl_tree (ci_lib ce) root'))" "cmd \<in> {''run'', ''init-control'', ''list-tables''}"
    "parse_args argv = Parsed root' cmd ns"
  shows "fst (cli_main ce argv (out, w)) \<noteq> Inr 0"
proof
  assume "fst (cli_main ce argv (out, w)) = Inr 0"
  then obtain s' where "cli_main ce argv (out, w) = (Inr 0, s')" by (cases "cli_main ce argv (out, w)") simp
  then have "cli_command ce cmd root' ns (out, w) = (Inr 0, s')"
    using assms(4) by (auto simp: cli_main_def intro: catch_ok)
  then obtain specs where "resolve_all_specs (ci_lib ce) root' (arg ns ''env'') = Inr specs"
    using assms(3) unfolding cli_command_def cmd_run_def cmd_init_control_def cmd_list_tables_def
    by (auto elim!: bindC_InrE simp: bindE_Inr_iff)
  then have "is_ok (mapE (\<lambda>fqn. build_run_spec (ci_lib ce) root' fqn (arg ns ''env''))
      (list_tables (cl_tree (ci_lib ce) root')))"
    by (auto simp: resolve_all_specs_def bindE_Inr_iff is_ok_iff)
  with assms(1,2) show False by (fastforce simp: mapE_ok_iff)
qed

section \<open>The control plane\<close>

lemma eachA_ddl:
  "eachA (execute_ddlA env) statements w = (Inr us, w') \<Longrightarrow> wd_ddl w' = wd_ddl w @ statements"
proof (induction statements arbitrary: w us)
  case (Cons st statements)
  then obtain u w1 us' where 1: "execute_ddlA env st w = (Inr u, w1)"
    and 2: "eachA (execute_ddlA env) statements w1 = (Inr us', w')"
    by (auto elim!: bindA_InrE)
  from 1 have "wd_ddl w1 = wd_ddl w @ [st]" by (auto simp: execute_ddlA_def dest!: executeA_Inr)
  with Cons.IH [OF 2] show ?case by simp
qed simp

text \<open>\<open>init-control\<close> executes the statements of the first table's control plane, in their order.\<close>

lemma init_control_executes_every_statement:
  assumes "parse_args argv = Parsed root' ''init-control'' ns" "\<not> arg_flag ns ''dry_run''"
    "cli_main ce argv (out, w) = (Inr 0, out', w')"
  shows "\<exists>specs statements. resolve_all_specs (ci_lib ce) root' (arg ns ''env'') = Inr specs \<and> specs \<noteq> [] \<and>
    ddl_statements (cs_catalog (rs_control (hd specs))) (cs_schema (rs_control (hd specs))) = Inr statements \<and>
    wd_ddl w' = wd_ddl w @ statements"
proof -
  have "cmd_init_control ce root' ns (out, w) = (Inr 0, out', w')"
    using assms(1,3) by (auto simp: cli_main_def cli_command_def intro: catch_ok)
  with assms(2) obtain specs statements us w1 where
    "resolve_all_specs (ci_lib ce) root' (arg ns ''env'') = Inr specs" "specs \<noteq> []"
    "ddl_statements (cs_catalog (rs_control (hd specs))) (cs_schema (rs_control (hd specs))) = Inr statements" and
    run: "get_sparkA (ci_env ce) w = (Inr (), w1)" "eachA (execute_ddlA (ci_env ce)) statements w1 = (Inr us, w')"
    unfolding cmd_init_control_def
    by (auto simp: Let_def exit_usage_def exit_ok_def elim!: bindC_InrE bindA_InrE split: if_splits)
  moreover have "wd_ddl w1 = wd_ddl w"
    using run(1) by (auto simp: get_sparkA_def dest!: executeA_Inr)
  ultimately show ?thesis using eachA_ddl [OF run(2)] by auto
qed

end
