(* ===== verification/CliRun.thy ===== *)
theory CliRun
  imports Cli
begin

text \<open>
  What the commands of \<open>ingest\<close> promise: which of them touch nothing, what code 0 of \<open>run\<close> and of
  \<open>backfill\<close> means, and when \<open>run\<close> returns at all; with a configuration of one table on which
  they are evaluated.
\<close>

section \<open>What \<open>run\<close> and \<open>backfill\<close> returned\<close>

text \<open>The tables a \<open>run\<close> is asked for.\<close>

definition wanted_specs :: "config_lib \<Rightarrow> string \<Rightarrow> namespace \<Rightarrow> run_spec list res" where
  "wanted_specs lib root' ns =
     bindE (resolve_all_specs lib root' (arg ns ''env'')) (\<lambda>specs.
     select_specs specs (arg_texts ns ''table'') (arg_text ns ''group'') (arg_text ns ''domain''))"

lemma run_command_ok:
  assumes "parse_args argv = Parsed root' ''run'' ns" "\<not> arg_flag ns ''dry_run''"
    "cli_main ce argv (out, w) = (Inr 0, out', w')"
  shows "\<exists>specs rid w1 res. wanted_specs (ci_lib ce) root' ns = Inr specs \<and> specs \<noteq> [] \<and>
    run_batchA (ci_env ce) (options_of_run ns) specs rid (arg ns ''env'') (arg ns ''trigger'')
      None None None w1 = (Inr res, w') \<and>
    set (map to_table_fqn (br_outcomes res)) = set (map table_fqn specs) \<and> failed_outcomes res = []"
proof -
  have "cmd_run ce root' ns (out, w) = (Inr 0, out', w')"
    using assms(1,3) by (auto simp: cli_main_def cli_command_def intro: catch_ok)
  with assms(2) obtain specs res where specs: "wanted_specs (ci_lib ce) root' ns = Inr specs" "specs \<noteq> []" and
    run: "run_tablesA (ci_env ce) (options_of_run ns) specs (arg_text ns ''run_id'')
      (arg ns ''env'') (arg ns ''trigger'') w = (Inr res, w')" and code: "batch_code res = 0"
    unfolding cmd_run_def wanted_specs_def
    by (auto simp: exit_usage_def exit_ok_def elim!: bindC_InrE split: if_splits)
  from run_tables_Inr [OF run] obtain rid w1 where
    batch: "run_batchA (ci_env ce) (options_of_run ns) specs rid (arg ns ''env'')
      (arg ns ''trigger'') None None None w1 = (Inr res, w')" by blast
  have "br_status res = RunSucceeded" using code by (simp add: batch_code_def exit_failed_def split: if_splits)
  with specs batch batch_Inr [OF batch] show ?thesis by blast
qed

lemma run_command_up:
  assumes "parse_args argv = Parsed root' ''run'' ns" "\<not> arg_flag ns ''dry_run''"
    "wanted_specs (ci_lib ce) root' ns = Inr specs" "specs \<noteq> []" "is_ok (order_tables specs)"
    "is_ok (store_tables (rs_control (hd specs)))" "list_all (\<lambda>s. 0 \<le> ru_retries (rs_runtime s)) specs"
    "spark_up (ci_env ce)" "control_up (ci_env ce)" "polite_senders (ci_env ce)"
  shows "\<exists>rid w1 res w'.
    run_batchA (ci_env ce) (options_of_run ns) specs rid (arg ns ''env'') (arg ns ''trigger'')
      None None None w1 = (Inr res, w') \<and>
    cli_main ce argv (out, w) =
      (Inr (batch_code res),
       out @ [json_object (batch_summary res)] @ map (failed_line (ci_env ce)) (failed_outcomes res), w') \<and>
    set (map to_table_fqn (br_outcomes res)) = set (map table_fqn specs) \<and>
    batch_code res = (if failed_outcomes res = [] then exit_ok else exit_failed)"
proof -
  obtain res w' where run: "run_tablesA (ci_env ce) (options_of_run ns) specs
      (arg_text ns ''run_id'') (arg ns ''env'') (arg ns ''trigger'') w = (Inr res, w')"
    using run_tables_up [OF assms(8-10,6,5,7)] by blast
  from run_tables_Inr [OF run] obtain rid w1 where
    "run_batchA (ci_env ce) (options_of_run ns) specs rid (arg ns ''env'') (arg ns ''trigger'')
      None None None w1 = (Inr res, w')" by blast
  note ran = this and batch = batch_Inr [OF this]
  have "cmd_run ce root' ns (out, w) = (Inr (batch_code res),
      out @ [json_object (batch_summary res)] @ map (failed_line (ci_env ce)) (failed_outcomes res), w')"
    using assms(2,3,4) run
    by (simp add: cmd_run_def bindC_def liftC_def doC_def sayC_def retC_def wanted_specs_def)
  then have "cli_main ce argv (out, w) = (Inr (batch_code res),
      out @ [json_object (batch_summary res)] @ map (failed_line (ci_env ce)) (failed_outcomes res), w')"
    using assms(1) by (simp add: cli_main_def cli_command_def catchC_def)
  moreover have "batch_code res = (if failed_outcomes res = [] then exit_ok else exit_failed)"
    using batch(2) by (simp add: batch_code_def)
  ultimately show ?thesis using ran batch(1) by blast
qed

lemma backfill_command_ok:
  assumes "parse_args argv = Parsed root' ''backfill'' ns" "cli_main ce argv (out, w) = (Inr 0, out', w')"
  shows "\<exists>spec rid c w1 res mark.
    build_run_spec (ci_lib ce) root' (arg ns ''table'') (arg ns ''env'') = Inr spec \<and>
    tracks_watermark (rs_extraction spec) \<and> arg_flag ns ''yes'' \<and>
    canonicalize (VStr (arg ns ''from_value'')) (scn_or_type (incremental spec)) = Inr c \<and>
    wm_get (table_fqn spec) (arg ns ''env'') (wd_marks w1) = Some mark \<and> wr_value mark = c \<and> wr_run_id mark = Some rid \<and>
    filter (\<lambda>r. wm_key r \<noteq> (table_fqn spec, arg ns ''env'')) (wd_marks w1) =
      filter (\<lambda>r. wm_key r \<noteq> (table_fqn spec, arg ns ''env'')) (wd_marks w) \<and>
    run_batchA (ci_env ce) lone_worker [spec] rid (arg ns ''env'') ''backfill'' None None None w1 = (Inr res, w') \<and>
    failed_outcomes res = []"
proof -
  have "cmd_backfill ce root' ns (out, w) = (Inr 0, out', w')"
    using assms by (auto simp: cli_main_def cli_command_def intro: catch_ok)
  then obtain spec rid w1 res where
    spec: "build_run_spec (ci_lib ce) root' (arg ns ''table'') (arg ns ''env'') = Inr spec"
      "tracks_watermark (rs_extraction spec)" "arg_flag ns ''yes''" and
    rewind: "rewindA (ci_env ce) spec (arg ns ''env'') (arg ns ''from_value'') w = (Inr rid, w1)" and
    batch: "run_batchA (ci_env ce) lone_worker [spec] rid (arg ns ''env'') ''backfill'' None None None w1 = (Inr res, w')"
      "batch_code res = 0"
    unfolding cmd_backfill_def
    by (auto simp: Let_def exit_usage_def elim!: bindC_InrE split: if_splits)
  from rewind_Inr [OF rewind] obtain c t where
    c: "canonicalize (VStr (arg ns ''from_value'')) (scn_or_type (incremental spec)) = Inr c"
      "wd_marks w1 = merge_force (forced_params spec (arg ns ''env'') c rid t) (wd_marks w)" by blast
  let ?p = "forced_params spec (arg ns ''env'') c rid t"
  have p: "mp_table_fqn ?p = table_fqn spec" "mp_env ?p = arg ns ''env''" "mp_value ?p = c" "mp_run_id ?p = rid"
    "wm_target ?p = (table_fqn spec, arg ns ''env'')"
    by (simp_all add: wm_make_params_def wm_target_def)
  have "br_status res = RunSucceeded" using batch(2) by (simp add: batch_code_def exit_failed_def split: if_splits)
  with batch_Inr(2) [OF batch(1)] have "failed_outcomes res = []" by simp
  with spec batch c wm_get_force [of ?p "wd_marks w"] wm_force_frame [of ?p "wd_marks w"] show ?thesis
    unfolding p by metis
qed

lemma rewind_up:
  assumes "spark_up env" "control_up env" "\<And>n. en_fault env MarkCall n = NoFault"
    "is_ok (store_tables (rs_control spec))" "is_ok (canonicalize (VStr v) (scn_or_type (incremental spec)))"
  shows "\<exists>rid w'. rewindA env spec e v w = (Inr rid, w')"
proof -
  obtain w1 where 1: "get_sparkA env w = (Inr (), w1)"
    using assms(1) by (simp add: get_sparkA_def executeA_def callA_def spark_up_def)
  obtain t w2 where 2: "nowA env w1 = (Inr t, w2)" by (simp add: nowA_def)
  obtain rid w3 where 3: "run_idA env None e t w2 = (Inr rid, w3)"
    using run_id_up by blast
  obtain w4 where 4: "build_engineA env spec rid w3 = (Inr (), w4)"
    using build_engine_up [OF assms(1,4)] by blast
  obtain w5 where 5: "force_markA env (table_fqn spec) e (VStr v) (scn_or_type (incremental spec))
      (effective_watermark_column (incremental spec)) rid t w4 = (Inr (), w5)"
    using assms(3,5) by (auto simp: force_markA_def is_ok_iff bindA_def liftA_def retA_def executeA_def callA_def)
  obtain w6 where "emitA env WATERMARK_FORCED (Some (table_fqn spec))
      [(''value'', PV (VStr v)), (''reason'', PV (VStr ''backfill''))] (Some rid) True w5 = (Inr (), w6)"
    using emit_up [OF assms(2)] by blast
  with 1 2 3 4 5 show ?thesis by (simp add: rewindA_def bindA_def retA_def)
qed

section \<open>A configuration to run\<close>

definition scn_node :: "bool \<Rightarrow> ynode" where
  "scn_node enabled = YMap
     [(''table'', YMap [(''source_schema'', YScalar (VStr ''HR'')), (''source_object'', YScalar (VStr ''EMP''))]),
      (''source'', YMap [(''secret_scope'', YScalar (VStr ''scope'')),
         (''jdbc'', YMap [(''url'', YScalar (VStr ''jdbc:oracle''))])]),
      (''extraction'', YMap [(''mode'', YScalar (VStr ''incremental'')),
         (''incremental'', YMap [(''strategy'', YScalar (VStr ''scn''))])]),
      (''target'', YMap [(''catalog'', YScalar (VStr ''main'')), (''schema'', YScalar (VStr ''raw'')),
         (''write_mode'', YScalar (VStr ''append''))]),
      (''runtime'', YMap [(''enabled'', YScalar (VBool enabled))]),
      (''control'', YMap [(''catalog'', YScalar (VStr ''main'')), (''schema'', YScalar (VStr ''ops''))])]"

definition calm_cli :: "bool \<Rightarrow> unit cli_env" where
  "calm_cli enabled =
     \<lparr>ci_env = calm_env,
      ci_lib = sample_lib\<lparr>cl_tree := (\<lambda>_. sample_tree\<lparr>ct_content := (\<lambda>path.
        if path = ''c/tables/hr/emp.yaml'' then Some (Inr (Some (scn_node enabled))) else ct_content sample_tree path)\<rparr>)\<rparr>,
      ci_show_caution = (\<lambda>_. [])\<rparr>"

abbreviation run_all :: "string list" where
  "run_all \<equiv> [''--config-root'', ''c'', ''run'', ''--all'', ''--env'', ''dev'']"

abbreviation backfill_emp :: "string list" where
  "backfill_emp \<equiv> [''--config-root'', ''c'', ''backfill'', ''--table'', ''hr.emp'', ''--env'', ''dev'', ''--from'', ''7'', ''--yes'']"

definition run_values :: namespace where
  "run_values = (case parse_args run_all of Parsed _ _ ns \<Rightarrow> ns | Exit _ \<Rightarrow> [])"

lemma run_all_parsed:
  "parse_args run_all = Parsed ''c'' ''run'' run_values" "\<not> arg_flag run_values ''dry_run''"
  by code_simp+

definition emp_spec :: "bool \<Rightarrow> run_spec" where
  "emp_spec enabled = (case build_run_spec (ci_lib (calm_cli enabled)) ''c'' ''hr.emp'' ''dev'' of Inr s \<Rightarrow> s | Inl _ \<Rightarrow> scn_spec)"

lemma emp_spec_selected:
  "wanted_specs (ci_lib (calm_cli True)) ''c'' run_values = Inr [emp_spec True]"
  "wanted_specs (ci_lib (calm_cli False)) ''c'' run_values = Inr [emp_spec False]"
  by code_simp+

lemma order_single: "ti_depends_on (rs_table s) = [] \<Longrightarrow> order_tables [s] = Inr [[s]]"
  by (simp add: order_tables_def pending_deps_def by_fqn_def level_names.simps ready_tables_def Let_def)

lemma emp_spec_built:
  "case build_run_spec (ci_lib (calm_cli True)) ''c'' ''hr.emp'' ''dev'' of
     Inl _ \<Rightarrow> False
   | Inr s \<Rightarrow> ti_depends_on (rs_table s) = [] \<and> is_ok (store_tables (rs_control s)) \<and> 0 \<le> ru_retries (rs_runtime s)"
  "case build_run_spec (ci_lib (calm_cli False)) ''c'' ''hr.emp'' ''dev'' of
     Inl _ \<Rightarrow> False
   | Inr s \<Rightarrow> ti_depends_on (rs_table s) = [] \<and> is_ok (store_tables (rs_control s)) \<and> 0 \<le> ru_retries (rs_runtime s) \<and>
       \<not> ru_enabled (rs_runtime s)"
  by code_simp+

lemma emp_spec_facts:
  "ti_depends_on (rs_table (emp_spec True)) = []" "is_ok (store_tables (rs_control (emp_spec True)))"
  "0 \<le> ru_retries (rs_runtime (emp_spec True))"
  "ti_depends_on (rs_table (emp_spec False)) = []" "is_ok (store_tables (rs_control (emp_spec False)))"
  "0 \<le> ru_retries (rs_runtime (emp_spec False))" "\<not> ru_enabled (rs_runtime (emp_spec False))"
  using emp_spec_built by (simp_all add: emp_spec_def split: sum.splits)

lemma calm_cli_up [simp]:
  "ci_env (calm_cli b) = calm_env" "spark_up calm_env"
  by (simp_all add: calm_cli_def spark_up_def) (simp add: calm_env_def)

text \<open>The run of the disabled table returns code 0.\<close>

lemma disabled_run_ok: "\<exists>out' w'. cli_main (calm_cli False) run_all ([], sample_world) = (Inr 0, out', w')"
proof -
  obtain rid w1 res w' where
    batch: "run_batchA (ci_env (calm_cli False)) (options_of_run run_values) [emp_spec False] rid
      (arg run_values ''env'') (arg run_values ''trigger'') None None None w1 = (Inr res, w')" and
    main: "cli_main (calm_cli False) run_all ([], sample_world) = (Inr (batch_code res),
       [] @ [json_object (batch_summary res)] @ map (failed_line (ci_env (calm_cli False))) (failed_outcomes res), w')" and
    code: "batch_code res = (if failed_outcomes res = [] then exit_ok else exit_failed)"
    using run_command_up [OF run_all_parsed emp_spec_selected(2), of "[]" sample_world]
      order_single [OF emp_spec_facts(4)] emp_spec_facts(5,6) by auto
  from disabled_batch [OF batch emp_spec_facts(7) order_single [OF emp_spec_facts(4)]] main code show ?thesis
    by (simp add: exit_ok_def)
qed

definition backfill_values :: namespace where
  "backfill_values = (case parse_args backfill_emp of Parsed _ _ ns \<Rightarrow> ns | Exit _ \<Rightarrow> [])"

lemma backfill_emp_parsed:
  "parse_args backfill_emp = Parsed ''c'' ''backfill'' backfill_values" "arg_flag backfill_values ''yes''"
  "arg backfill_values ''env'' = ''dev''" "arg backfill_values ''table'' = ''hr.emp''"
  "arg backfill_values ''from_value'' = ''7''"
  by code_simp+

lemma emp_spec_rewinds:
  "case build_run_spec (ci_lib (calm_cli False)) ''c'' ''hr.emp'' ''dev'' of
     Inl _ \<Rightarrow> False
   | Inr s \<Rightarrow> tracks_watermark (rs_extraction s) \<and> is_ok (canonicalize (VStr ''7'') (scn_or_type (incremental s)))"
  by code_simp

text \<open>The backfill of a disabled table moves its mark, loads nothing and returns code 0.\<close>

lemma disabled_backfill_ok: "\<exists>out' w'. cli_main (calm_cli False) backfill_emp ([], sample_world) = (Inr 0, out', w')"
proof -
  let ?spec = "emp_spec False"
  have spec: "build_run_spec (ci_lib (calm_cli False)) ''c'' ''hr.emp'' ''dev'' = Inr ?spec"
    "tracks_watermark (rs_extraction ?spec)" "is_ok (canonicalize (VStr ''7'') (scn_or_type (incremental ?spec)))"
    using emp_spec_rewinds by (simp_all add: emp_spec_def split: sum.splits)
  have "\<And>n. en_fault calm_env MarkCall n = NoFault" by (simp add: calm_env_def)
  from rewind_up [OF calm_cli_up(2) calm_env_up(1) this emp_spec_facts(5) spec(3)] obtain rid w1 where
    rewind: "rewindA calm_env ?spec ''dev'' ''7'' sample_world = (Inr rid, w1)" by blast
  have order: "order_tables [?spec] = Inr [[?spec]]" by (rule order_single [OF emp_spec_facts(4)])
  from run_batch_up [OF order calm_env_up] emp_spec_facts(6) obtain res w2 where
    batch: "run_batchA calm_env lone_worker [?spec] rid ''dev'' ''backfill'' None None None w1 = (Inr res, w2)" by fastforce
  have "batch_code res = 0"
    using disabled_batch [OF batch emp_spec_facts(7) order] batch_Inr(2) [OF batch]
    by (simp add: batch_code_def exit_ok_def)
  with spec rewind batch backfill_emp_parsed show ?thesis
    by (simp add: cli_main_def cli_command_def catchC_def cmd_backfill_def Let_def bindC_def liftC_def doC_def sayC_def
        retC_def)
qed

text \<open>
  A table that is merged on a key and extracts all columns passes validation, and its SQL
  cannot be shown: the key is looked for in the columns of the projection, which are \<open>*\<close>.
\<close>

lemma show_sql_fails_for_all_columns_merge:
  "fst (cli_main \<lparr>ci_env = calm_env, ci_lib = sample_lib, ci_show_caution = (\<lambda>_. [])\<rparr>
     [''--config-root'', ''c'', ''validate'', ''--env'', ''dev''] ([], sample_world)) = Inr 0"
  "fst (cli_main \<lparr>ci_env = calm_env, ci_lib = sample_lib, ci_show_caution = (\<lambda>_. [])\<rparr>
     [''--config-root'', ''c'', ''show-sql'', ''--table'', ''hr.emp'', ''--env'', ''dev''] ([], sample_world)) = Inr 1"
  by code_simp+

section \<open>Properties\<close>

text \<open>C17: The commands that only look (validate, show-sql, list-tables, the dry runs of run and
  init-control, backfill without its confirmation), and a command line that is not parsed, leave
  the world exactly as it was: whatever they print, return or raise, no call is made to Spark,
  the source, the control store or the audit log, no clock is read and no identifier drawn.\<close>

theorem looking_touches_nothing:
  assumes "\<And>root' cmd ns. parse_args argv = Parsed root' cmd ns \<Longrightarrow> only_looks cmd ns"
  shows "snd (snd (cli_main ce argv (out, w))) = w"
proof (cases "parse_args argv")
  case (Exit code)
  then show ?thesis by (simp add: cli_main_def retC_def)
next
  case (Parsed root' cmd ns)
  with assms looks_main show ?thesis by (metis looks_def)
qed

lemma looking_touches_nothing_witness:
  "snd (snd (cli_main (calm_cli True) (run_all @ [''--dry-run'']) ([], sample_world))) = sample_world"
proof (rule looking_touches_nothing)
  have "case parse_args (run_all @ [''--dry-run'']) of Exit _ \<Rightarrow> True | Parsed _ cmd ns \<Rightarrow> only_looks cmd ns"
    by code_simp
  then show "parse_args (run_all @ [''--dry-run'']) = Parsed root' cmd ns \<Longrightarrow> only_looks cmd ns" for root' cmd ns
    by simp
qed

text \<open>C9: Code 0 of \<open>run\<close> can be trusted, whatever failed on the way: it is returned only when the
  selection was not empty, the batch of exactly the selected tables ran to its end and reported
  on every one of them, and no table failed.\<close>

theorem exit_zero_means_no_table_failed:
  assumes "parse_args argv = Parsed root' ''run'' ns" "\<not> arg_flag ns ''dry_run''"
    "cli_main ce argv (out, w) = (Inr 0, out', w')"
  shows "\<exists>specs rid w1 res. wanted_specs (ci_lib ce) root' ns = Inr specs \<and> specs \<noteq> [] \<and>
    run_batchA (ci_env ce) (options_of_run ns) specs rid (arg ns ''env'') (arg ns ''trigger'')
      None None None w1 = (Inr res, w') \<and>
    set (map to_table_fqn (br_outcomes res)) = set (map table_fqn specs) \<and> failed_outcomes res = []"
  using assms by (rule run_command_ok)

lemma exit_zero_means_no_table_failed_witness:
  "\<exists>rid w1 res w'. run_batchA calm_env (options_of_run run_values) [emp_spec False] rid
     (arg run_values ''env'') (arg run_values ''trigger'') None None None w1 = (Inr res, w') \<and> failed_outcomes res = []"
proof -
  obtain out' w' where run: "cli_main (calm_cli False) run_all ([], sample_world) = (Inr 0, out', w')"
    using disabled_run_ok by blast
  from exit_zero_means_no_table_failed [OF run_all_parsed run] emp_spec_selected(2) show ?thesis by auto
qed

text \<open>C15: A \<open>run\<close> always ends: when Spark, the control store, the audit log and the alert senders
  answer, the tables can be ordered and the names of the control tables are sound, the command
  returns, whatever the source, the secrets, the marks and the targets do; it prints the summary and then
  one line for each table that failed, and returns 0 exactly when there is none, and 1 otherwise.\<close>

theorem run_always_ends:
  assumes "parse_args argv = Parsed root' ''run'' ns" "\<not> arg_flag ns ''dry_run''"
    "wanted_specs (ci_lib ce) root' ns = Inr specs" "specs \<noteq> []" "is_ok (order_tables specs)"
    "is_ok (store_tables (rs_control (hd specs)))" "list_all (\<lambda>s. 0 \<le> ru_retries (rs_runtime s)) specs"
    "spark_up (ci_env ce)" "control_up (ci_env ce)" "polite_senders (ci_env ce)"
  shows "\<exists>rid w1 res w'.
    run_batchA (ci_env ce) (options_of_run ns) specs rid (arg ns ''env'') (arg ns ''trigger'')
      None None None w1 = (Inr res, w') \<and>
    cli_main ce argv (out, w) =
      (Inr (batch_code res),
       out @ [json_object (batch_summary res)] @ map (failed_line (ci_env ce)) (failed_outcomes res), w') \<and>
    set (map to_table_fqn (br_outcomes res)) = set (map table_fqn specs) \<and>
    batch_code res = (if failed_outcomes res = [] then exit_ok else exit_failed)"
  using assms by (rule run_command_up)

lemma run_always_ends_witness:
  "\<exists>code out' w'. cli_main (calm_cli True) run_all ([], sample_world) = (Inr code, out', w') \<and> code \<in> {0, 1}"
proof -
  obtain res out' w' where "cli_main (calm_cli True) run_all ([], sample_world) = (Inr (batch_code res), out', w')"
    using run_always_ends [OF run_all_parsed emp_spec_selected(1), of "[]" sample_world]
      order_single [OF emp_spec_facts(1)] emp_spec_facts(2,3) by auto
  then show ?thesis by (auto simp: batch_code_def exit_ok_def exit_failed_def)
qed

text \<open>C16: A \<open>backfill\<close> that returns 0 was confirmed, and did both of its halves: at the moment its batch
  began, the mark of the table read back the canonical form of the value asked for, with the
  run that set it, and no other mark had moved; and the batch of the table alone then ran from
  there with that run's identifier, and no table failed.\<close>

theorem backfill_rewinds_then_runs:
  assumes "parse_args argv = Parsed root' ''backfill'' ns" "cli_main ce argv (out, w) = (Inr 0, out', w')"
  shows "\<exists>spec rid c w1 res mark.
    build_run_spec (ci_lib ce) root' (arg ns ''table'') (arg ns ''env'') = Inr spec \<and>
    tracks_watermark (rs_extraction spec) \<and> arg_flag ns ''yes'' \<and>
    canonicalize (VStr (arg ns ''from_value'')) (scn_or_type (incremental spec)) = Inr c \<and>
    wm_get (table_fqn spec) (arg ns ''env'') (wd_marks w1) = Some mark \<and> wr_value mark = c \<and> wr_run_id mark = Some rid \<and>
    filter (\<lambda>r. wm_key r \<noteq> (table_fqn spec, arg ns ''env'')) (wd_marks w1) =
      filter (\<lambda>r. wm_key r \<noteq> (table_fqn spec, arg ns ''env'')) (wd_marks w) \<and>
    run_batchA (ci_env ce) lone_worker [spec] rid (arg ns ''env'') ''backfill'' None None None w1 = (Inr res, w') \<and>
    failed_outcomes res = []"
  using assms by (rule backfill_command_ok)

lemma backfill_rewinds_then_runs_witness:
  "\<exists>spec (w1 :: world) mark. build_run_spec (ci_lib (calm_cli False)) ''c'' ''hr.emp'' ''dev'' = Inr spec \<and>
     wm_get (table_fqn spec) ''dev'' (wd_marks w1) = Some mark \<and>
     canonicalize (VStr ''7'') (scn_or_type (incremental spec)) = Inr (wr_value mark)"
proof -
  obtain out' w' where "cli_main (calm_cli False) backfill_emp ([], sample_world) = (Inr 0, out', w')"
    using disabled_backfill_ok by blast
  from backfill_rewinds_then_runs [OF backfill_emp_parsed(1) this] show ?thesis
    unfolding backfill_emp_parsed(3-5) by blast
qed

end
