(* ===== verification/Monitoring.thy ===== *)
theory Monitoring
  imports Runner
begin

text \<open>
  The dashboard queries over the control tables (observability/monitoring.py): their text, and
  for the queries whose answer the framework promises something about, what they select from
  the rows of the tables.
\<close>

section \<open>The text of the queries\<close>

record monitoring_query =
  mq_name :: string
  mq_title :: string
  mq_description :: string
  mq_sql :: string

definition monitored_tables :: "string list" where
  "monitored_tables =
     [''ingestion_runs'', ''ingestion_tasks'', ''audit_log'', ''watermarks'', ''reconciliation'',
      ''config_registry'']"

definition qualified_tables :: "string \<Rightarrow> string \<Rightarrow> (string, string) dict res" where
  "qualified_tables catalog schema =
     mapE (\<lambda>name. bindE (qualify [catalog, schema, name]) (\<lambda>q. Inr (name, q))) monitored_tables"

definition on_tables ::
  "string \<Rightarrow> string \<Rightarrow> ((string \<Rightarrow> string) \<Rightarrow> monitoring_query) \<Rightarrow> monitoring_query res" where
  "on_tables catalog schema f =
     bindE (qualified_tables catalog schema) (\<lambda>t. Inr (f (\<lambda>name. the (dict_get t name))))"

definition quoted :: "string \<Rightarrow> string" where
  "quoted s = [quote] @ s @ [quote]"

text \<open>The declared freshness of each table, inlined into the query.\<close>

definition sla_row :: "run_spec \<Rightarrow> string" where
  "sla_row s =
     ''('' @ quoted (table_fqn s) @ '', '' @ quoted (rs_env s) @ '', '' @
     (case al_freshness_sla_hours (rs_alerting s) of
        VNone \<Rightarrow> ''CAST(NULL AS DOUBLE)'' | v \<Rightarrow> py_str v) @ '')''"

definition sla_cte :: "run_spec list \<Rightarrow> string" where
  "sla_cte specs =
     (if specs = [] then
        ''WITH sla(table_fqn, env, sla_hours) AS (SELECT NULL, NULL, CAST(NULL AS DOUBLE) WHERE 1 = 0)''
      else
        ''WITH sla(table_fqn, env, sla_hours) AS (VALUES'' @ [newline] @ ''  '' @
        join ('','' @ [newline] @ ''  '') (map sla_row specs) @ [newline] @ '')'')"

definition run_success_rate :: "string \<Rightarrow> string \<Rightarrow> int \<Rightarrow> monitoring_query res" where
  "run_success_rate catalog schema days =
     on_tables catalog schema (\<lambda>tb.
       \<lparr>mq_name = ''run_success_rate'',
        mq_title = ''Run outcomes, last '' @ str_int days @ '' days'',
        mq_description =
          ''Daily run counts by status. A rising PARTIAL count means one table is sick; a '' @
          ''rising FAILED count means the source or cluster is.'',
        mq_sql = join [newline]
          [''SELECT'',
           ''  DATE(started_at)                                   AS run_date,'',
           ''  env,'',
           ''  status,'',
           ''  COUNT(*)                                           AS runs,'',
           ''  ROUND(AVG(duration_ms) / 1000.0, 1)                AS avg_seconds'',
           ''FROM '' @ tb ''ingestion_runs'',
           ''WHERE started_at >= CURRENT_TIMESTAMP() - INTERVAL '' @ str_int days @ '' DAYS'',
           ''GROUP BY DATE(started_at), env, status'',
           ''ORDER BY run_date DESC, env, status'']\<rparr>)"

definition table_health :: "string \<Rightarrow> string \<Rightarrow> int \<Rightarrow> monitoring_query res" where
  "table_health catalog schema days =
     on_tables catalog schema (\<lambda>tb.
       \<lparr>mq_name = ''table_health'',
        mq_title = ''Per-table outcomes, last '' @ str_int days @ '' days'',
        mq_description =
          ''Success rate and failure count per table, using only the final attempt of each '' @
          ''task so retries do not inflate the counts.'',
        mq_sql = join [newline]
          [''WITH final_attempts AS ('',
           ''  SELECT t.*'',
           ''  FROM '' @ tb ''ingestion_tasks'' @ '' t'',
           ''  JOIN ('',
           ''    SELECT run_id, table_fqn, MAX(attempt) AS attempt'',
           ''    FROM '' @ tb ''ingestion_tasks'',
           ''    WHERE started_at >= CURRENT_TIMESTAMP() - INTERVAL '' @ str_int days @ '' DAYS'',
           ''    GROUP BY run_id, table_fqn'',
           ''  ) latest'',
           ''    ON t.run_id = latest.run_id'',
           ''   AND t.table_fqn = latest.table_fqn'',
           ''   AND t.attempt = latest.attempt'',
           '')'',
           ''SELECT'',
           ''  table_fqn,'',
           ''  env,'',
           ''  COUNT(*)                                                        AS runs,'',
           ''  SUM(CASE WHEN status = '' @ quoted ''SUCCEEDED'' @ '' THEN 1 ELSE 0 END)           AS succeeded,'',
           ''  SUM(CASE WHEN status = '' @ quoted ''FAILED'' @ '' THEN 1 ELSE 0 END)              AS failed,'',
           ''  ROUND(100.0 * SUM(CASE WHEN status = '' @ quoted ''SUCCEEDED'' @ '' THEN 1 ELSE 0 END) / COUNT(*), 1)'',
           ''                                                                  AS success_pct,'',
           ''  MAX(attempt)                                                    AS max_attempts,'',
           ''  ROUND(AVG(duration_ms) / 1000.0, 1)                             AS avg_seconds'',
           ''FROM final_attempts'',
           ''GROUP BY table_fqn, env'',
           ''ORDER BY failed DESC, success_pct ASC, table_fqn'']\<rparr>)"

definition freshness :: "string \<Rightarrow> string \<Rightarrow> run_spec list \<Rightarrow> monitoring_query res" where
  "freshness catalog schema specs =
     on_tables catalog schema (\<lambda>tb.
       \<lparr>mq_name = ''freshness'',
        mq_title = ''Table freshness vs SLA'',
        mq_description =
          ''Hours since each watermark last advanced, compared with the declared freshness '' @
          ''SLA. Breaches sort to the top.'',
        mq_sql = join [newline]
          [sla_cte specs,
           ''SELECT'',
           ''  w.table_fqn,'',
           ''  w.env,'',
           ''  w.watermark_value,'',
           ''  w.updated_at                                                   AS watermark_updated_at,'',
           ''  ROUND((UNIX_TIMESTAMP(CURRENT_TIMESTAMP()) - UNIX_TIMESTAMP(w.updated_at)) / 3600.0, 2)'',
           ''                                                                 AS hours_since_advance,'',
           ''  s.sla_hours,'',
           ''  CASE'',
           ''    WHEN s.sla_hours IS NULL THEN NULL'',
           ''    WHEN (UNIX_TIMESTAMP(CURRENT_TIMESTAMP()) - UNIX_TIMESTAMP(w.updated_at)) / 3600.0 > s.sla_hours'',
           ''      THEN TRUE'',
           ''    ELSE FALSE'',
           ''  END                                                            AS sla_breached'',
           ''FROM '' @ tb ''watermarks'' @ '' w'',
           ''LEFT JOIN sla s'',
           ''  ON s.table_fqn = w.table_fqn AND s.env = w.env'',
           ''ORDER BY sla_breached DESC NULLS LAST, hours_since_advance DESC'']\<rparr>)"

definition volume_trend :: "string \<Rightarrow> string \<Rightarrow> int \<Rightarrow> monitoring_query res" where
  "volume_trend catalog schema days =
     on_tables catalog schema (\<lambda>tb.
       \<lparr>mq_name = ''volume_trend'',
        mq_title = ''Row volume by table, last '' @ str_int days @ '' days'',
        mq_description =
          ''Daily rows written per table, with the deviation from that table's own median. A '' @
          ''table that suddenly writes 10x or 0 rows is worth looking at even when the run '' @
          ''reported success.'',
        mq_sql = join [newline]
          [''WITH daily AS ('',
           ''  SELECT'',
           ''    table_fqn,'',
           ''    env,'',
           ''    DATE(started_at)        AS load_date,'',
           ''    SUM(rows_written)       AS rows_written,'',
           ''    SUM(source_count)       AS source_count'',
           ''  FROM '' @ tb ''ingestion_tasks'',
           ''  WHERE status = '' @ quoted ''SUCCEEDED'',
           ''    AND started_at >= CURRENT_TIMESTAMP() - INTERVAL '' @ str_int days @ '' DAYS'',
           ''  GROUP BY table_fqn, env, DATE(started_at)'',
           ''),'',
           ''baseline AS ('',
           ''  SELECT table_fqn, env, PERCENTILE(rows_written, 0.5) AS median_rows'',
           ''  FROM daily'',
           ''  GROUP BY table_fqn, env'',
           '')'',
           ''SELECT'',
           ''  d.table_fqn,'',
           ''  d.env,'',
           ''  d.load_date,'',
           ''  d.rows_written,'',
           ''  d.source_count,'',
           ''  ROUND(b.median_rows, 0)                                        AS median_rows,'',
           ''  CASE'',
           ''    WHEN b.median_rows IS NULL OR b.median_rows = 0 THEN NULL'',
           ''    ELSE ROUND(100.0 * (d.rows_written - b.median_rows) / b.median_rows, 1)'',
           ''  END                                                            AS pct_vs_median'',
           ''FROM daily d'',
           ''LEFT JOIN baseline b ON b.table_fqn = d.table_fqn AND b.env = d.env'',
           ''ORDER BY d.load_date DESC, d.table_fqn'']\<rparr>)"

definition recent_failures :: "string \<Rightarrow> string \<Rightarrow> int \<Rightarrow> monitoring_query res" where
  "recent_failures catalog schema limit =
     on_tables catalog schema (\<lambda>tb.
       \<lparr>mq_name = ''recent_failures'',
        mq_title = ''Recent failures'',
        mq_description =
          ''The most recent failed attempts with their error, for triage.'',
        mq_sql = join [newline]
          [''SELECT'',
           ''  started_at,'',
           ''  env,'',
           ''  table_fqn,'',
           ''  run_id,'',
           ''  attempt,'',
           ''  extraction_mode,'',
           ''  error_type,'',
           ''  SUBSTRING(error_message, 1, 500)                               AS error_message,'',
           ''  watermark_from'',
           ''FROM '' @ tb ''ingestion_tasks'',
           ''WHERE status = '' @ quoted ''FAILED'',
           ''ORDER BY started_at DESC'',
           ''LIMIT '' @ str_int limit]\<rparr>)"

definition reconciliation_issues :: "string \<Rightarrow> string \<Rightarrow> int \<Rightarrow> monitoring_query res" where
  "reconciliation_issues catalog schema days =
     on_tables catalog schema (\<lambda>tb.
       \<lparr>mq_name = ''reconciliation_issues'',
        mq_title = ''Reconciliation and quality failures, last '' @ str_int days @ '' days'',
        mq_description =
          ''Checks that failed or warned. WARNED rows did not stop the load, so they are the '' @
          ''ones most likely to go unnoticed.'',
        mq_sql = join [newline]
          [''SELECT'',
           ''  checked_at,'',
           ''  env,'',
           ''  table_fqn,'',
           ''  run_id,'',
           ''  check_type,'',
           ''  check_name,'',
           ''  status,'',
           ''  source_count,'',
           ''  target_count,'',
           ''  delta,'',
           ''  details'',
           ''FROM '' @ tb ''reconciliation'',
           ''WHERE status IN ('' @ quoted ''FAILED'' @ '', '' @ quoted ''WARNED'' @ '')'',
           ''  AND checked_at >= CURRENT_TIMESTAMP() - INTERVAL '' @ str_int days @ '' DAYS'',
           ''ORDER BY checked_at DESC'']\<rparr>)"

definition stuck_runs :: "string \<Rightarrow> string \<Rightarrow> int \<Rightarrow> monitoring_query res" where
  "stuck_runs catalog schema hours =
     on_tables catalog schema (\<lambda>tb.
       \<lparr>mq_name = ''stuck_runs'',
        mq_title = ''Runs still RUNNING after '' @ str_int hours @ ''h'',
        mq_description =
          ''A run left open long past its timeout usually means the driver died before it '' @
          ''could close its own row -- the data may be fine, but the control plane no longer '' @
          ''reflects reality.'',
        mq_sql = join [newline]
          [''SELECT'',
           ''  run_id,'',
           ''  env,'',
           ''  trigger,'',
           ''  started_at,'',
           ''  ROUND((UNIX_TIMESTAMP(CURRENT_TIMESTAMP()) - UNIX_TIMESTAMP(started_at)) / 3600.0, 2)'',
           ''                                                                 AS hours_open,'',
           ''  table_count'',
           ''FROM '' @ tb ''ingestion_runs'',
           ''WHERE status = '' @ quoted ''RUNNING'',
           ''  AND started_at < CURRENT_TIMESTAMP() - INTERVAL '' @ str_int hours @ '' HOURS'',
           ''ORDER BY started_at'']\<rparr>)"

definition config_changes :: "string \<Rightarrow> string \<Rightarrow> int \<Rightarrow> monitoring_query res" where
  "config_changes catalog schema days =
     on_tables catalog schema (\<lambda>tb.
       \<lparr>mq_name = ''config_changes'',
        mq_title = ''Config changes, last '' @ str_int days @ '' days'',
        mq_description =
          ''When a table's effective config last changed. Pairs with the volume trend: a '' @
          ''shift in row counts on the day a config hash changed is rarely a coincidence.'',
        mq_sql = join [newline]
          [''SELECT'',
           ''  table_fqn,'',
           ''  env,'',
           ''  config_hash,'',
           ''  first_seen_at,'',
           ''  last_seen_at,'',
           ''  last_run_id,'',
           ''  config_sources'',
           ''FROM '' @ tb ''config_registry'',
           ''WHERE first_seen_at >= CURRENT_TIMESTAMP() - INTERVAL '' @ str_int days @ '' DAYS'',
           ''ORDER BY first_seen_at DESC, table_fqn'']\<rparr>)"

definition watermark_stalls :: "string \<Rightarrow> string \<Rightarrow> int \<Rightarrow> monitoring_query res" where
  "watermark_stalls catalog schema runs =
     on_tables catalog schema (\<lambda>tb.
       \<lparr>mq_name = ''watermark_stalls'',
        mq_title = ''Tables whose watermark held for the last '' @ str_int runs @ '' runs'',
        mq_description =
          ''Successful runs that moved no watermark. Legitimate when a source is genuinely '' @
          ''quiet, and the first symptom of a filter or predicate that silently matches '' @
          ''nothing.'',
        mq_sql = join [newline]
          [''WITH recent AS ('',
           ''  SELECT'',
           ''    table_fqn,'',
           ''    env,'',
           ''    run_id,'',
           ''    started_at,'',
           ''    watermark_to,'',
           ''    ROW_NUMBER() OVER (PARTITION BY table_fqn, env ORDER BY started_at DESC) AS rn'',
           ''  FROM '' @ tb ''ingestion_tasks'',
           ''  WHERE status = '' @ quoted ''SUCCEEDED'',
           '')'',
           ''SELECT'',
           ''  table_fqn,'',
           ''  env,'',
           ''  COUNT(*)                                                       AS successful_runs,'',
           ''  SUM(CASE WHEN watermark_to IS NULL THEN 1 ELSE 0 END)          AS runs_with_no_new_data,'',
           ''  MAX(started_at)                                                AS last_run_at'',
           ''FROM recent'',
           ''WHERE rn <= '' @ str_int runs,
           ''GROUP BY table_fqn, env'',
           ''HAVING SUM(CASE WHEN watermark_to IS NULL THEN 1 ELSE 0 END) = COUNT(*)'',
           ''   AND COUNT(*) = '' @ str_int runs,
           ''ORDER BY last_run_at'']\<rparr>)"

definition all_queries :: "string \<Rightarrow> string \<Rightarrow> run_spec list \<Rightarrow> monitoring_query list res" where
  "all_queries catalog schema specs =
     mapE (\<lambda>q. q)
       [run_success_rate catalog schema 7, table_health catalog schema 7,
        freshness catalog schema specs, recent_failures catalog schema 50,
        reconciliation_issues catalog schema 7, volume_trend catalog schema 30,
        watermark_stalls catalog schema 5, stuck_runs catalog schema 6,
        config_changes catalog schema 30]"

section \<open>What the queries select\<close>

text \<open>
  The rows a query answers with, in no particular order; \<open>cutoff\<close> is the time its \<open>INTERVAL\<close>
  leads back to.
\<close>

definition recent_tasks :: "pdatetime \<Rightarrow> task_row list \<Rightarrow> task_row list" where
  "recent_tasks cutoff tasks = filter (\<lambda>t. cutoff \<le> task_started_at t) tasks"

definition final_attempts :: "pdatetime \<Rightarrow> task_row list \<Rightarrow> task_row list" where
  "final_attempts cutoff tasks =
     filter (\<lambda>t. max_attempt (task_run_id t) (task_table_fqn t) (recent_tasks cutoff tasks) =
                 Some (task_attempt t)) tasks"

definition table_and_env :: "task_row \<Rightarrow> string \<times> string" where
  "table_and_env t = (task_table_fqn t, task_env t)"

definition with_status :: "task_status \<Rightarrow> task_row list \<Rightarrow> task_row list" where
  "with_status st tasks = filter (\<lambda>t. task_status t = task_status_value st) tasks"

record health_row =
  hr_table :: "string \<times> string"
  hr_runs :: nat
  hr_succeeded :: nat
  hr_failed :: nat

definition table_health_rows :: "pdatetime \<Rightarrow> task_row list \<Rightarrow> health_row list" where
  "table_health_rows cutoff tasks =
     (let final = final_attempts cutoff tasks in
      map (\<lambda>key. let rows = filter (\<lambda>t. table_and_env t = key) final in
             \<lparr>hr_table = key, hr_runs = length rows, hr_succeeded = length (with_status TaskSucceeded rows),
              hr_failed = length (with_status TaskFailed rows)\<rparr>)
        (remdups (map table_and_env final)))"

text \<open>The last successes of a table, newest first; which of two of the same time comes first is
  left open by the query and fixed here.\<close>

definition last_successes :: "nat \<Rightarrow> task_row list \<Rightarrow> string \<times> string \<Rightarrow> task_row list" where
  "last_successes n tasks key =
     take n (rev (sort_key task_started_at
       (filter (\<lambda>t. table_and_env t = key) (with_status TaskSucceeded tasks))))"

definition unmarked_row :: "task_row \<Rightarrow> bool" where
  "unmarked_row t = (tm_watermark_to (task_metrics t) = None)"

definition stalled_tables :: "nat \<Rightarrow> task_row list \<Rightarrow> (string \<times> string) list" where
  "stalled_tables n tasks =
     filter (\<lambda>key. length (last_successes n tasks key) = n \<and> list_all unmarked_row (last_successes n tasks key))
       (remdups (map table_and_env (with_status TaskSucceeded tasks)))"

definition stuck_run_rows :: "pdatetime \<Rightarrow> run_row list \<Rightarrow> run_row list" where
  "stuck_run_rows cutoff runs =
     filter (\<lambda>r. run_status r = run_status_value RunRunning \<and> run_started_at r < cutoff) runs"

text \<open>Every mark with the SLA of its table, if one is declared, and whether it is breached.\<close>

definition hours_since :: "pdatetime \<Rightarrow> pdatetime \<Rightarrow> rat" where
  "hours_since now updated = of_int (datetime_us now div 1000000 - datetime_us updated div 1000000) / 3600"

definition sla_breached :: "pdatetime \<Rightarrow> pdatetime option \<Rightarrow> pyval \<Rightarrow> bool option" where
  "sla_breached now updated sla =
     map_option (\<lambda>h. case updated of None \<Rightarrow> False | Some t \<Rightarrow> h < hours_since now t) (num_value sla)"

definition freshness_rows ::
  "pdatetime \<Rightarrow> run_spec list \<Rightarrow> wm_row list \<Rightarrow> (string \<times> string \<times> bool option) list" where
  "freshness_rows now specs marks =
     concat (map (\<lambda>w.
       let declared = filter (\<lambda>s. table_fqn s = wm_table_fqn w \<and> rs_env s = wm_env w) specs in
       if declared = [] then [(wm_table_fqn w, wm_env w, None)]
       else map (\<lambda>s. (wm_table_fqn w, wm_env w,
              sla_breached now (wm_updated_at w) (al_freshness_sla_hours (rs_alerting s)))) declared) marks)"

section \<open>Which dashboards can be built\<close>

lemma qualify_pair_ok:
  "is_ok (qualify [a, b, c]) \<longleftrightarrow>
   a \<noteq> [] \<and> b \<noteq> [] \<and> c \<noteq> [] \<and> valid_identifier a \<and> valid_identifier b \<and> valid_identifier c"
  by (simp add: qualify_def)

lemma monitored_names_valid: "list_all (\<lambda>n. n \<noteq> [] \<and> valid_identifier n) monitored_tables"
  by code_simp

lemma qualified_tables_ok:
  "is_ok (qualified_tables catalog schema) \<longleftrightarrow>
   catalog \<noteq> [] \<and> schema \<noteq> [] \<and> valid_identifier catalog \<and> valid_identifier schema"
proof -
  have "''watermarks'' \<in> set monitored_tables" by (simp add: monitored_tables_def)
  then show ?thesis
    using monitored_names_valid unfolding qualified_tables_def mapE_ok_iff list_all_iff
    by (fastforce simp: bindE_ok_total qualify_pair_ok)
qed

lemma on_tables_ok: "is_ok (on_tables catalog schema f) = is_ok (qualified_tables catalog schema)"
  by (simp add: on_tables_def bindE_ok_total)

lemmas query_defs = run_success_rate_def table_health_def freshness_def recent_failures_def
  reconciliation_issues_def volume_trend_def watermark_stalls_def stuck_runs_def config_changes_def

lemma on_tables_name:
  "on_tables catalog schema f = Inr q \<Longrightarrow> (\<And>tb. mq_name (f tb) = n) \<Longrightarrow> mq_name q = n"
  by (auto simp: on_tables_def bindE_Inr_iff)

section \<open>Final attempts\<close>

lemma max_attempt_mem:
  "max_attempt rid fqn tasks = Some a \<Longrightarrow>
   \<exists>t \<in> set tasks. task_run_id t = rid \<and> task_table_fqn t = fqn \<and> task_attempt t = a"
proof -
  assume "max_attempt rid fqn tasks = Some a"
  then have "attempts rid fqn tasks \<noteq> []" "a = Max (set (attempts rid fqn tasks))"
    by (simp_all add: max_attempt_eq split: if_splits)
  then have "a \<in> set (attempts rid fqn tasks)" by (metis List.finite_set Max_in set_empty)
  then show ?thesis by (auto simp: attempts_def same_task_def)
qed

lemma max_attempt_some:
  "t \<in> set tasks \<Longrightarrow> \<exists>a. max_attempt (task_run_id t) (task_table_fqn t) tasks = Some a"
  by (auto simp: max_attempt_eq attempts_def same_task_def filter_empty_conv)

abbreviation run_and_table :: "task_row \<Rightarrow> string \<times> string" where
  "run_and_table t \<equiv> (task_run_id t, task_table_fqn t)"

lemma final_attempts_of:
  assumes "distinct (map task_key tasks)"
  shows "distinct (map run_and_table (final_attempts cutoff tasks))"
    "set (map run_and_table (final_attempts cutoff tasks)) = set (map run_and_table (recent_tasks cutoff tasks))"
proof -
  have d: "distinct tasks" "inj_on task_key (set tasks)" using assms by (simp_all add: distinct_map)
  have "inj_on run_and_table (set (final_attempts cutoff tasks))"
  proof (rule inj_onI)
    fix t u assume tu: "t \<in> set (final_attempts cutoff tasks)" "u \<in> set (final_attempts cutoff tasks)"
      "run_and_table t = run_and_table u"
    then have "task_key t = task_key u" by (simp add: final_attempts_def task_key_def)
    with d(2) tu(1,2) show "t = u" by (simp add: final_attempts_def inj_on_def)
  qed
  with d(1) show "distinct (map run_and_table (final_attempts cutoff tasks))"
    by (simp add: distinct_map final_attempts_def)
  have "run_and_table t \<in> set (map run_and_table (final_attempts cutoff tasks))"
    if t: "t \<in> set (recent_tasks cutoff tasks)" for t
  proof -
    from max_attempt_some [OF t] obtain a where
      a: "max_attempt (task_run_id t) (task_table_fqn t) (recent_tasks cutoff tasks) = Some a" by blast
    from max_attempt_mem [OF a] obtain u where "u \<in> set (recent_tasks cutoff tasks)"
      "task_run_id u = task_run_id t" "task_table_fqn u = task_table_fqn t" "task_attempt u = a" by blast
    with a have "u \<in> set (final_attempts cutoff tasks)" "run_and_table u = run_and_table t"
      by (simp_all add: final_attempts_def recent_tasks_def)
    then show ?thesis unfolding set_map by (intro rev_image_eqI [of u]) simp_all
  qed
  moreover have "run_and_table t \<in> set (map run_and_table (recent_tasks cutoff tasks))"
    if "t \<in> set (final_attempts cutoff tasks)" for t
  proof -
    have "max_attempt (task_run_id t) (task_table_fqn t) (recent_tasks cutoff tasks) = Some (task_attempt t)"
      using that by (simp add: final_attempts_def)
    from max_attempt_mem [OF this] obtain u where "u \<in> set (recent_tasks cutoff tasks)"
      "run_and_table u = run_and_table t" by auto
    then show ?thesis unfolding set_map by (intro rev_image_eqI [of u]) simp_all
  qed
  ultimately show "set (map run_and_table (final_attempts cutoff tasks)) = set (map run_and_table (recent_tasks cutoff tasks))"
    by (simp only: set_map) blast
qed

lemma groups_add_up:
  "(\<Sum>k\<leftarrow>remdups (map f xs). length (filter (\<lambda>x. f x = k) xs)) = length xs"
proof -
  have "(\<Sum>k \<in> K. length (filter (\<lambda>x. f x = k) ys)) = length ys" if "finite K" "f ` set ys \<subseteq> K" for K ys
    using that(2)
  proof (induction ys)
    case (Cons y ys)
    have "(\<Sum>k \<in> K. length (filter (\<lambda>x. f x = k) (y # ys))) =
        (\<Sum>k \<in> K. (if f y = k then 1 else 0) + length (filter (\<lambda>x. f x = k) ys))"
      by (intro sum.cong) auto
    also have "\<dots> = 1 + length ys" using Cons that(1) by (simp add: sum.distrib)
    finally show ?case by simp
  qed simp
  then show ?thesis by (simp add: sum_list_distinct_conv_sum_set)
qed

section \<open>Marks of full extracts\<close>

text \<open>No attempt at the table has carried a mark.\<close>

definition never_marked :: "string \<Rightarrow> world \<Rightarrow> bool" where
  "never_marked fqn w = (\<forall>t \<in> set (wd_tasks w). task_table_fqn t = fqn \<longrightarrow> unmarked_row t)"

abbreviation stays_unmarked :: "string \<Rightarrow> 'a act \<Rightarrow> bool" where
  "stays_unmarked fqn m \<equiv> steps (\<lambda>w w'. never_marked fqn w \<longrightarrow> never_marked fqn w') m"

interpretation unmarked: world_order "\<lambda>w w'. never_marked fqn w \<longrightarrow> never_marked fqn w'" for fqn
  by unfold_locales simp_all

lemma unmarked_keeps: "keeps wd_tasks m \<Longrightarrow> stays_unmarked fqn m"
  by (simp add: steps_def never_marked_def)

lemma unmarked_execute:
  "(\<And>w. never_marked fqn w \<Longrightarrow> never_marked fqn (effect w)) \<Longrightarrow> stays_unmarked fqn (executeA env kind effect)"
  unfolding executeA_def by (rule unmarked.steps_call) (simp_all add: never_marked_def)

lemma unmarked_start_task: "stays_unmarked fqn (start_taskA env rid f e m wm h a st)"
  unfolding start_taskA_def
  by (intro unmarked.steps_bind unmarked.steps_ret unmarked_execute)
    (auto simp: never_marked_def insert_task_def start_task_row_def unmarked_row_def empty_metrics_def)

lemma unmarked_finish_task:
  "tm_watermark_to metrics = None \<Longrightarrow> stays_unmarked fqn (finish_taskA env ref st metrics et msg s e)"
  unfolding finish_taskA_def
  by (intro unmarked.steps_bind unmarked.steps_lift unmarked_execute)
    (auto simp: never_marked_def update_task_def finish_task_row_def unmarked_row_def)

lemma extract_untracked:
  "extractA env spec win w = (Inr e, w') \<Longrightarrow> \<not> tracks_watermark (rs_extraction spec) \<Longrightarrow> er_new_watermark e = None"
  unfolding extractA_def Let_def
  by (elim bindA_InrE)
    (auto simp: probe_max_watermarkA_def probe_upper_boundA_def wants_upper_bound_def extract_result_of_def
      needs_max_probe_def split: if_splits)

lemma prepare_untracked:
  assumes "prepareA env spec rid attempt w = (Inr (extract, load, report), w')"
    "\<not> tracks_watermark (rs_extraction spec)"
  shows "er_new_watermark extract = None"
proof -
  obtain win w1 w2 where "extract_batchA env spec rid win w1 = (Inr extract, w2)"
    using assms(1) unfolding prepareA_def Let_def by (elim bindA_InrE) auto
  then obtain w3 w4 where "extractA env spec win w3 = (Inr extract, w4)"
    unfolding extract_batchA_def by (elim bindA_InrE) auto
  then show ?thesis using assms(2) by (rule extract_untracked)
qed

lemma unmarked_close:
  "er_new_watermark extract = None \<Longrightarrow>
   stays_unmarked fqn (close_taskA env spec rid task attempt started extract load report advanced)"
  unfolding close_taskA_def
  by (intro unmarked.steps_bind unmarked.steps_ret unmarked_finish_task unmarked_keeps frames)
    (simp_all add: batch_metrics_def)

lemma unmarked_execute_task:
  assumes "\<not> tracks_watermark (rs_extraction spec)"
  shows "stays_unmarked fqn (execute_taskA env spec rid task attempt started)"
  unfolding steps_def
proof (intro allI impI)
  fix w assume "never_marked fqn w"
  obtain r w1 where 1: "prepareA env spec rid attempt w = (r, w1)" by (cases "prepareA env spec rid attempt w")
  have "wd_tasks w1 = wd_tasks w" using 1 by (rule keepsD) (simp add: frames)
  with \<open>never_marked fqn w\<close> have w1: "never_marked fqn w1" by (simp add: never_marked_def)
  show "never_marked fqn (snd (execute_taskA env spec rid task attempt started w))"
  proof (cases r)
    case (Inl e)
    with 1 w1 show ?thesis by (simp add: execute_taskA_def bindA_def)
  next
    case (Inr p)
    obtain ex load report where p: "p = (ex, load, report)" by (cases p)
    have "stays_unmarked fqn (bindA (advance_watermarkA env spec rid ex) (\<lambda>advanced.
        close_taskA env spec rid task attempt started ex load report advanced))"
      using prepare_untracked [OF 1 [unfolded Inr p] assms]
      by (intro unmarked.steps_bind unmarked_close unmarked_keeps keeps_advance_watermark) simp_all
    then show ?thesis using 1 w1 by (simp add: execute_taskA_def bindA_def [of "prepareA _ _ _ _"] Inr p steps_def)
  qed
qed

lemma unmarked_run:
  assumes "\<not> tracks_watermark (rs_extraction spec)"
  shows "stays_unmarked fqn (runA env spec rid attempt)"
proof -
  have "stays_unmarked fqn (fail_taskA env spec rid task attempt started e)" for task started e
    unfolding fail_taskA_def
    by (intro unmarked.steps_bind unmarked.steps_ret unmarked.steps_quiet unmarked_finish_task unmarked_keeps frames)
      (simp_all add: empty_metrics_def)
  then show ?thesis
    unfolding runA_def
    by (intro unmarked.steps_if unmarked.steps_bind unmarked.steps_catch unmarked_start_task
        unmarked_execute_task assms)
      (auto intro!: unmarked_keeps keeps_skip_task keeps_register_config keeps_now keeps_task_event)
qed

lemma stalled_iff:
  assumes "0 < n"
  shows "key \<in> set (stalled_tables n tasks) \<longleftrightarrow>
    length (last_successes n tasks key) = n \<and> list_all unmarked_row (last_successes n tasks key)"
proof -
  have "key \<in> set (map table_and_env (with_status TaskSucceeded tasks))" if "length (last_successes n tasks key) = n"
  proof -
    have "filter (\<lambda>t. table_and_env t = key) (with_status TaskSucceeded tasks) \<noteq> []"
      using that assms by (auto simp: last_successes_def)
    then show ?thesis by (auto simp: filter_empty_conv)
  qed
  then show ?thesis by (auto simp: stalled_tables_def)
qed

text \<open>A table without a mark, one that never loaded or has no watermark, is not in the freshness query,
  whatever SLA it declares.\<close>

lemma freshness_lists_marks_only:
  "set (map (\<lambda>(f, e, _). (f, e)) (freshness_rows now specs marks)) =
     set (map (\<lambda>w. (wm_table_fqn w, wm_env w)) marks)"
proof -
  have "(\<lambda>(f, e, _). (f, e)) ` set (let declared = filter p specs in
      if declared = [] then [(a, b, None)] else map (\<lambda>s. (a, b, g s)) declared) = {(a, b)}"
    for a b :: string and g :: "run_spec \<Rightarrow> bool option" and p
    unfolding Let_def by (cases "filter p specs") (auto simp: image_image)
  then show ?thesis by (simp add: freshness_rows_def image_UN) auto
qed

section \<open>Properties\<close>

text \<open>The dashboards can be built exactly when the catalog and the schema are identifiers, and
  then there are nine of them, in a fixed order, each of its own name.\<close>

theorem dashboards_built_iff_identifiers:
  "(is_ok (all_queries catalog schema specs) \<longleftrightarrow>
      catalog \<noteq> [] \<and> schema \<noteq> [] \<and> valid_identifier catalog \<and> valid_identifier schema) \<and>
   (\<forall>qs. all_queries catalog schema specs = Inr qs \<longrightarrow>
      map mq_name qs = [''run_success_rate'', ''table_health'', ''freshness'', ''recent_failures'',
        ''reconciliation_issues'', ''volume_trend'', ''watermark_stalls'', ''stuck_runs'', ''config_changes''])"
proof
  show "is_ok (all_queries catalog schema specs) \<longleftrightarrow>
      catalog \<noteq> [] \<and> schema \<noteq> [] \<and> valid_identifier catalog \<and> valid_identifier schema"
    unfolding qualified_tables_ok [symmetric] all_queries_def mapE_ok_iff
    by (simp add: query_defs on_tables_ok)
  show "\<forall>qs. all_queries catalog schema specs = Inr qs \<longrightarrow>
      map mq_name qs = [''run_success_rate'', ''table_health'', ''freshness'', ''recent_failures'',
        ''reconciliation_issues'', ''volume_trend'', ''watermark_stalls'', ''stuck_runs'', ''config_changes'']"
  proof (intro allI impI)
    fix qs assume "all_queries catalog schema specs = Inr qs"
    then obtain q1 q2 q3 q4 q5 q6 q7 q8 q9 where "qs = [q1, q2, q3, q4, q5, q6, q7, q8, q9]"
      "run_success_rate catalog schema 7 = Inr q1" "table_health catalog schema 7 = Inr q2"
      "freshness catalog schema specs = Inr q3" "recent_failures catalog schema 50 = Inr q4"
      "reconciliation_issues catalog schema 7 = Inr q5" "volume_trend catalog schema 30 = Inr q6"
      "watermark_stalls catalog schema 5 = Inr q7" "stuck_runs catalog schema 6 = Inr q8"
      "config_changes catalog schema 30 = Inr q9"
      unfolding all_queries_def mapE_Inr_iff list_all2_Cons1 list_all2_Nil by blast
    then show "map mq_name qs = [''run_success_rate'', ''table_health'', ''freshness'', ''recent_failures'',
        ''reconciliation_issues'', ''volume_trend'', ''watermark_stalls'', ''stuck_runs'', ''config_changes'']"
      unfolding query_defs by (simp add: on_tables_name)
  qed
qed

lemma dashboards_built_iff_identifiers_witness:
  "is_ok (all_queries ''main'' ''ops'' []) \<and> \<not> is_ok (all_queries ''main'' ''o-p'' [])"
proof -
  have "valid_identifier ''main''" "valid_identifier ''ops''" "\<not> valid_identifier ''o-p''" by code_simp+
  then show ?thesis by (simp add: dashboards_built_iff_identifiers)
qed


definition attempt_row :: "int \<Rightarrow> task_status \<Rightarrow> task_row" where
  "attempt_row n st =
     (start_task_row ''r1'' ''hr.emp'' ''dev'' ''full'' ''merge'' ''h'' n None (midnight (PDate 2026 1 1)))
       \<lparr>task_status := task_status_value st\<rparr>"


text \<open>A table without a watermark never carries a mark in its task rows, whatever happens to its
  attempts; so as soon as it has succeeded as often as the query looks back, the stalls
  dashboard lists it, with nothing wrong with it.\<close>

theorem full_extracts_look_stalled:
  assumes "\<not> tracks_watermark (rs_extraction spec)" "never_marked (table_fqn spec) w"
    "runA env spec rid attempt w = (r, w')" "0 < n"
    "n \<le> length (filter (\<lambda>t. table_and_env t = (table_fqn spec, e)) (with_status TaskSucceeded (wd_tasks w')))"
  shows "never_marked (table_fqn spec) w' \<and> (table_fqn spec, e) \<in> set (stalled_tables n (wd_tasks w'))"
proof -
  have after: "never_marked (table_fqn spec) w'"
    using unmarked_run [OF assms(1), of "table_fqn spec" env rid attempt] assms(2,3)
    unfolding steps_def by (metis snd_conv)
  let ?key = "(table_fqn spec, e)"
  have "set (last_successes n (wd_tasks w') ?key) \<subseteq> {t \<in> set (wd_tasks w'). task_table_fqn t = table_fqn spec}"
    by (auto simp: last_successes_def with_status_def table_and_env_def dest!: in_set_takeD)
  then have "list_all unmarked_row (last_successes n (wd_tasks w') ?key)"
    using after by (auto simp: list_all_iff never_marked_def)
  moreover have "length (last_successes n (wd_tasks w') ?key) = n"
    using assms(5) by (simp add: last_successes_def)
  ultimately show ?thesis using after stalled_iff [OF assms(4)] by blast
qed

definition full_spec :: run_spec where
  "full_spec = scn_spec\<lparr>rs_extraction := (rs_extraction scn_spec)\<lparr>ex_mode := ''full''\<rparr>\<rparr>"

lemma full_extracts_look_stalled_witness:
  "\<exists>r w'. runA calm_env full_spec ''r2'' 1 (sample_world\<lparr>wd_tasks := [attempt_row 1 TaskSucceeded]\<rparr>) = (r, w') \<and>
     (''hr.emp'', ''dev'') \<in> set (stalled_tables 1 (wd_tasks w'))"
proof -
  let ?w = "sample_world\<lparr>wd_tasks := [attempt_row 1 TaskSucceeded]\<rparr>"
  have spec: "\<not> tracks_watermark (rs_extraction full_spec)" "table_fqn full_spec = ''hr.emp''"
    "ru_enabled (rs_runtime full_spec)"
    by (simp_all add: full_spec_def scn_spec_def sample_spec_def tracks_watermark_def is_incremental_def
        table_fqn_def identity_fqn_def default_runtime_def)
  have "(''r2'', table_fqn full_spec, 1) \<notin> set (map task_key (wd_tasks ?w))"
    by (simp add: attempt_row_def start_task_row_def task_key_def)
  from run_up [OF calm_env_up(1) spec(3) this] obtain o' w' t where
    run: "runA calm_env full_spec ''r2'' 1 ?w = (Inr o', w')" and
    rows: "wd_tasks w' = [attempt_row 1 TaskSucceeded, t]" by auto
  have "never_marked (table_fqn full_spec) ?w"
    by (simp add: never_marked_def unmarked_row_def attempt_row_def start_task_row_def empty_metrics_def)
  moreover have "1 \<le> length (filter (\<lambda>t. table_and_env t = (table_fqn full_spec, ''dev''))
      (with_status TaskSucceeded (wd_tasks w')))"
    by (simp add: rows with_status_def table_and_env_def attempt_row_def start_task_row_def spec(2))
  ultimately show ?thesis
    using full_extracts_look_stalled [OF spec(1) _ run, of 1 "''dev''"] run spec(2) by auto
qed

end
