(* ===== verification/Tools.thy ===== *)
theory Tools
  imports Cli Monitoring
begin

text \<open>
  The two generators of tools/: the job resources and dashboard queries of an environment
  (generate_bundle.py), and the DDL of the control plane (emit_control_ddl.py).  A script acts
  on the files written and the lines printed so far, on output and on the error stream.
  Directories are created and writes succeed; a path is its directory, a slash and a name.
\<close>

section \<open>Scripts\<close>

record desk =
  dk_files :: "(string \<times> string) list"
  dk_out :: "string list"
  dk_err :: "string list"

type_synonym 'a script = "desk \<Rightarrow> 'a res \<times> desk"

definition retS :: "'a \<Rightarrow> 'a script" where
  "retS a = (\<lambda>d. (Inr a, d))"

definition bindS :: "'a script \<Rightarrow> ('a \<Rightarrow> 'b script) \<Rightarrow> 'b script" where
  "bindS m f = (\<lambda>d. case m d of (Inl e, d') \<Rightarrow> (Inl e, d') | (Inr a, d') \<Rightarrow> f a d')"

definition liftS :: "'a res \<Rightarrow> 'a script" where
  "liftS r = (\<lambda>d. (r, d))"

definition printS :: "string list \<Rightarrow> unit script" where
  "printS ls = (\<lambda>d. (Inr (), d\<lparr>dk_out := dk_out d @ ls\<rparr>))"

definition warnS :: "string list \<Rightarrow> unit script" where
  "warnS ls = (\<lambda>d. (Inr (), d\<lparr>dk_err := dk_err d @ ls\<rparr>))"

definition writeS :: "(string \<times> string) list \<Rightarrow> unit script" where
  "writeS fs = (\<lambda>d. (Inr (), d\<lparr>dk_files := dk_files d @ fs\<rparr>))"

definition lines_of :: "string list \<Rightarrow> string" where
  "lines_of ls = concat (map (\<lambda>l. l @ [newline]) ls)"

definition in_dir :: "string \<Rightarrow> string \<Rightarrow> string" where
  "in_dir dir name = dir @ ''/'' @ name"

section \<open>generate_bundle\<close>

definition bundle_tool_options :: "cli_option list" where
  "bundle_tool_options =
     [cli_opt ''--config-root'' ''config_root'' StoreText False (AText ''config''), env_option,
      cli_opt ''--resources-dir'' ''resources_dir'' StoreText False (AText ''resources''),
      cli_opt ''--sql-dir'' ''sql_dir'' StoreText False (AText ''sql/monitoring''),
      cli_opt ''--job-cluster-key'' ''job_cluster_key'' StoreText False (AText ''ingest_cluster'')]"

definition bundle_header :: "string \<Rightarrow> string" where
  "bundle_header env =
     lines_of [''# GENERATED FILE -- do not edit.'',
       ''# Source: config/ (tables, environments) via tools/generate_bundle.py'',
       ''# Regenerate: python tools/generate_bundle.py --env '' @ env, []]"

definition job_count :: "cfg \<Rightarrow> nat" where
  "job_count resources =
     (case resources of
        CMap [(_, CMap [(_, CMap jobs)])] \<Rightarrow> length jobs
      | _ \<Rightarrow> 0)"

definition crossing_warning :: "string \<times> string \<times> string \<times> string \<Rightarrow> string" where
  "crossing_warning = (\<lambda>(table, grp, dep, dep_group).
     ''  WARNING: '' @ table @ '' (group '' @ grp @ '') depends on '' @ dep @ '' (group '' @ dep_group @
     ''); separate jobs cannot express that ordering -- move them into one group'')"

definition query_file_text :: "monitoring_query \<Rightarrow> string" where
  "query_file_text q =
     lines_of [''-- '' @ mq_title q, ''-- '' @ mq_description q,
       ''-- GENERATED from src/ingestion_framework/observability/monitoring.py'', [], mq_sql q @ '';'']"

definition write_query :: "string \<Rightarrow> monitoring_query \<Rightarrow> unit script" where
  "write_query dir q =
     (let path = in_dir dir (mq_name q @ ''.sql'') in
      bindS (writeS [(path, query_file_text q)]) (\<lambda>_. printS [''wrote '' @ path]))"

fun eachS :: "('a \<Rightarrow> unit script) \<Rightarrow> 'a list \<Rightarrow> unit script" where
  "eachS f [] = retS ()"
| "eachS f (x # xs) = bindS (f x) (\<lambda>_. eachS f xs)"

text \<open>\<open>yaml.safe_dump\<close> is a parameter.\<close>

definition generate_bundle :: "(cfg \<Rightarrow> string) \<Rightarrow> config_lib \<Rightarrow> namespace \<Rightarrow> int script" where
  "generate_bundle dump lib args =
     bindS (liftS (resolve_all_specs lib (arg args ''config_root'') (arg args ''env''))) (\<lambda>specs.
     if specs = [] then bindS (warnS [''no tables configured'']) (\<lambda>_. retS 1)
     else
       bindS (liftS (build_resources specs (arg args ''env'')
                (Some (default_options\<lparr>bo_job_cluster_key := arg args ''job_cluster_key''\<rparr>)))) (\<lambda>resources.
       let jobs_path = in_dir (arg args ''resources_dir'') (''jobs_'' @ arg args ''env'' @ ''.yml'') in
       bindS (writeS [(jobs_path, bundle_header (arg args ''env'') @ dump resources)]) (\<lambda>_.
       bindS (printS [''wrote '' @ jobs_path @ '' ('' @ str_nat (job_count resources) @ '' job(s), '' @
                str_len specs @ '' table(s))'']) (\<lambda>_.
       bindS (warnS (map crossing_warning (cross_group_dependency_report specs))) (\<lambda>_.
       let control = rs_control (hd specs) in
       bindS (liftS (all_queries (cs_catalog control) (cs_schema control) specs)) (\<lambda>queries.
       bindS (eachS (write_query (arg args ''sql_dir'')) queries) (\<lambda>_.
       retS 0)))))))"

definition bundle_tool :: "(cfg \<Rightarrow> string) \<Rightarrow> config_lib \<Rightarrow> string list \<Rightarrow> int script" where
  "bundle_tool dump lib argv =
     (case parse_command bundle_tool_options argv of
        Inl code \<Rightarrow> retS code
      | Inr args \<Rightarrow> generate_bundle dump lib args)"

section \<open>emit_control_ddl\<close>

definition ddl_tool_options :: "cli_option list" where
  "ddl_tool_options =
     [cli_opt ''--catalog'' ''catalog'' StoreText False (AText ''${catalog}''),
      cli_opt ''--schema'' ''schema'' StoreText False (AText ''control''),
      cli_opt ''--out'' ''out'' StoreText False (AText ''sql/control'')]"

definition ddl_header :: "string \<Rightarrow> string \<Rightarrow> string" where
  "ddl_header catalog schema =
     lines_of [''-- GENERATED FILE -- do not edit.'', ''-- Source: src/ingestion_framework/control/schema.py'',
       ''-- Regenerate: python tools/emit_control_ddl.py --catalog '' @ catalog @ '' --schema '' @ schema, []]"

definition stand_in :: string where
  "stand_in = ''CATALOG_PLACEHOLDER''"

text \<open>\<open>catalog.replace("_", "").isalnum()\<close>, for texts of the ASCII range.\<close>

definition plain_catalog :: "string \<Rightarrow> bool" where
  "plain_catalog catalog =
     (let t = replace_char (CHR ''_'') [] catalog in t \<noteq> [] \<and> list_all (\<lambda>c. is_alpha c \<or> is_digit c) t)"

text \<open>\<open>text.replace(old, new)\<close>: from left to right, no occurrence read twice.\<close>

function str_replace :: "string \<Rightarrow> string \<Rightarrow> string \<Rightarrow> string" where
  "str_replace old r s =
     (if s = [] then []
      else if old \<noteq> [] \<and> starts_with s old then r @ str_replace old r (drop (length old) s)
      else hd s # str_replace old r (tl s))"
  by pat_completeness auto
termination by (relation "measure (\<lambda>(_, _, s). length s)") (auto simp: length_greater_0_conv [symmetric] simp del: length_greater_0_conv)

declare str_replace.simps [simp del]

definition ddl_files :: "string \<Rightarrow> string \<Rightarrow> string \<Rightarrow> string list \<Rightarrow> (string \<times> string) list" where
  "ddl_files catalog schema dir statements =
     (let shown = (\<lambda>text. if plain_catalog catalog then text else str_replace stand_in catalog text);
          header = ddl_header catalog schema;
          tables = zip all_tables (tl statements);
          combined = (header @ hd statements @ '';'') # map (\<lambda>(_, st). shown st @ '';'') tables in
      map (\<lambda>(t, st). (in_dir dir (td_name t @ ''.sql''), header @ shown st @ '';'' @ [newline])) tables @
      [(in_dir dir ''_all.sql'', shown (join [newline, newline] combined) @ [newline])])"

definition write_ddl :: "string \<times> string \<Rightarrow> unit script" where
  "write_ddl f = bindS (writeS [f]) (\<lambda>_. printS [''wrote '' @ fst f])"

definition emit_ddl :: "namespace \<Rightarrow> int script" where
  "emit_ddl args =
     (let catalog = arg args ''catalog''; schema = arg args ''schema'' in
      bindS (liftS (ddl_statements (if plain_catalog catalog then catalog else stand_in) schema)) (\<lambda>statements.
      bindS (eachS write_ddl (ddl_files catalog schema (arg args ''out'') statements)) (\<lambda>_. retS 0)))"

definition ddl_tool :: "string list \<Rightarrow> int script" where
  "ddl_tool argv =
     (case parse_command ddl_tool_options argv of Inl code \<Rightarrow> retS code | Inr args \<Rightarrow> emit_ddl args)"

section \<open>What the scripts write\<close>

lemma eachS_writes:
  assumes "\<And>x d. f x d = (Inr (), d\<lparr>dk_files := dk_files d @ [file x], dk_out := dk_out d @ [line x]\<rparr>)"
  shows "eachS f xs d = (Inr (), d\<lparr>dk_files := dk_files d @ map file xs, dk_out := dk_out d @ map line xs\<rparr>)"
  by (induction xs arbitrary: d) (simp_all add: retS_def bindS_def assms)

lemma write_queries:
  "eachS (write_query dir) qs d = (Inr (), d\<lparr>
     dk_files := dk_files d @ map (\<lambda>q. (in_dir dir (mq_name q @ ''.sql''), query_file_text q)) qs,
     dk_out := dk_out d @ map (\<lambda>q. ''wrote '' @ in_dir dir (mq_name q @ ''.sql'')) qs\<rparr>)"
  by (rule eachS_writes) (simp add: write_query_def bindS_def writeS_def printS_def Let_def)

lemma write_ddls:
  "eachS write_ddl fs d = (Inr (), d\<lparr>dk_files := dk_files d @ fs, dk_out := dk_out d @ map (\<lambda>f. ''wrote '' @ fst f) fs\<rparr>)"
  using eachS_writes [of write_ddl "\<lambda>f. ''wrote '' @ fst f" "\<lambda>f. f" fs d]
  by (simp add: write_ddl_def bindS_def writeS_def printS_def)

lemma bindS_InrE:
  assumes "bindS m f d = (Inr b, d')"
  obtains a d1 where "m d = (Inr a, d1)" "f a d1 = (Inr b, d')"
  using assms by (auto simp: bindS_def split: prod.splits sum.splits)

text \<open>
  A run of generate_bundle that returns 0 has written the resources of every group, with a
  warning for each dependency across groups, and one file for each dashboard query, all of them
  over the control plane of the first table.
\<close>

lemma generated_bundle_files:
  assumes "generate_bundle dump lib args d = (Inr 0, d')"
  shows "\<exists>specs resources queries.
    resolve_all_specs lib (arg args ''config_root'') (arg args ''env'') = Inr specs \<and> specs \<noteq> [] \<and>
    build_resources specs (arg args ''env'')
      (Some (default_options\<lparr>bo_job_cluster_key := arg args ''job_cluster_key''\<rparr>)) = Inr resources \<and>
    all_queries (cs_catalog (rs_control (hd specs))) (cs_schema (rs_control (hd specs))) specs = Inr queries \<and>
    dk_files d' = dk_files d @
      (in_dir (arg args ''resources_dir'') (''jobs_'' @ arg args ''env'' @ ''.yml''),
       bundle_header (arg args ''env'') @ dump resources) #
      map (\<lambda>q. (in_dir (arg args ''sql_dir'') (mq_name q @ ''.sql''), query_file_text q)) queries \<and>
    dk_err d' = dk_err d @ map crossing_warning (cross_group_dependency_report specs)"
  using assms unfolding generate_bundle_def
  by (auto simp: Let_def liftS_def writeS_def printS_def warnS_def retS_def write_queries elim!: bindS_InrE
      split: if_splits)

text \<open>A dashboard that cannot be built leaves the job resources written already.\<close>

lemma failed_dashboard_leaves_jobs:
  assumes "resolve_all_specs lib (arg args ''config_root'') (arg args ''env'') = Inr specs" "specs \<noteq> []"
    "build_resources specs (arg args ''env'')
      (Some (default_options\<lparr>bo_job_cluster_key := arg args ''job_cluster_key''\<rparr>)) = Inr resources"
    "all_queries (cs_catalog (rs_control (hd specs))) (cs_schema (rs_control (hd specs))) specs = Inl e"
  shows "\<exists>d'. generate_bundle dump lib args d = (Inl e, d') \<and>
    dk_files d' = dk_files d @ [(in_dir (arg args ''resources_dir'') (''jobs_'' @ arg args ''env'' @ ''.yml''),
       bundle_header (arg args ''env'') @ dump resources)]"
  using assms by (simp add: generate_bundle_def bindS_def liftS_def writeS_def printS_def warnS_def Let_def)

text \<open>The DDL files are one per table, in the order of the schema, and one with all statements.\<close>

lemma emitted_ddl_files:
  assumes "emit_ddl args d = (Inr code, d')"
  shows "code = 0 \<and> (\<exists>statements.
    ddl_statements (if plain_catalog (arg args ''catalog'') then arg args ''catalog'' else stand_in)
      (arg args ''schema'') = Inr statements \<and>
    dk_files d' = dk_files d @ ddl_files (arg args ''catalog'') (arg args ''schema'') (arg args ''out'') statements)"
  using assms unfolding emit_ddl_def
  by (auto simp: Let_def liftS_def retS_def write_ddls elim!: bindS_InrE)

lemma ddl_file_names:
  "length statements = Suc (length all_tables) \<Longrightarrow>
   map fst (ddl_files catalog schema dir statements) =
     map (\<lambda>t. in_dir dir (td_name t @ ''.sql'')) all_tables @ [in_dir dir ''_all.sql'']"
proof -
  assume "length statements = Suc (length all_tables)"
  then have "map fst (zip all_tables (tl statements)) = all_tables" by (cases statements) simp_all
  then have "map (\<lambda>t. in_dir dir (td_name t @ ''.sql'')) (map fst (zip all_tables (tl statements))) =
      map (\<lambda>t. in_dir dir (td_name t @ ''.sql'')) all_tables" by simp
  then show ?thesis by (simp add: ddl_files_def Let_def case_prod_unfold comp_def)
qed

text \<open>Where the stand-in does not occur, nothing is replaced; a whole text of it becomes the catalog.\<close>

lemma str_replace_absent: "\<not> contains_str s old \<Longrightarrow> str_replace old r s = s"
proof (induction s)
  case Nil
  then show ?case by (simp add: str_replace.simps)
next
  case (Cons c s)
  then show ?case by (simp add: str_replace.simps [of old r "c # s"])
qed

lemma str_replace_prefix:
  "old \<noteq> [] \<Longrightarrow> str_replace old r (old @ s) = r @ str_replace old r s"
  by (simp add: str_replace.simps [of old r "old @ s"] starts_with_iff)

end
