(* ===== verification/Logging.thy ===== *)
theory Logging
  imports Json
begin

text \<open>
  Structured logging (observability/logger.py): a logger with bound context, the fields a call
  adds, the record the standard library makes of both, and the line its formatter writes.
\<close>

section \<open>Names\<close>

text \<open>The attributes of every record of the standard library, and the names a call renames.\<close>

definition standard_fields :: "string list" where
  "standard_fields =
     [''args'', ''asctime'', ''created'', ''exc_info'', ''exc_text'', ''filename'', ''funcName'', ''levelname'',
      ''levelno'', ''lineno'', ''message'', ''module'', ''msecs'', ''msg'', ''name'', ''pathname'', ''process'',
      ''processName'', ''relativeCreated'', ''stack_info'', ''taskName'', ''thread'', ''threadName'']"

definition reserved_field_names :: "string list" where
  "reserved_field_names = [''level'', ''message'', ''logger'', ''ts'', ''name'', ''args'', ''msg'']"

section \<open>Levels and handlers\<close>

datatype log_level = Debug | Info | Warning | Error

fun level_no :: "log_level \<Rightarrow> int" where
  "level_no Debug = 10"
| "level_no Info = 20"
| "level_no Warning = 30"
| "level_no Error = 40"

fun level_name :: "log_level \<Rightarrow> string" where
  "level_name Debug = ''DEBUG''"
| "level_name Info = ''INFO''"
| "level_name Warning = ''WARNING''"
| "level_name Error = ''ERROR''"

text \<open>The logger of the package: its threshold, the streams of its handlers, the lines written to each.\<close>

record logger_state =
  lg_level :: int
  lg_handlers :: "string list"
  lg_propagate :: bool
  lg_lines :: "(string \<times> string) list"

definition threshold :: "string \<Rightarrow> int" where
  "threshold level =
     (case map_of [(''DEBUG'', 10), (''INFO'', 20), (''WARNING'', 30), (''WARN'', 30), (''ERROR'', 40),
         (''CRITICAL'', 50), (''FATAL'', 50), (''NOTSET'', 0)] (str_upper level) of
        Some n \<Rightarrow> n
      | None \<Rightarrow> 20)"

definition remove_handler :: "string \<Rightarrow> string list \<Rightarrow> string list" where
  "remove_handler h hs = remove1 h hs"

definition configure_logging :: "string \<Rightarrow> string \<Rightarrow> logger_state \<Rightarrow> logger_state" where
  "configure_logging level sink lg =
     (let cleared = fold remove_handler (lg_handlers lg) (lg_handlers lg) in
      lg\<lparr>lg_level := threshold level, lg_handlers := cleared @ [sink], lg_propagate := False\<rparr>)"

section \<open>Context and fields\<close>

type_synonym log_fields = payload

text \<open>\<open>bind\<close>: a new context; the names given as \<open>None\<close> are left out.\<close>

definition bind_context :: "log_fields \<Rightarrow> log_fields \<Rightarrow> log_fields" where
  "bind_context context given = dict_update context (filter (\<lambda>(k, v). v \<noteq> PV VNone) given)"

definition safe_name :: "string \<Rightarrow> string" where
  "safe_name k = (if k \<in> set reserved_field_names then ''field_'' @ k else k)"

definition safe_fields :: "log_fields \<Rightarrow> log_fields" where
  "safe_fields xs = dict_update [] (map (\<lambda>(k, v). (safe_name k, v)) xs)"

definition extra_of :: "log_fields \<Rightarrow> log_fields \<Rightarrow> log_fields" where
  "extra_of context xs = dict_update context (safe_fields xs)"

section \<open>Records and lines\<close>

record log_record =
  lr_time :: string
  lr_level :: log_level
  lr_name :: string
  lr_message :: string
  lr_exception :: "string option"
  lr_extra :: log_fields

text \<open>
  What \<open>Logger.log\<close> does with the call: nothing below the threshold; an extra name that is an
  attribute of the record is refused.
\<close>

definition make_record ::
  "string \<Rightarrow> log_level \<Rightarrow> string \<Rightarrow> string option \<Rightarrow> log_fields \<Rightarrow> log_record res" where
  "make_record time level message exc extra =
     (case find (\<lambda>(k, _). k \<in> set standard_fields) extra of
        Some (k, _) \<Rightarrow> Inl (PyKeyError k)
      | None \<Rightarrow>
          Inr \<lparr>lr_time = time, lr_level = level, lr_name = ''ingestion_framework'', lr_message = message,
               lr_exception = exc, lr_extra = extra\<rparr>)"

definition log_payload :: "log_record \<Rightarrow> log_fields" where
  "log_payload r =
     (let base = [(''ts'', PV (VStr (lr_time r))), (''level'', PV (VStr (level_name (lr_level r)))),
                  (''logger'', PV (VStr (lr_name r))), (''message'', PV (VStr (lr_message r)))];
          with_extra = dict_update base
            (filter (\<lambda>(k, v). k \<notin> set standard_fields \<and> \<not> starts_with k ''_'') (lr_extra r)) in
      case lr_exception r of
        None \<Rightarrow> with_extra
      | Some t \<Rightarrow> dict_set with_extra ''exception'' (PV (VStr t)))"

definition format_record :: "log_record \<Rightarrow> string" where
  "format_record r = json_line (sort_key fst (log_payload r))"

definition log_call ::
  "log_fields \<Rightarrow> string \<Rightarrow> log_level \<Rightarrow> string \<Rightarrow> string option \<Rightarrow> log_fields \<Rightarrow> logger_state \<Rightarrow> unit res \<times> logger_state" where
  "log_call context time level message exc xs lg =
     (if level_no level < lg_level lg then (Inr (), lg)
      else
        case make_record time level message exc (extra_of context xs) of
          Inl e \<Rightarrow> (Inl e, lg)
        | Inr r \<Rightarrow> (Inr (), lg\<lparr>lg_lines := lg_lines lg @ map (\<lambda>h. (h, format_record r)) (lg_handlers lg)\<rparr>))"

definition get_logger :: "string \<Rightarrow> string \<Rightarrow> log_fields \<Rightarrow> logger_state \<Rightarrow> log_fields \<times> logger_state" where
  "get_logger level sink context lg = (context, configure_logging level sink lg)"

section \<open>Properties\<close>

lemma fold_remove1_self: "fold remove_handler hs (hs @ rest) = rest"
  by (induction hs) (simp_all add: remove_handler_def)

text \<open>However often it is configured, the logger has the one handler of the last time.\<close>

lemma one_handler: "lg_handlers (configure_logging level sink lg) = [sink]"
  using fold_remove1_self [of "lg_handlers lg" "[]"] by (simp add: configure_logging_def Let_def)

lemma dict_get_update:
  "dict_ok e \<Longrightarrow> dict_get (dict_update d e) k = (case dict_get e k of None \<Rightarrow> dict_get d k | Some v \<Rightarrow> Some v)"
proof (induction e arbitrary: d)
  case (Cons kv e)
  then have "fst kv \<notin> set (map fst e)" "dict_ok e" by (simp_all add: dict_ok_def)
  moreover then have "dict_get e (fst kv) = None" by (simp add: dict_get_None_iff dict_keys_def)
  ultimately show ?case using Cons.IH by (cases kv) (auto split: option.split)
qed simp

lemma dict_ok_update: "dict_ok d \<Longrightarrow> dict_ok (dict_update d e)"
  by (induction e arbitrary: d) auto

lemma dict_ok_filter: "dict_ok d \<Longrightarrow> dict_ok (filter P d)"
  by (simp add: dict_ok_def distinct_map_filter)

lemma dict_get_filter:
  "dict_ok d \<Longrightarrow> dict_get (filter (\<lambda>(k, v). P k v) d) k =
     (case dict_get d k of None \<Rightarrow> None | Some v \<Rightarrow> if P k v then Some v else None)"
proof (induction d)
  case (Cons kv d)
  obtain a b where kv: "kv = (a, b)" by (cases kv)
  with Cons.prems have "dict_get d a = None" "dict_ok d"
    by (simp_all add: dict_ok_def dict_get_None_iff dict_keys_def)
  with Cons.IH kv show ?case by auto
qed simp

lemma bound_values:
  "dict_ok given \<Longrightarrow> dict_get (bind_context context given) k =
     (case dict_get given k of None \<Rightarrow> dict_get context k | Some v \<Rightarrow> if v = PV VNone then dict_get context k else Some v)"
  using dict_get_filter [of given "\<lambda>_ v. v \<noteq> PV VNone" k]
  by (simp add: bind_context_def dict_get_update dict_ok_filter split: option.split)

text \<open>What a call gives, under the names it is logged by.\<close>

lemma safe_fields_get:
  "dict_ok xs \<Longrightarrow> inj_on safe_name (set (dict_keys xs)) \<Longrightarrow> dict_get xs k = Some v \<Longrightarrow>
   dict_get (safe_fields xs) (safe_name k) = Some v"
proof -
  assume ok: "dict_ok xs" and inj: "inj_on safe_name (set (dict_keys xs))" and k: "dict_get xs k = Some v"
  have "map fst (map (\<lambda>(k, v). (safe_name k, v)) xs) = map safe_name (dict_keys xs)"
    by (simp add: dict_keys_def case_prod_unfold)
  with ok inj have named: "dict_ok (map (\<lambda>(k, v). (safe_name k, v)) xs)"
    by (simp add: dict_ok_def dict_keys_def distinct_map del: map_map)
  have "(safe_name k, v) \<in> set (map (\<lambda>(k, v). (safe_name k, v)) xs)"
    using dict_get_mem [OF k] by force
  with named have "dict_get (map (\<lambda>(k, v). (safe_name k, v)) xs) (safe_name k) = Some v"
    by (simp add: dict_get_def dict_ok_def)
  with dict_get_update [OF named, of "[]"] show ?thesis by (simp add: safe_fields_def)
qed

lemma safe_name_free: "safe_name k \<notin> {''ts'', ''level'', ''logger'', ''message''}"
  by (auto simp: safe_name_def reserved_field_names_def)

lemma make_record_Inr:
  "make_record time level message exc extra = Inr r \<longleftrightarrow>
     set (dict_keys extra) \<inter> set standard_fields = {} \<and>
     r = \<lparr>lr_time = time, lr_level = level, lr_name = ''ingestion_framework'', lr_message = message,
          lr_exception = exc, lr_extra = extra\<rparr>"
proof (cases "find (\<lambda>(k, _). k \<in> set standard_fields) extra")
  case None
  then have "set (dict_keys extra) \<inter> set standard_fields = {}" by (auto simp: dict_keys_def find_None_iff)
  with None show ?thesis by (auto simp: make_record_def)
next
  case (Some kv)
  then have "fst kv \<in> set standard_fields" "kv \<in> set extra" using find_SomeD [OF Some] by auto
  with Some show ?thesis by (cases kv) (auto simp: make_record_def dict_keys_def)
qed

text \<open>
  A line carries every field of its call, under its name or the renamed one, and what else it
  says of itself, unless the bound context says otherwise.
\<close>

lemma line_carries_its_fields:
  assumes "make_record time level message exc (extra_of context xs) = Inr r" "dict_ok context" "dict_ok xs"
    "inj_on safe_name (set (dict_keys xs))"
  shows "dict_get xs k = Some v \<Longrightarrow> \<not> starts_with (safe_name k) ''_'' \<Longrightarrow> exc = None \<or> safe_name k \<noteq> ''exception'' \<Longrightarrow>
      dict_get (log_payload r) (safe_name k) = Some v"
    "dict_get context ''message'' = None \<Longrightarrow> dict_get (log_payload r) ''message'' = Some (PV (VStr message))"
proof -
  let ?extra = "extra_of context xs"
  let ?kept = "filter (\<lambda>(k, v). k \<notin> set standard_fields \<and> \<not> starts_with k ''_'') ?extra"
  have r: "set (dict_keys ?extra) \<inter> set standard_fields = {}" "lr_extra r = ?extra" "lr_exception r = exc"
    "lr_message r = message"
    using assms(1) by (auto simp: make_record_Inr)
  have safe: "dict_ok (safe_fields xs)" by (simp add: safe_fields_def dict_ok_update)
  have ok: "dict_ok ?extra" using assms(2) by (simp add: extra_of_def dict_ok_update)
  note kept = dict_get_filter [OF ok, of "\<lambda>k _. k \<notin> set standard_fields \<and> \<not> starts_with k ''_''"]
  show "dict_get (log_payload r) (safe_name k) = Some v"
    if "dict_get xs k = Some v" "\<not> starts_with (safe_name k) ''_''" "exc = None \<or> safe_name k \<noteq> ''exception''"
  proof -
    have get: "dict_get ?extra (safe_name k) = Some v"
      using safe_fields_get [OF assms(3,4) that(1)] by (simp add: extra_of_def dict_get_update [OF safe])
    then have "safe_name k \<in> set (dict_keys ?extra)" using dict_get_None_iff [of ?extra "safe_name k"] by auto
    with r(1) that(2) get kept have "dict_get ?kept (safe_name k) = Some v" by auto
    with that(3) r show ?thesis
      by (auto simp: log_payload_def Let_def dict_get_update dict_ok_filter [OF ok] split: option.split)
  qed
  show "dict_get (log_payload r) ''message'' = Some (PV (VStr message))" if "dict_get context ''message'' = None"
  proof -
    have "''message'' \<in> set standard_fields" by (simp add: standard_fields_def)
    with kept [of "''message''"] have "dict_get ?kept ''message'' = None" by (simp split: option.split)
    with r show ?thesis
      by (simp add: log_payload_def Let_def dict_get_update dict_ok_filter [OF ok] split: option.split)
  qed
qed

text \<open>
  Only seven names are renamed: a field named like any other attribute of a record, or a
  context so named, raises; a name that begins with an underscore is dropped; and the context
  is not renamed at all, so that a bound \<open>level\<close> replaces the level of the line.
\<close>

lemma fields_that_are_lost:
  "fst (log_call [] t Info ''m'' None [(''module'', PV (VStr ''hr''))] \<lparr>lg_level = 20, lg_handlers = [''out''], lg_propagate = False, lg_lines = []\<rparr>)
     = Inl (PyKeyError ''module'')"
  "make_record t Info ''m'' None (extra_of [(''level'', PV (VInt 2))] [(''_x'', PV (VInt 1))]) = Inr r \<Longrightarrow>
   dict_get (log_payload r) ''level'' = Some (PV (VInt 2)) \<and> dict_get (log_payload r) ''_x'' = None"
  by (auto simp: log_call_def make_record_def extra_of_def safe_fields_def safe_name_def reserved_field_names_def
      standard_fields_def log_payload_def)

text \<open>Every line is one line: the record, whatever its texts, is written in printable characters.\<close>

lemma record_is_one_line:
  assumes "list_all (plain_floats \<circ> snd) (log_payload r)"
  shows "list_all printable (format_record r)"
proof -
  have "set (sort_key fst (log_payload r)) = set (log_payload r)" by simp
  with assms show ?thesis
    unfolding format_record_def by (intro printable_json_line) (simp add: list_all_iff)
qed

end
