(* ===== verification/SqlClient.thy ===== *)
theory SqlClient
  imports EventLog
begin

text \<open>
  The seam between the control plane and Spark (control/sql_client.py): what the client asks of
  the session for a statement or a batch of rows, and the recording client of the tests.
\<close>

section \<open>The client of a session\<close>

type_synonym sql_params = payload

type_synonym sql_row = "(string, pyval) dict"

text \<open>A statement with bound values, a statement alone, rows appended to a table.\<close>

datatype session_request =
    BoundSql string sql_params
  | PlainSql string
  | AppendFrame string "string list" "pyval list list"

definition run_request :: "string \<Rightarrow> sql_params option \<Rightarrow> session_request" where
  "run_request statement params =
     (case params of
        None \<Rightarrow> PlainSql statement
      | Some ps \<Rightarrow> if ps = [] then PlainSql statement else BoundSql statement ps)"

definition row_value :: "sql_row \<Rightarrow> string \<Rightarrow> pyval" where
  "row_value row col = (case dict_get row col of None \<Rightarrow> VNone | Some v \<Rightarrow> v)"

definition insert_request :: "string \<Rightarrow> sql_row list \<Rightarrow> string list \<Rightarrow> session_request option" where
  "insert_request table rows columns =
     (if rows = [] then None else Some (AppendFrame table columns (map (\<lambda>row. map (row_value row) columns) rows)))"

section \<open>The recording client\<close>

datatype recorded_kind = ExecuteKind | QueryKind | InsertKind

record recording =
  rq_calls :: "(recorded_kind \<times> string \<times> sql_params) list"
  rq_results :: "sql_row list list"
  rq_inserted :: "(string \<times> sql_row list) list"

definition new_recording :: "sql_row list list option \<Rightarrow> recording" where
  "new_recording results =
     \<lparr>rq_calls = [], rq_results = (case results of None \<Rightarrow> [] | Some rs \<Rightarrow> rs), rq_inserted = []\<rparr>"

definition record_call :: "recorded_kind \<Rightarrow> string \<Rightarrow> sql_params \<Rightarrow> recording \<Rightarrow> recording" where
  "record_call kind statement ps c = c\<lparr>rq_calls := rq_calls c @ [(kind, statement, ps)]\<rparr>"

abbreviation params_or_empty :: "sql_params option \<Rightarrow> sql_params" where
  "params_or_empty params \<equiv> (case params of None \<Rightarrow> [] | Some ps \<Rightarrow> ps)"

definition execute_recorded :: "string \<Rightarrow> sql_params option \<Rightarrow> recording \<Rightarrow> recording" where
  "execute_recorded statement params c = record_call ExecuteKind statement (params_or_empty params) c"

definition query_recorded :: "string \<Rightarrow> sql_params option \<Rightarrow> recording \<Rightarrow> sql_row list \<times> recording" where
  "query_recorded statement params c =
     (let c' = record_call QueryKind statement (params_or_empty params) c in
      case rq_results c' of
        [] \<Rightarrow> ([], c')
      | r # rest \<Rightarrow> (r, c'\<lparr>rq_results := rest\<rparr>))"

definition insert_recorded :: "string \<Rightarrow> sql_row list \<Rightarrow> string list \<Rightarrow> recording \<Rightarrow> recording" where
  "insert_recorded table rows columns c =
     (let c' = record_call InsertKind table
            [(''columns'', PNames columns), (''count'', PV (VInt (int (length rows))))] c in
      c'\<lparr>rq_inserted := rq_inserted c' @ [(table, rows)]\<rparr>)"

definition queue_result :: "sql_row list \<Rightarrow> recording \<Rightarrow> recording" where
  "queue_result rows c = c\<lparr>rq_results := rq_results c @ [rows]\<rparr>"

definition recorded_statements :: "recording \<Rightarrow> string list" where
  "recorded_statements c = map (\<lambda>(_, s, _). s) (filter (\<lambda>(kind, _, _). kind \<noteq> InsertKind) (rq_calls c))"

definition statements_matching :: "string \<Rightarrow> recording \<Rightarrow> string list" where
  "statements_matching needle c =
     filter (\<lambda>s. contains_str (str_upper s) (str_upper needle)) (recorded_statements c)"

definition params_for :: "string \<Rightarrow> recording \<Rightarrow> sql_params res" where
  "params_for needle c =
     (case find (\<lambda>(_, s, _). contains_str (str_upper s) (str_upper needle)) (rq_calls c) of
        None \<Rightarrow> Inl AssertionError
      | Some (_, _, ps) \<Rightarrow> Inr ps)"

section \<open>Properties\<close>

text \<open>Every tuple sent has the value of each column in the column's place, missing ones as NULL.\<close>

lemma inserted_tuples_follow_columns:
  "insert_request table rows columns = Some (AppendFrame t cols tuples) \<Longrightarrow>
   t = table \<and> cols = columns \<and> length tuples = length rows \<and>
   (\<forall>i < length rows. \<forall>j < length columns. tuples ! i ! j = row_value (rows ! i) (columns ! j))"
  by (auto simp: insert_request_def split: if_splits)

text \<open>Queries get the queued results in order, whatever is executed between, then nothing.\<close>

fun queries :: "(string \<times> sql_params option) list \<Rightarrow> recording \<Rightarrow> sql_row list list \<times> recording" where
  "queries [] c = ([], c)"
| "queries ((s, ps) # qs) c =
     (case query_recorded s ps c of (r, c') \<Rightarrow> case queries qs c' of (rs, c'') \<Rightarrow> (r # rs, c''))"

lemma results_are_replayed_in_order:
  "queries qs c = (rs, c') \<Longrightarrow>
   rs = take (length qs) (rq_results c @ replicate (length qs) []) \<and> rq_results c' = drop (length qs) (rq_results c) \<and>
   recorded_statements c' = recorded_statements c @ map fst qs"
proof (induction qs arbitrary: c rs)
  case (Cons q qs)
  obtain s ps where q: "q = (s, ps)" by (cases q)
  obtain r c1 where 1: "query_recorded s ps c = (r, c1)" by (cases "query_recorded s ps c")
  obtain rs' c2 where 2: "queries qs c1 = (rs', c2)" by (cases "queries qs c1")
  have r: "rq_results c1 = drop 1 (rq_results c)" "r = (case rq_results c of [] \<Rightarrow> [] | x # _ \<Rightarrow> x)"
    "recorded_statements c1 = recorded_statements c @ [s]"
    using 1 by (auto simp: query_recorded_def record_call_def recorded_statements_def Let_def split: list.splits)
  from Cons.prems q 1 2 have "rs = r # rs'" "c2 = c'" by auto
  moreover note Cons.IH [OF 2 [unfolded \<open>c2 = c'\<close>]]
  ultimately show ?case using r q by (cases "rq_results c") (simp_all add: replicate_append_same [symmetric])
qed simp

end
