(* ===== verification/AuditRace.thy ===== *)
theory AuditRace
  imports EventLog "HOL-Library.Multiset"
begin

text \<open>
  The audit log under the thread pool of the batch runner (control/audit.py,
  orchestration/batch_runner.py).  The workers of a level share one log, and nothing locks it:
  between two statements of \<open>emit\<close> or \<open>flush\<close> another worker may run.  Here a call of \<open>emit\<close> is
  split at those points, a step of the pool is one step of any of its workers, and the whole
  calls of EventLog are what a single worker does.
\<close>

section \<open>Steps\<close>

text \<open>
  Where a worker is in its current call: before it, after the increment of the sequence, with
  its event made, with the event in the buffer, inside \<open>flush\<close>, with the rows copied, with the
  buffer cleared.
\<close>

datatype emit_phase =
    Ready
  | Counted
  | Made audit_event
  | Kept
  | Flushing
  | Copied "audit_event list"
  | Cleared "audit_event list"

record worker =
  wk_calls :: "emit_call list"
  wk_phase :: emit_phase

text \<open>The event takes the sequence as it is when its last argument is evaluated.\<close>

definition read_event :: "emit_call \<Rightarrow> audit_log \<Rightarrow> audit_event" where
  "read_event c lg =
     (make_event (ec_id c) (ec_now c) (ec_type c) (ec_table c) (ec_payload c) (ec_run_id c) lg)
       \<lparr>ae_sequence := al_sequence lg\<rparr>"

definition at_phase :: "emit_call list \<Rightarrow> emit_phase \<Rightarrow> worker" where
  "at_phase calls p = \<lparr>wk_calls = calls, wk_phase = p\<rparr>"

definition phase_step ::
  "emit_call \<Rightarrow> emit_call list \<Rightarrow> emit_phase \<Rightarrow> audit_state \<Rightarrow> worker \<times> audit_state" where
  "phase_step c rest p st =
     (case st of (lg, rows) \<Rightarrow>
        let stay = (\<lambda>p' st'. (at_phase (c # rest) p', st')); return = (\<lambda>st'. (at_phase rest Ready, st')) in
        case p of
          Ready \<Rightarrow> stay Counted (lg\<lparr>al_sequence := al_sequence lg + 1\<rparr>, rows)
        | Counted \<Rightarrow> stay (Made (read_event c lg)) st
        | Made ev \<Rightarrow> stay Kept (lg\<lparr>al_buffer := al_buffer lg @ [ev]\<rparr>, rows)
        | Kept \<Rightarrow> if must_flush (ec_flush c) lg then stay Flushing st else return st
        | Flushing \<Rightarrow> if al_buffer lg = [] then return st else stay (Copied (map event_row (al_buffer lg))) st
        | Copied new \<Rightarrow> stay (Cleared new) (lg\<lparr>al_buffer := []\<rparr>, rows)
        | Cleared new \<Rightarrow> return (lg, call_effect (ec_fault c) (\<lambda>rs. rs @ new) rows))"

definition worker_step :: "worker \<Rightarrow> audit_state \<Rightarrow> (worker \<times> audit_state) option" where
  "worker_step w st =
     (case wk_calls w of [] \<Rightarrow> None | c # rest \<Rightarrow> Some (phase_step c rest (wk_phase w) st))"

text \<open>A step of the pool is a step of one of its workers.\<close>

type_synonym pool = "worker list \<times> audit_state"

inductive pool_step :: "pool \<Rightarrow> pool \<Rightarrow> bool" where
  pool_step: "i < length ws \<Longrightarrow> worker_step (ws ! i) st = Some (w', st') \<Longrightarrow>
    pool_step (ws, st) (ws[i := w'], st')"

inductive_cases pool_stepE: "pool_step (ws, st) q"

abbreviation pool_steps :: "pool \<Rightarrow> pool \<Rightarrow> bool" where
  "pool_steps \<equiv> pool_step\<^sup>*\<^sup>*"

definition starting :: "emit_call list list \<Rightarrow> audit_state \<Rightarrow> pool" where
  "starting calls st = (map (\<lambda>cs. at_phase cs Ready) calls, st)"

definition all_returned :: "worker list \<Rightarrow> bool" where
  "all_returned ws = list_all (\<lambda>w. wk_calls w = []) ws"

text \<open>The steps a schedule takes: the number of the worker that moves, for each step.\<close>

fun follow :: "nat list \<Rightarrow> pool \<Rightarrow> pool option" where
  "follow [] p = Some p"
| "follow (i # is) (ws, st) =
     (if i < length ws then
        (case worker_step (ws ! i) st of
           None \<Rightarrow> None
         | Some (w', st') \<Rightarrow> follow is (ws[i := w'], st'))
      else None)"

lemma follow_reaches: "follow is p = Some q \<Longrightarrow> pool_steps p q"
proof (induction "is" p rule: follow.induct)
  case (2 i "is" ws st)
  then obtain w' st' where "i < length ws" "worker_step (ws ! i) st = Some (w', st')"
    and rest: "follow is (ws[i := w'], st') = Some q"
    by (auto split: if_splits option.splits)
  then have "pool_step (ws, st) (ws[i := w'], st')" "pool_steps (ws[i := w'], st') q"
    using 2 by (auto intro: pool_step.intros)
  then show ?case by (rule converse_rtranclp_into_rtranclp)
qed simp

text \<open>Some interleaving of the calls returns with such a log.\<close>

definition may_end :: "emit_call list list \<Rightarrow> audit_state \<Rightarrow> (audit_state \<Rightarrow> bool) \<Rightarrow> bool" where
  "may_end calls st P = (\<exists>ws' st'. pool_steps (starting calls st) (ws', st') \<and> all_returned ws' \<and> P st')"

lemma may_end_by:
  assumes "case follow sched (starting calls st) of
      None \<Rightarrow> False | Some (ws', st') \<Rightarrow> all_returned ws' \<and> P st'"
  shows "may_end calls st P"
proof -
  obtain ws' st' where end': "follow sched (starting calls st) = Some (ws', st')" "all_returned ws'" "P st'"
    using assms by (auto split: option.splits)
  with follow_reaches [OF end'(1)] show ?thesis unfolding may_end_def by blast
qed

section \<open>The rest of a call\<close>

text \<open>What the log will be when the current call of a worker has returned, if no other moves.\<close>

definition finish_call :: "emit_call \<Rightarrow> emit_phase \<Rightarrow> audit_state \<Rightarrow> audit_state" where
  "finish_call c p st =
     (case st of (lg, rows) \<Rightarrow>
        let flushed = (\<lambda>lg. snd (flush (ec_fault c) (lg, rows)));
            decided = (\<lambda>lg. if must_flush (ec_flush c) lg then flushed lg else (lg, rows));
            kept = (\<lambda>ev lg. decided (lg\<lparr>al_buffer := al_buffer lg @ [ev]\<rparr>));
            counted = (\<lambda>lg. kept (read_event c lg) lg)
        in case p of
          Ready \<Rightarrow> counted (lg\<lparr>al_sequence := al_sequence lg + 1\<rparr>)
        | Counted \<Rightarrow> counted lg
        | Made ev \<Rightarrow> kept ev lg
        | Kept \<Rightarrow> decided lg
        | Flushing \<Rightarrow> flushed lg
        | Copied new \<Rightarrow> (lg\<lparr>al_buffer := []\<rparr>, call_effect (ec_fault c) (\<lambda>rs. rs @ new) rows)
        | Cleared new \<Rightarrow> (lg, call_effect (ec_fault c) (\<lambda>rs. rs @ new) rows))"

lemma finish_ready: "finish_call c Ready st = emit_step c st"
proof (cases st)
  case (Pair lg rows)
  have "buffer_event (built_event c lg) lg =
      (let lg1 = lg\<lparr>al_sequence := al_sequence lg + 1\<rparr> in lg1\<lparr>al_buffer := al_buffer lg1 @ [read_event c lg1]\<rparr>)"
    by (simp add: buffer_event_def built_event_def read_event_def make_event_def Let_def)
  with Pair show ?thesis by (simp add: finish_call_def emit_step_eq Let_def)
qed

text \<open>A step either stays in its call, whose end it does not change, or returns with it.\<close>

lemma flush_state:
  "snd (flush ft (lg, rows)) =
    (if al_buffer lg = [] then (lg, rows)
     else (lg\<lparr>al_buffer := []\<rparr>, call_effect ft (\<lambda>rs. rs @ map event_row (al_buffer lg)) rows))"
  by (simp add: flush_def Let_def split: option.split)

lemma phase_step_finish:
  assumes "phase_step c rest p st = (w', st')"
  shows "(\<exists>p'. w' = at_phase (c # rest) p' \<and> p' \<noteq> Ready \<and> finish_call c p' st' = finish_call c p st) \<or>
    (w' = at_phase rest Ready \<and> st' = finish_call c p st)"
proof (cases st)
  case (Pair lg rows)
  with assms show ?thesis
    by (cases p) (auto simp: phase_step_def finish_call_def Let_def flush_state split: if_splits)
qed

section \<open>One worker\<close>

definition alone :: "worker \<Rightarrow> audit_state \<Rightarrow> audit_state" where
  "alone w st = (case wk_calls w of [] \<Rightarrow> st | c # rest \<Rightarrow> fold emit_step rest (finish_call c (wk_phase w) st))"

lemma alone_ready: "alone (at_phase calls Ready) st = fold emit_step calls st"
  by (cases calls) (simp_all add: alone_def at_phase_def finish_ready)

lemma alone_step:
  assumes "worker_step w st = Some (w', st')"
  shows "alone w' st' = alone w st"
proof -
  from assms obtain c rest where calls: "wk_calls w = c # rest"
    and step: "phase_step c rest (wk_phase w) st = (w', st')"
    by (auto simp: worker_step_def split: list.splits)
  from phase_step_finish [OF step] show ?thesis
  proof
    assume "\<exists>p'. w' = at_phase (c # rest) p' \<and> p' \<noteq> Ready \<and> finish_call c p' st' = finish_call c (wk_phase w) st"
    with calls show ?thesis by (auto simp: alone_def at_phase_def)
  next
    assume "w' = at_phase rest Ready \<and> st' = finish_call c (wk_phase w) st"
    with calls show ?thesis by (simp add: alone_ready) (simp add: alone_def)
  qed
qed

lemma one_worker_steps:
  "pool_steps ([w], st) (ws', st') \<Longrightarrow> \<exists>w'. ws' = [w'] \<and> alone w' st' = alone w st"
proof (induction rule: rtranclp_induct2)
  case (step ws1 st1 ws2 st2)
  then obtain w1 where "ws1 = [w1]" "alone w1 st1 = alone w st" by blast
  with step(2) show ?case by (auto elim!: pool_stepE dest: alone_step)
qed simp

section \<open>Workers that take turns\<close>

text \<open>
  The steps that remain when a call may begin only while no other is under way, as with a lock
  around \<open>emit\<close>.
\<close>

definition others_ready :: "nat \<Rightarrow> worker list \<Rightarrow> bool" where
  "others_ready i ws = (\<forall>j < length ws. j \<noteq> i \<longrightarrow> wk_phase (ws ! j) = Ready)"

inductive turn_step :: "pool \<Rightarrow> pool \<Rightarrow> bool" where
  turn_step: "i < length ws \<Longrightarrow> others_ready i ws \<Longrightarrow> worker_step (ws ! i) st = Some (w', st') \<Longrightarrow>
    turn_step (ws, st) (ws[i := w'], st')"

inductive_cases turn_stepE: "turn_step (ws, st) q"

lemma turn_step_pool: "turn_step p q \<Longrightarrow> pool_step p q"
  by (auto elim: turn_step.cases intro: pool_step.intros)

text \<open>The calls a worker has not begun.\<close>

definition not_begun :: "worker \<Rightarrow> emit_call multiset" where
  "not_begun w = mset (if wk_phase w = Ready then wk_calls w else tl (wk_calls w))"

definition left_of :: "worker list \<Rightarrow> emit_call multiset" where
  "left_of ws = sum_list (map not_begun ws)"

definition log_after :: "worker \<Rightarrow> audit_state \<Rightarrow> audit_state" where
  "log_after w st = (if wk_phase w = Ready \<or> wk_calls w = [] then st else finish_call (hd (wk_calls w)) (wk_phase w) st)"

text \<open>Once the call under way has returned, the log is that of whole calls, each begun once.\<close>

definition in_turns :: "emit_call multiset \<Rightarrow> audit_state \<Rightarrow> pool \<Rightarrow> bool" where
  "in_turns all st0 q =
     (\<exists>i < length (fst q). others_ready i (fst q) \<and>
        (\<exists>order. log_after (fst q ! i) (snd q) = fold emit_step order st0 \<and>
           mset order + left_of (fst q) = all))"

lemma left_of_update:
  "i < length ws \<Longrightarrow> left_of ws = not_begun (ws ! i) + left_of (take i ws @ drop (Suc i) ws)"
  "i < length ws \<Longrightarrow> left_of (ws[i := w]) = not_begun w + left_of (take i ws @ drop (Suc i) ws)"
proof -
  assume i: "i < length ws"
  have split: "left_of (xs @ x # ys) = not_begun x + left_of (xs @ ys)" for xs x ys
    by (simp add: left_of_def ac_simps)
  show "left_of ws = not_begun (ws ! i) + left_of (take i ws @ drop (Suc i) ws)"
    using id_take_nth_drop [OF i] split by metis
  show "left_of (ws[i := w]) = not_begun w + left_of (take i ws @ drop (Suc i) ws)"
    using i by (simp add: upd_conv_take_nth_drop split)
qed

lemma worker_step_turn:
  assumes "worker_step w st = Some (w', st')"
  shows "\<exists>begun. mset begun + not_begun w' = not_begun w \<and> log_after w' st' = fold emit_step begun (log_after w st)"
proof -
  from assms obtain c rest where calls: "wk_calls w = c # rest"
    and step: "phase_step c rest (wk_phase w) st = (w', st')"
    by (auto simp: worker_step_def split: list.splits)
  have left: "not_begun w' = mset rest" and log: "log_after w' st' = finish_call c (wk_phase w) st"
    using phase_step_finish [OF step] by (auto simp: not_begun_def log_after_def at_phase_def)
  show ?thesis
  proof (cases "wk_phase w = Ready")
    case True
    with calls left log show ?thesis
      by (intro exI [of _ "[c]"]) (simp add: not_begun_def log_after_def finish_ready)
  next
    case False
    with calls left log show ?thesis
      by (intro exI [of _ "[]"]) (simp add: not_begun_def log_after_def)
  qed
qed

lemma turn_keeps:
  assumes "turn_step p q" "in_turns all st0 p"
  shows "in_turns all st0 q"
proof -
  obtain ws st where p: "p = (ws, st)" by (cases p)
  from assms(1) obtain i w' st' where i: "i < length ws" "others_ready i ws" "worker_step (ws ! i) st = Some (w', st')"
    and q: "q = (ws[i := w'], st')" unfolding p by (elim turn_stepE) auto
  from assms(2) obtain k order where k: "k < length ws" "others_ready k ws"
    and order: "log_after (ws ! k) st = fold emit_step order st0" "mset order + left_of ws = all"
    by (auto simp: in_turns_def p)
  have same: "log_after (ws ! i) st = log_after (ws ! k) st"
    using i(1,2) k by (cases "k = i") (auto simp: others_ready_def log_after_def)
  from worker_step_turn [OF i(3)] obtain begun where
    begun: "mset begun + not_begun w' = not_begun (ws ! i)" "log_after w' st' = fold emit_step begun (log_after (ws ! i) st)"
    by blast
  have "log_after w' st' = fold emit_step (order @ begun) st0" using begun(2) same order(1) by simp
  moreover have "mset (order @ begun) + left_of (ws[i := w']) = all"
    unfolding left_of_update(2) [OF i(1)] order(2) [symmetric] left_of_update(1) [OF i(1)] begun(1) [symmetric]
    by (simp add: ac_simps)
  moreover have "others_ready i (ws[i := w'])" using i(2) by (simp add: others_ready_def)
  ultimately show ?thesis
    unfolding in_turns_def q fst_conv snd_conv using i(1)
    by (intro exI [of _ i] conjI exI [of _ "order @ begun"]) simp_all
qed

lemma starting_in_turns: "calls \<noteq> [] \<Longrightarrow> in_turns (mset (concat calls)) st (starting calls st)"
proof -
  assume "calls \<noteq> []"
  have "left_of (map (\<lambda>cs. at_phase cs Ready) cs) = mset (concat cs)" for cs
    by (induction cs) (simp_all add: left_of_def not_begun_def at_phase_def)
  with \<open>calls \<noteq> []\<close> show ?thesis
    by (auto simp: in_turns_def starting_def others_ready_def at_phase_def log_after_def
        intro!: exI [of _ 0] exI [of _ "[]"])
qed

lemma turns_are_whole_calls:
  assumes "turn_step\<^sup>*\<^sup>* (starting calls st) (ws', st')" "all_returned ws'" "calls \<noteq> []"
  shows "\<exists>order. mset order = mset (concat calls) \<and> st' = fold emit_step order st"
proof -
  have "in_turns (mset (concat calls)) st (ws', st')"
    using assms(1) by (induction rule: rtranclp_induct) (auto intro: turn_keeps starting_in_turns [OF assms(3)])
  then obtain i order where i: "i < length ws'" "log_after (ws' ! i) st' = fold emit_step order st"
    "mset order + left_of ws' = mset (concat calls)" by (auto simp: in_turns_def)
  have "left_of ws' = {#}"
    using assms(2) by (induction ws') (simp_all add: all_returned_def left_of_def not_begun_def)
  moreover have "wk_calls (ws' ! i) = []"
    using assms(2) i(1) by (simp add: all_returned_def list_all_length)
  ultimately show ?thesis using i(2,3) by (auto simp: log_after_def)
qed

section \<open>Properties\<close>


definition sample_call :: "string \<Rightarrow> event_type \<Rightarrow> bool \<Rightarrow> emit_call" where
  "sample_call eid ty now =
     \<lparr>ec_fault = NoFault, ec_id = eid, ec_now = midnight (PDate 1 1 1), ec_type = ty, ec_table = Some eid,
      ec_payload = [], ec_run_id = Some ''r1'', ec_flush = now\<rparr>"

definition empty_trail :: audit_state where
  "empty_trail = (new_audit_log (Some ''r1'') (Some ''dev'') None 100, [])"


text \<open>C21: With two workers the trail is not safe, although nothing fails: an event appended
  between the copy and the clearing of another worker's flush is in neither the table nor the
  buffer when both have returned; two flushes that copy the same buffer insert its events
  twice; and two events get the same sequence number.\<close>

theorem two_workers_lose_events:
  "may_end [[sample_call ''a'' TASK_FAILED True], [sample_call ''b'' TASK_STARTED False]] empty_trail
     (\<lambda>st. map ae_event_id (stream st) = [''a'']) \<and>
   may_end [[sample_call ''a'' TASK_FAILED True], [sample_call ''b'' TASK_FAILED True]] empty_trail
     (\<lambda>st. map ae_event_id (stream st) = [''a'', ''b'', ''a'', ''b'']) \<and>
   may_end [[sample_call ''a'' TASK_STARTED False], [sample_call ''b'' TASK_STARTED False]] empty_trail
     (\<lambda>st. map ae_sequence (stream st) = [2, 2])"
proof (intro conjI)
  show "may_end [[sample_call ''a'' TASK_FAILED True], [sample_call ''b'' TASK_STARTED False]] empty_trail
     (\<lambda>st. map ae_event_id (stream st) = [''a''])"
    by (rule may_end_by [where sched = "[0, 0, 0, 0, 0, 1, 1, 1, 1, 0, 0]"]) code_simp
  show "may_end [[sample_call ''a'' TASK_FAILED True], [sample_call ''b'' TASK_FAILED True]] empty_trail
     (\<lambda>st. map ae_event_id (stream st) = [''a'', ''b'', ''a'', ''b''])"
    by (rule may_end_by [where sched = "[0, 0, 0, 1, 1, 1, 0, 0, 1, 1, 0, 1, 0, 1]"]) code_simp
  show "may_end [[sample_call ''a'' TASK_STARTED False], [sample_call ''b'' TASK_STARTED False]] empty_trail
     (\<lambda>st. map ae_sequence (stream st) = [2, 2])"
    by (rule may_end_by [where sched = "[0, 1, 0, 0, 0, 1, 1, 1]"]) code_simp
qed

end
