(* ===== verification/Workers.thy ===== *)
theory Workers
  imports BatchRunner AuditRace
begin

text \<open>
  The tables of a level under the thread pool of the batch runner
  (orchestration/batch_runner.py).  The workers share the control tables, and every statement
  of a worker is about the rows of its own table: here the statements are values, a run of a
  table is shown to send only its own, and clients that read and write only their own rows
  are shown not to see each other, however their statements interleave.  A level whose tables
  are taken as a whole, in any order, is in BatchRunner.
\<close>

section \<open>Private rows\<close>

text \<open>
  A state seen through views: a step that belongs to a key acts on the view of that key as on
  the whole, and leaves the other views alone.
\<close>

locale private_rows =
  fixes step :: "'p \<Rightarrow> 's \<Rightarrow> 's"
    and view :: "'k \<Rightarrow> 's \<Rightarrow> 's"
    and belongs :: "'k \<Rightarrow> 'p \<Rightarrow> bool"
  assumes view_own: "belongs k p \<Longrightarrow> view k (step p s) = step p (view k s)"
    and view_other: "belongs j p \<Longrightarrow> j \<noteq> k \<Longrightarrow> view k (step p s) = view k s"
begin

lemma view_steps:
  assumes "list_all (\<lambda>p. \<exists>j. belongs j p) ps"
  shows "view k (fold step ps s) = fold step (filter (belongs k) ps) (view k s)"
  using assms
proof (induction ps arbitrary: s)
  case (Cons p ps)
  then have ih: "view k (fold step (p # ps) s) = fold step (filter (belongs k) ps) (view k (step p s))"
    and "\<exists>j. belongs j p" by auto
  then have "view k (step p s) = (if belongs k p then step p (view k s) else view k s)"
    by (metis view_own view_other)
  with ih show ?case by simp
qed simp

lemma other_steps:
  "list_all (belongs j) ps \<Longrightarrow> j \<noteq> k \<Longrightarrow> view k (fold step ps s) = view k s"
  by (induction ps arbitrary: s) (auto simp: view_other [of j])

end

text \<open>
  A client of a key: from its own state and the view of its key, the step it takes, if any,
  and its next state; nothing when it is done.  A turn of a client alone, and a turn of one
  client of a pool on the shared state.
\<close>

type_synonym ('l, 's, 'p) client = "'l \<Rightarrow> 's \<Rightarrow> ('p option \<times> 'l) option"

definition solo_turn ::
  "('p \<Rightarrow> 's \<Rightarrow> 's) \<Rightarrow> ('l, 's, 'p) client \<Rightarrow> 'l \<times> 's \<Rightarrow> 'l \<times> 's" where
  "solo_turn step c = (\<lambda>(l, s).
     case c l s of None \<Rightarrow> (l, s) | Some (p, l') \<Rightarrow> (l', case p of None \<Rightarrow> s | Some q \<Rightarrow> step q s))"

definition pool_turn ::
  "('p \<Rightarrow> 's \<Rightarrow> 's) \<Rightarrow> ('k \<Rightarrow> 's \<Rightarrow> 's) \<Rightarrow> ('k \<Rightarrow> ('l, 's, 'p) client) \<Rightarrow> 'k \<Rightarrow>
   ('k \<Rightarrow> 'l) \<times> 's \<Rightarrow> ('k \<Rightarrow> 'l) \<times> 's" where
  "pool_turn step view clients k = (\<lambda>(ls, s).
     case clients k (ls k) (view k s) of
       None \<Rightarrow> (ls, s)
     | Some (p, l') \<Rightarrow> (ls(k := l'), case p of None \<Rightarrow> s | Some q \<Rightarrow> step q s))"

definition own_steps_only :: "('k \<Rightarrow> 'p \<Rightarrow> bool) \<Rightarrow> ('k \<Rightarrow> ('l, 's, 'p) client) \<Rightarrow> bool" where
  "own_steps_only belongs clients =
     (\<forall>k l v q l'. clients k l v = Some (Some q, l') \<longrightarrow> belongs k q)"

lemma own_steps_onlyD:
  "own_steps_only belongs clients \<Longrightarrow> clients k l v = Some (Some q, l') \<Longrightarrow> belongs k q"
  unfolding own_steps_only_def by blast

context private_rows
begin

lemma pool_turn_own:
  assumes "own_steps_only belongs clients" "pool_turn step view clients k (ls, s) = (ls', s')"
  shows "(ls' k, view k s') = solo_turn step (clients k) (ls k, view k s)"
  using assms(2) unfolding pool_turn_def solo_turn_def
  by (auto split: option.splits intro!: view_own own_steps_onlyD [OF assms(1)])

lemma pool_turn_other:
  assumes "own_steps_only belongs clients" "pool_turn step view clients j (ls, s) = (ls', s')" "j \<noteq> k"
  shows "ls' k = ls k \<and> view k s' = view k s"
  using assms(2,3) unfolding pool_turn_def
  by (auto split: option.splits intro!: view_other [of j] own_steps_onlyD [OF assms(1)])

lemma turns_as_alone:
  assumes "own_steps_only belongs clients" "fold (pool_turn step view clients) turns (ls, s) = (ls', s')"
  shows "(ls' k, view k s') = (solo_turn step (clients k) ^^ count_list turns k) (ls k, view k s)"
  using assms(2)
proof (induction turns arbitrary: ls s)
  case (Cons j turns)
  obtain ls1 s1 where turn: "pool_turn step view clients j (ls, s) = (ls1, s1)" by fastforce
  with Cons have rest: "(ls' k, view k s') = (solo_turn step (clients k) ^^ count_list turns k) (ls1 k, view k s1)"
    by simp
  show ?case
  proof (cases "j = k")
    case True
    with rest pool_turn_own [OF assms(1), of k] turn show ?thesis
      by (simp add: funpow_swap1)
  next
    case False
    with rest pool_turn_other [OF assms(1) turn] show ?thesis by simp
  qed
qed simp

end

section \<open>The statements of a table\<close>

record control_rows =
  cl_marks :: "wm_row list"
  cl_tasks :: "task_row list"
  cl_registry :: "registry_row list"
  cl_checks :: "check_row list"

definition control_of :: "world \<Rightarrow> control_rows" where
  "control_of w =
     \<lparr>cl_marks = wd_marks w, cl_tasks = wd_tasks w, cl_registry = wd_registry w, cl_checks = wd_checks w\<rparr>"

text \<open>
  The MERGE of a mark, the INSERT and the UPDATE of a task, the MERGE of a configuration and
  the INSERT of checks.
\<close>

datatype statement =
    MergeMark wm_params
  | InsertTask task_row
  | UpdateTask task_ref task_status task_metrics "string option" "string option" "int option" pdatetime
  | MergeConfig string string string string "string list" "string option" pdatetime
  | InsertChecks "check_row list" pdatetime

fun apply_statement :: "sql_casts \<Rightarrow> statement \<Rightarrow> control_rows \<Rightarrow> control_rows" where
  "apply_statement c (MergeMark p) s = s\<lparr>cl_marks := merge_advance c p (cl_marks s)\<rparr>"
| "apply_statement c (InsertTask t) s = s\<lparr>cl_tasks := insert_task t (cl_tasks s)\<rparr>"
| "apply_statement c (UpdateTask ref st m et msg d e) s = s\<lparr>cl_tasks := update_task ref st m et msg d e (cl_tasks s)\<rparr>"
| "apply_statement c (MergeConfig t e h j src rid seen) s =
     s\<lparr>cl_registry := register_config t e h j src rid seen (cl_registry s)\<rparr>"
| "apply_statement c (InsertChecks cs stamp) s = s\<lparr>cl_checks := snd (record_checks cs stamp (cl_checks s))\<rparr>"

fun concerns :: "string \<Rightarrow> statement \<Rightarrow> bool" where
  "concerns fqn (MergeMark p) = (mp_table_fqn p = fqn)"
| "concerns fqn (InsertTask t) = (task_table_fqn t = fqn)"
| "concerns fqn (UpdateTask ref _ _ _ _ _ _) = (tr_table_fqn ref = fqn)"
| "concerns fqn (MergeConfig t _ _ _ _ _ _) = (t = fqn)"
| "concerns fqn (InsertChecks cs _) = list_all (\<lambda>c. ck_table_fqn c = fqn) cs"

definition rows_about :: "string \<Rightarrow> control_rows \<Rightarrow> control_rows" where
  "rows_about fqn s =
     \<lparr>cl_marks = filter (\<lambda>r. wm_table_fqn r = fqn) (cl_marks s),
      cl_tasks = filter (\<lambda>t. task_table_fqn t = fqn) (cl_tasks s),
      cl_registry = filter (\<lambda>r. cr_table_fqn r = fqn) (cl_registry s),
      cl_checks = filter (\<lambda>r. ck_table_fqn r = fqn) (cl_checks s)\<rparr>"

lemma merge_about:
  "mp_table_fqn p = fqn \<Longrightarrow>
   filter (\<lambda>r. wm_table_fqn r = fqn) (wm_merge g p rows) = wm_merge g p (filter (\<lambda>r. wm_table_fqn r = fqn) rows)"
  "mp_table_fqn p \<noteq> fqn \<Longrightarrow>
   filter (\<lambda>r. wm_table_fqn r = fqn) (wm_merge g p rows) = filter (\<lambda>r. wm_table_fqn r = fqn) rows"
proof -
  let ?f = "\<lambda>r. if wm_matches (mp_table_fqn p) (mp_env p) r \<and> g r then wm_update_row p r else r"
  have f: "filter (\<lambda>r. wm_table_fqn r = fqn) (map ?f rows) = map ?f (filter (\<lambda>r. wm_table_fqn r = fqn) rows)"
    by (induction rows) auto
  show "filter (\<lambda>r. wm_table_fqn r = fqn) (wm_merge g p rows) =
      wm_merge g p (filter (\<lambda>r. wm_table_fqn r = fqn) rows)" if "mp_table_fqn p = fqn"
    using f that by (auto simp: wm_merge_def Let_def list_ex_iff wm_matches_def wm_insert_row_def)
  have "map ?f (filter (\<lambda>r. wm_table_fqn r = fqn) rows) = filter (\<lambda>r. wm_table_fqn r = fqn) rows"
    if "mp_table_fqn p \<noteq> fqn"
    using that by (induction rows) (auto simp: wm_matches_def)
  then show "filter (\<lambda>r. wm_table_fqn r = fqn) (wm_merge g p rows) = filter (\<lambda>r. wm_table_fqn r = fqn) rows"
    if "mp_table_fqn p \<noteq> fqn"
    using f that by (simp add: wm_merge_def Let_def wm_insert_row_def)
qed

lemma advance_about:
  "mp_table_fqn p = fqn \<Longrightarrow>
   filter (\<lambda>r. wm_table_fqn r = fqn) (merge_advance c p rows) =
   merge_advance c p (filter (\<lambda>r. wm_table_fqn r = fqn) rows)"
  "mp_table_fqn p \<noteq> fqn \<Longrightarrow>
   filter (\<lambda>r. wm_table_fqn r = fqn) (merge_advance c p rows) = filter (\<lambda>r. wm_table_fqn r = fqn) rows"
  by (simp_all add: merge_advance_def merge_about split: option.split)

lemma update_task_about:
  "tr_table_fqn ref = fqn \<Longrightarrow>
   filter (\<lambda>t. task_table_fqn t = fqn) (update_task ref st m et msg d e ts) =
   update_task ref st m et msg d e (filter (\<lambda>t. task_table_fqn t = fqn) ts)"
  by (induction ts) (auto simp: update_task_def is_task_def finish_task_row_def)

lemma register_about:
  "t = fqn \<Longrightarrow>
   filter (\<lambda>r. cr_table_fqn r = fqn) (register_config t e h j src rid seen rows) =
   register_config t e h j src rid seen (filter (\<lambda>r. cr_table_fqn r = fqn) rows)"
  "t \<noteq> fqn \<Longrightarrow>
   filter (\<lambda>r. cr_table_fqn r = fqn) (register_config t e h j src rid seen rows) =
   filter (\<lambda>r. cr_table_fqn r = fqn) rows"
proof -
  let ?f = "\<lambda>r. if same_config h t e r then touch_config rid seen r else r"
  have name: "cr_table_fqn (touch_config rid seen r) = cr_table_fqn r" for r by (simp add: touch_config_def)
  have f: "filter (\<lambda>r. cr_table_fqn r = fqn) (map ?f rows) = map ?f (filter (\<lambda>r. cr_table_fqn r = fqn) rows)"
    by (induction rows) (auto simp: name)
  show "filter (\<lambda>r. cr_table_fqn r = fqn) (register_config t e h j src rid seen rows) =
      register_config t e h j src rid seen (filter (\<lambda>r. cr_table_fqn r = fqn) rows)" if "t = fqn"
    using f that by (auto simp: register_config_eq list_ex_iff same_config_def)
  have "map ?f (filter (\<lambda>r. cr_table_fqn r = fqn) rows) = filter (\<lambda>r. cr_table_fqn r = fqn) rows" if "t \<noteq> fqn"
    using that by (induction rows) (auto simp: same_config_def)
  then show "filter (\<lambda>r. cr_table_fqn r = fqn) (register_config t e h j src rid seen rows) =
      filter (\<lambda>r. cr_table_fqn r = fqn) rows" if "t \<noteq> fqn"
    using f that by (simp add: register_config_eq)
qed

lemma checks_about:
  "list_all (\<lambda>c. ck_table_fqn c = t) cs \<Longrightarrow>
   filter (\<lambda>r. ck_table_fqn r = fqn) (snd (record_checks cs stamp rows)) =
   (if t = fqn then snd (record_checks cs stamp (filter (\<lambda>r. ck_table_fqn r = fqn) rows))
    else filter (\<lambda>r. ck_table_fqn r = fqn) rows)"
proof -
  assume "list_all (\<lambda>c. ck_table_fqn c = t) cs"
  then have "filter (\<lambda>r. ck_table_fqn r = fqn) (map (stamp_check stamp) cs) =
      (if t = fqn then map (stamp_check stamp) cs else [])"
    by (induction cs) (simp_all add: stamp_check_def)
  then show ?thesis by (simp add: record_checks_def)
qed

interpretation rows: private_rows "apply_statement c" rows_about concerns for c
proof unfold_locales
  fix k p s assume "concerns k p"
  then show "rows_about k (apply_statement c p s) = apply_statement c p (rows_about k s)"
    by (cases p)
      (simp_all add: rows_about_def advance_about update_task_about register_about checks_about insert_task_def)
next
  fix j p k s assume "concerns j p" "j \<noteq> k"
  then show "rows_about k (apply_statement c p s) = rows_about k s"
    by (cases p)
      (simp_all add: rows_about_def advance_about update_task_rows register_about checks_about [where t = j] insert_task_def)
qed

text \<open>What the code reads of the control tables, it reads of its own rows.\<close>

lemma reads_own_rows:
  "wm_get fqn e (cl_marks (rows_about fqn s)) = wm_get fqn e (cl_marks s)"
  "next_attempt rid fqn (cl_tasks (rows_about fqn s)) = next_attempt rid fqn (cl_tasks s)"
proof -
  have "wm_select fqn e (filter (\<lambda>r. wm_table_fqn r = fqn) rows) = wm_select fqn e rows" for rows
    by (induction rows) (auto simp: wm_select_def wm_matches_def)
  then show "wm_get fqn e (cl_marks (rows_about fqn s)) = wm_get fqn e (cl_marks s)"
    by (simp add: wm_get_def rows_about_def)
  have "filter (same_task rid fqn) (filter (\<lambda>t. task_table_fqn t = fqn) ts) = filter (same_task rid fqn) ts" for ts
    by (induction ts) (auto simp: same_task_def)
  then show "next_attempt rid fqn (cl_tasks (rows_about fqn s)) = next_attempt rid fqn (cl_tasks s)"
    by (simp add: next_attempt_def max_attempt_def rows_about_def)
qed

section \<open>A run sends only its own statements\<close>

context world_order
begin

lemma steps_bind_of:
  assumes "steps R m" "\<And>w a w'. m w = (Inr a, w') \<Longrightarrow> steps R (f a)"
  shows "steps R (bindA m f)"
  unfolding steps_def
proof
  fix w
  obtain r w1 where e: "m w = (r, w1)" by fastforce
  then have 1: "R w w1" using assms(1) by (metis steps_def snd_conv)
  show "R w (snd (bindA m f w))"
  proof (cases r)
    case (Inr a)
    have "R w1 (snd (f a w1))" using assms(2) e Inr by (auto simp: steps_def)
    with 1 show ?thesis using order_trans by (simp add: bindA_def e Inr)
  qed (simp add: bindA_def e 1)
qed

end

definition sends :: "sql_casts \<Rightarrow> string \<Rightarrow> world \<Rightarrow> world \<Rightarrow> bool" where
  "sends c fqn w w' =
     (\<exists>ps. list_all (concerns fqn) ps \<and> control_of w' = fold (apply_statement c) ps (control_of w))"

interpretation sending: world_order "sends c fqn" for c fqn
proof unfold_locales
  show "sends c fqn w w" for w
    unfolding sends_def by (rule exI [of _ "[]"]) simp
  fix u v w assume "sends c fqn u v" "sends c fqn v w"
  then obtain ps qs where "list_all (concerns fqn) (ps @ qs)"
    "control_of w = fold (apply_statement c) (ps @ qs) (control_of u)" by (auto simp: sends_def)
  then show "sends c fqn u w" unfolding sends_def by blast
qed

lemma book_control [simp]: "book control_of"
  by (simp add: book_def control_of_def)

lemma control_of_updates [simp]:
  "control_of (w\<lparr>wd_reads := a\<rparr>) = control_of w" "control_of (w\<lparr>wd_views := b\<rparr>) = control_of w"
  "control_of (w\<lparr>wd_tables := c\<rparr>) = control_of w" "control_of (w\<lparr>wd_conf := d\<rparr>) = control_of w"
  "control_of (w\<lparr>wd_commits := e\<rparr>) = control_of w" "control_of (w\<lparr>wd_alerts := f\<rparr>) = control_of w"
  "control_of (w\<lparr>wd_sleeps := g\<rparr>) = control_of w" "control_of (w\<lparr>wd_runs := h\<rparr>) = control_of w"
  by (simp_all add: control_of_def)

lemma sends_keeps: "keeps control_of m \<Longrightarrow> steps (sends c fqn) m"
  unfolding steps_def sends_def by (auto intro!: exI [of _ "[]"])

lemma sends_one: "concerns fqn p \<Longrightarrow> control_of w' = apply_statement c p (control_of w) \<Longrightarrow> sends c fqn w w'"
  unfolding sends_def by (intro exI [of _ "[p]"]) simp

lemma sends_execute:
  assumes "concerns fqn p" "\<And>w. control_of (effect w) = apply_statement c p (control_of w)"
  shows "steps (sends c fqn) (executeA env kind effect)"
  unfolding executeA_def
  by (rule sending.steps_call, rule sends_one, fact+)
    (simp add: sends_def control_of_def, rule exI [of _ "[]"], simp)

lemma sends_now: "steps (sends c fqn) (nowA env)"
  by (intro sends_keeps keeps_now) simp

lemma sends_event: "steps (sends c fqn) (task_eventA env spec rid ty details now)"
  by (intro sends_keeps keeps_task_event) simp

lemma sends_register: "steps (sends c fqn) (register_configA env fqn e h j rid)"
  unfolding register_configA_def
proof (intro sending.steps_bind sends_now)
  fix seen
  show "steps (sends c fqn) (executeA env ControlCall (\<lambda>w. w\<lparr>wd_registry :=
      register_config fqn e h j [] (Some rid) seen (wd_registry w)\<rparr>))"
    by (rule sends_execute [where p = "MergeConfig fqn e h j [] (Some rid) seen"])
      (simp_all add: control_of_def)
qed

lemma sends_start_task: "steps (sends c fqn) (start_taskA env rid fqn e m wm h a s)"
  unfolding start_taskA_def
  by (intro sending.steps_bind sending.steps_ret,
      rule sends_execute [where p = "InsertTask (start_task_row rid fqn e m wm h a None s)"])
    (simp_all add: control_of_def start_task_row_def)

lemma sends_finish_task:
  "tr_table_fqn ref = fqn \<Longrightarrow> steps (sends c fqn) (finish_taskA env ref st m et msg s e)"
  unfolding finish_taskA_def
  by (intro sending.steps_bind sending.steps_lift,
      rule sends_execute [where p = "UpdateTask ref st m et (truncate_text truncate_limit msg)
        (duration_ms (en_float_ms env) (Some s) e) e"])
    (simp_all add: control_of_def)

lemma sends_record_checks:
  assumes "list_all (\<lambda>r. ck_table_fqn r = fqn) checks"
  shows "steps (sends c fqn) (record_checksA env checks)"
  unfolding record_checksA_def
proof (intro sending.steps_if sending.steps_ret sending.steps_bind sends_now)
  fix stamp
  show "steps (sends c fqn)
      (executeA env ControlCall (\<lambda>w. w\<lparr>wd_checks := snd (record_checks checks stamp (wd_checks w))\<rparr>))"
    by (rule sends_execute [where p = "InsertChecks checks stamp"]) (simp_all add: control_of_def assms)
qed

lemma sends_advance: "steps (sends (en_casts env) fqn) (advanceA env fqn e v rid col ty at_time)"
  unfolding advanceA_def Let_def
proof (intro sending.steps_bind sending.steps_if sending.steps_ret sending.steps_lift, goal_cases)
  case (1 canonical u)
  show ?case
    by (rule sends_execute [where p = "MergeMark (wm_make_params fqn e col ty canonical rid at_time)"])
      (simp_all add: control_of_def wm_make_params_def)
next
  case 2
  show ?case by (intro sends_keeps keeps_get_mark) simp
qed

lemma sends_quiet_stages:
  "steps (sends c fqn) (read_windowA env spec)" "steps (sends c fqn) (extract_batchA env spec rid window)"
  "steps (sends c fqn) (stage_batchA env spec rid b views extract)"
  "steps (sends c fqn) (load_batchA env spec rid views stage)"
  "steps (sends c fqn) (reconcileA env spec sc dup nk rw view)"
  "steps (sends c fqn) (require_okA env spec rid report)" "steps (sends c fqn) (freshA env)"
  "steps (sends c fqn) (back_offA env spec rid attempt)" "steps (sends c fqn) (alert_failureA env spec rid o')"
  "steps (sends c fqn) (skip_taskA env spec rid attempt reason)"
  by (rule sends_keeps; intro frames; simp)+

lemma sends_prepare: "steps (sends c (table_fqn spec)) (prepareA env spec rid attempt)"
proof -
  have checks: "steps (sends c (table_fqn spec)) (record_checksA env (report_rows rid (table_fqn spec) e report))"
    for e report
    by (rule sends_record_checks) (induction report, simp_all add: report_rows_def check_to_row_def)
  show ?thesis
    unfolding prepareA_def reconcile_batchA_def
    by (intro sending.steps_rules sends_quiet_stages checks sends_event)
qed

lemma sends_execute_task:
  assumes "tr_table_fqn task = table_fqn spec"
  shows "steps (sends (en_casts env) (table_fqn spec)) (catchA (execute_taskA env spec rid task attempt started)
    (fail_taskA env spec rid task attempt started))"
  unfolding execute_taskA_def advance_watermarkA_def close_taskA_def fail_taskA_def
  by (intro sending.steps_rules sends_prepare sends_advance sends_now sends_event sends_finish_task assms)

lemma sends_run: "steps (sends (en_casts env) (table_fqn spec)) (runA env spec rid attempt)"
proof -
  have "steps (sends (en_casts env) (table_fqn spec)) (openA env spec rid attempt)"
    unfolding openA_def
    by (intro sending.steps_rules sends_register sends_start_task sends_now sends_event)
  moreover have "tr_table_fqn task = table_fqn spec"
    if "openA env spec rid attempt w = (Inr (started, task), w1)" for w started task w1
    using that by (auto simp: openA_def start_taskA_def elim!: bindA_InrE)
  ultimately show ?thesis
    unfolding runA_open
    by (intro sending.steps_if sends_quiet_stages sending.steps_bind_of) (auto intro: sends_execute_task)
qed

lemma sends_retries: "steps (sends (en_casts env) (table_fqn spec)) (run_with_retriesA env spec rid)"
proof -
  have "steps (sends (en_casts env) (table_fqn spec)) (attemptsA env spec rid a n last_outcome)" for a n last_outcome
  proof (induction n arbitrary: a last_outcome)
    case 0
    show ?case unfolding attemptsA.simps by (intro sending.steps_rules sends_quiet_stages)
  next
    case (Suc n)
    show ?case
      unfolding attemptsA.simps by (intro sending.steps_rules sends_run sends_quiet_stages Suc)
  qed
  then show ?thesis by (simp add: run_with_retriesA_def)
qed

text \<open>Whatever the order, only the rows of the tables of the level change.\<close>

lemma sends_elsewhere:
  assumes "sends c t w w'" "t \<noteq> fqn"
  shows "rows_about fqn (control_of w') = rows_about fqn (control_of w)"
  using assms rows.other_steps by (auto simp: sends_def)

lemma retries_keep_rows:
  "table_fqn spec \<noteq> fqn \<Longrightarrow> keeps (\<lambda>w. rows_about fqn (control_of w)) (run_with_retriesA env spec rid)"
  using sends_retries sends_elsewhere unfolding steps_def by blast

section \<open>Properties\<close>

text \<open>C18: Whatever happens in a run of a table with its retries, it acts on the marks, the task rows,
  the registry and the checks only by statements about its own table: the control tables
  after it are those before it under such statements, and the rows of every other table are
  as they were.\<close>

theorem run_touches_own_rows:
  assumes "run_with_retriesA env spec rid w = (r, w')"
  shows "(\<exists>ps. list_all (concerns (table_fqn spec)) ps \<and>
      control_of w' = fold (apply_statement (en_casts env)) ps (control_of w)) \<and>
    (\<forall>fqn. fqn \<noteq> table_fqn spec \<longrightarrow> rows_about fqn (control_of w') = rows_about fqn (control_of w))"
proof -
  have "sends (en_casts env) (table_fqn spec) w w'"
    using sends_retries [of env spec rid] assms by (metis steps_def snd_conv)
  then show ?thesis using sends_elsewhere by (auto simp: sends_def)
qed

definition foreign_task :: task_row where
  "foreign_task = start_task_row ''r0'' ''hr.z'' ''dev'' ''full'' ''append'' ''h'' 1 None (midnight (PDate 1 1 1))"

lemma run_touches_own_rows_witness:
  "\<exists>r w'. run_with_retriesA no_secret_env (child_of [] ''a'') ''r1'' (sample_world\<lparr>wd_tasks := [foreign_task]\<rparr>) = (r, w') \<and>
     cl_tasks (rows_about ''hr.z'' (control_of w')) = [foreign_task]"
proof -
  obtain r w' where run: "run_with_retriesA no_secret_env (child_of [] ''a'') ''r1''
      (sample_world\<lparr>wd_tasks := [foreign_task]\<rparr>) = (r, w')" by fastforce
  from run_touches_own_rows [OF run] have
    "rows_about ''hr.z'' (control_of w') = rows_about ''hr.z'' (control_of (sample_world\<lparr>wd_tasks := [foreign_task]\<rparr>))"
    by simp
  then have "cl_tasks (rows_about ''hr.z'' (control_of w')) = [foreign_task]"
    by (simp add: rows_about_def control_of_def foreign_task_def start_task_row_def)
  with run show ?thesis by blast
qed

text \<open>C20: Clients that each send statements about a table of their own, and decide on them by the rows
  of that table, do not see each other: however their turns interleave on the shared control
  tables, each is in the state, and its rows are the rows, that it would have come to alone
  in as many turns.\<close>

theorem tables_do_not_interfere:
  assumes "own_steps_only concerns clients"
    "fold (pool_turn (apply_statement c) rows_about clients) turns (ls, s) = (ls', s')"
  shows "(ls' fqn, rows_about fqn s') =
    (solo_turn (apply_statement c) (clients fqn) ^^ count_list turns fqn) (ls fqn, rows_about fqn s)"
  using assms by (rule rows.turns_as_alone)

text \<open>A client that starts attempts, each with the number its rows call for.\<close>

definition attempting :: "string \<Rightarrow> (nat, control_rows, statement) client" where
  "attempting fqn n v =
     (if n = 0 then None
      else Some (Some (InsertTask (start_task_row ''r1'' fqn ''dev'' ''full'' ''append'' ''h''
             (next_attempt ''r1'' fqn (cl_tasks v)) None (midnight (PDate 1 1 1)))), n - 1))"

definition empty_control :: control_rows where
  "empty_control = \<lparr>cl_marks = [], cl_tasks = [], cl_registry = [], cl_checks = []\<rparr>"

lemma tables_do_not_interfere_witness:
  "\<exists>ls' s'. fold (pool_turn (apply_statement reading_casts) rows_about attempting)
       [''hr.a'', ''hr.b'', ''hr.b'', ''hr.a''] (\<lambda>_. 2, empty_control) = (ls', s') \<and>
     map task_attempt (cl_tasks (rows_about ''hr.a'' s')) = [1, 2]"
proof -
  let ?turns = "[''hr.a'', ''hr.b'', ''hr.b'', ''hr.a'']"
  obtain ls' s' where run: "fold (pool_turn (apply_statement reading_casts) rows_about attempting)
      ?turns (\<lambda>_. 2, empty_control) = (ls', s')" by fastforce
  have own: "own_steps_only concerns attempting"
    by (auto simp: own_steps_only_def attempting_def start_task_row_def split: if_splits)
  have "map task_attempt (cl_tasks (snd ((solo_turn (apply_statement reading_casts) (attempting ''hr.a'') ^^
      count_list ?turns ''hr.a'') (2, rows_about ''hr.a'' empty_control)))) = [1, 2]" by code_simp
  then have "map task_attempt (cl_tasks (rows_about ''hr.a'' s')) = [1, 2]"
    unfolding tables_do_not_interfere [OF own run, of "''hr.a''", symmetric] by simp
  with run show ?thesis by (intro exI conjI)
qed

text \<open>C19: With any number of workers a level reports in the order its tables were submitted,
  whatever the order in which the pool takes them: when it returns there is one outcome for each
  table, under its name and settled; when it raises, it is an exception that a run of one of its
  tables raised, and it never does when the control store, the audit log and the senders are in
  order.  The control rows of tables outside the level are as they were.\<close>

theorem pooled_level_reports_in_order:
  assumes "run_specsA env max_workers rid specs w = (r, w')"
  shows "(case r of
        Inr os \<Rightarrow> list_all settled os \<and> map to_table_fqn os = map table_fqn specs
      | Inl e \<Rightarrow> \<not> (control_up env \<and> polite_senders env \<and> list_all (\<lambda>s. 0 \<le> ru_retries (rs_runtime s)) specs) \<and>
          (\<exists>s \<in> set specs. \<exists>u v. run_with_retriesA env s rid u = (Inl e, v))) \<and>
    (\<forall>fqn. fqn \<notin> table_fqn ` set specs \<longrightarrow> rows_about fqn (control_of w') = rows_about fqn (control_of w))"
proof -
  have "rows_about fqn (control_of w') = rows_about fqn (control_of w)" if "fqn \<notin> table_fqn ` set specs" for fqn
  proof -
    have "keeps (\<lambda>w. rows_about fqn (control_of w)) (run_specsA env max_workers rid specs)"
      using that by (intro keeps_run_specs retries_keep_rows) auto
    with assms show ?thesis unfolding steps_def by (metis snd_conv)
  qed
  moreover have "case r of
        Inr os \<Rightarrow> list_all settled os \<and> map to_table_fqn os = map table_fqn specs
      | Inl e \<Rightarrow> \<not> (control_up env \<and> polite_senders env \<and> list_all (\<lambda>s. 0 \<le> ru_retries (rs_runtime s)) specs) \<and>
          (\<exists>s \<in> set specs. \<exists>u v. run_with_retriesA env s rid u = (Inl e, v))"
  proof (cases r)
    case (Inl e)
    with specs_report [OF assms] level_reports_up [of env rid specs e] show ?thesis
      by (simp add: level_reports_def)
  next
    case (Inr os)
    with specs_named [of env max_workers rid specs w os w'] assms show ?thesis by simp
  qed
  ultimately show ?thesis by blast
qed

text \<open>A pool that takes the second table first.\<close>

definition backwards_env :: "unit env" where
  "backwards_env = no_secret_env\<lparr>en_turns := \<lambda>_. [1, 0]\<rparr>"

lemma pooled_level_reports_in_order_witness:
  "pool_order backwards_env 2 (sample_world\<lparr>wd_tasks := [foreign_task]\<rparr>) = [1, 0] \<and>
   (\<exists>os w'. run_specsA backwards_env 4 ''r1'' [child_of [] ''a'', child_of [] ''b'']
      (sample_world\<lparr>wd_tasks := [foreign_task]\<rparr>) = (Inr os, w') \<and> map to_table_fqn os = [''hr.a'', ''hr.b''] \<and>
      cl_tasks (rows_about ''hr.z'' (control_of w')) = [foreign_task])"
proof
  show "pool_order backwards_env 2 (sample_world\<lparr>wd_tasks := [foreign_task]\<rparr>) = [1, 0]"
    by (simp add: pool_order_def backwards_env_def) code_simp
  let ?specs = "[child_of [] ''a'', child_of [] ''b'']" and ?w = "sample_world\<lparr>wd_tasks := [foreign_task]\<rparr>"
  obtain r w' where run: "run_specsA backwards_env 4 ''r1'' ?specs ?w = (r, w')" by fastforce
  note reports = pooled_level_reports_in_order [OF run]
  have "control_up backwards_env" "polite_senders backwards_env"
    using no_secret_env_up by (simp_all add: backwards_env_def control_up_def polite_senders_def)
  moreover have "list_all (\<lambda>s. 0 \<le> ru_retries (rs_runtime s)) ?specs" by simp
  ultimately obtain os where os: "r = Inr os" "map to_table_fqn os = map table_fqn ?specs"
    using reports by (cases r) auto
  moreover have "''hr.z'' \<notin> table_fqn ` set ?specs" by simp
  then have "rows_about ''hr.z'' (control_of w') = rows_about ''hr.z'' (control_of ?w)"
    using reports by blast
  then have "cl_tasks (rows_about ''hr.z'' (control_of w')) = [foreign_task]"
    by (simp add: rows_about_def control_of_def foreign_task_def start_task_row_def)
  ultimately show "\<exists>os w'. run_specsA backwards_env 4 ''r1'' ?specs ?w = (Inr os, w') \<and>
      map to_table_fqn os = [''hr.a'', ''hr.b''] \<and> cl_tasks (rows_about ''hr.z'' (control_of w')) = [foreign_task]"
    using run by simp
qed

end
