(* ===== verification/Demo.thy ===== *)
theory Demo
  imports Cli SqlClient
begin

text \<open>
  The simulated run of examples/simulated_run.py: the client that remembers watermarks, the
  stand-ins for the source and the target with the figures they report, the printed SQL of a
  table and what is printed of a finished run.  The run itself is a batch on an engine made of
  these parts and is not modelled.
\<close>

section \<open>Fixed values\<close>

definition demo_now :: pdatetime where
  "demo_now = PDatetime (PDate 2026 8 24) 10 0 0 0"

definition stored_watermark :: string where
  "stored_watermark = ''2026-08-24 08:00:00.000000''"

definition demo_watermark :: string where
  "demo_watermark = ''2026-08-24 10:00:00.000000''"

definition demo_scn :: string where
  "demo_scn = ''58200145''"

definition new_watermark_for :: "run_spec \<Rightarrow> string option" where
  "new_watermark_for spec =
     (if \<not> tracks_watermark (rs_extraction spec) then None
      else Some (if uses_scn (incremental spec) then demo_scn else demo_watermark))"

section \<open>The client\<close>

text \<open>The parameters of the last statement that set the mark of a table and environment.\<close>

record demo_client =
  dc_recording :: recording
  dc_marks :: "(payload_value \<times> payload_value, sql_params) dict"

definition new_demo_client :: demo_client where
  "new_demo_client = \<lparr>dc_recording = new_recording None, dc_marks = []\<rparr>"

definition required_param :: "sql_params \<Rightarrow> string \<Rightarrow> payload_value res" where
  "required_param ps k = (case dict_get ps k of None \<Rightarrow> Inl (PyKeyError k) | Some v \<Rightarrow> Inr v)"

definition demo_execute :: "string \<Rightarrow> sql_params option \<Rightarrow> demo_client \<Rightarrow> unit res \<times> demo_client" where
  "demo_execute statement params c =
     (let c' = c\<lparr>dc_recording := execute_recorded statement params (dc_recording c)\<rparr>;
          ps = params_or_empty params in
      if contains_str statement ''control.watermarks'' \<and> dict_get ps ''watermark_value'' \<noteq> None then
        (case bindE (required_param ps ''table_fqn'') (\<lambda>t.
              bindE (required_param ps ''env'') (\<lambda>e. Inr (t, e))) of
           Inl err \<Rightarrow> (Inl err, c')
         | Inr key \<Rightarrow> (Inr (), c'\<lparr>dc_marks := dict_set (dc_marks c') key ps\<rparr>))
      else (Inr (), c'))"

text \<open>\<open>params.get\<close>: a missing value is None.\<close>

definition param_or_none :: "sql_params \<Rightarrow> string \<Rightarrow> payload_value" where
  "param_or_none ps k = (case dict_get ps k of None \<Rightarrow> PV VNone | Some v \<Rightarrow> v)"

definition demo_query :: "string \<Rightarrow> sql_params option \<Rightarrow> demo_client \<Rightarrow> sql_params list \<times> demo_client" where
  "demo_query statement params c =
     (let c' = c\<lparr>dc_recording := snd (query_recorded statement params (dc_recording c))\<rparr>;
          ps = params_or_empty params in
      (if contains_str statement ''control.watermarks'' then
         (case dict_get (dc_marks c') (param_or_none ps ''table_fqn'', param_or_none ps ''env'') of
            None \<Rightarrow> []
          | Some row \<Rightarrow> if row = [] then [] else [row])
       else [], c'))"

section \<open>The stand-ins\<close>

definition stub_columns :: "run_spec \<Rightarrow> string list" where
  "stub_columns spec =
     (let listed = column_list (rs_extraction spec); keys = tg_merge_keys (rs_target spec);
          mark = effective_watermark_column (incremental spec) in
      if listed \<noteq> [] then listed
      else
        keys @ (if present mark \<and> text_of mark \<notin> set keys then [text_of mark] else []) @ [''PAYLOAD''])"

definition stub_extract :: "int \<Rightarrow> run_spec \<Rightarrow> watermark_window \<Rightarrow> extract_result res" where
  "stub_extract source_count spec window =
     (let ceiling = new_watermark_for spec in
      bindE (build_source_query spec
          (if tracks_watermark (rs_extraction spec) then ww_lower_bound window else None) ceiling
          (if ex_mode (rs_extraction spec) = ''query'' then Some ''SELECT 1 FROM DUAL'' else None)) (\<lambda>query.
      Inr \<lparr>er_columns = stub_columns spec, er_query = query, er_lower_bound = ww_lower_bound window,
           er_upper_bound = ceiling, er_new_watermark = ceiling, er_source_count = Some source_count,
           er_partition_bounds = None, er_num_partitions = rd_num_partitions (so_read (rs_source spec)),
           er_options = []\<rparr>))"

record demo_stage =
  ds_columns :: "string list"
  ds_query :: stage_query
  ds_duplicates :: int
  ds_null_keys :: int
  ds_views :: view_names

definition stub_stage ::
  "int \<Rightarrow> string list \<Rightarrow> run_spec \<Rightarrow> string \<Rightarrow> string \<Rightarrow> pdatetime \<Rightarrow> view_names option \<Rightarrow> demo_stage res" where
  "stub_stage duplicates columns spec rid batch_id ingested_at views =
     (let vs = (case views of None \<Rightarrow> make_view_names (table_fqn spec) rid 1 | Some v \<Rightarrow> v) in
      bindE (build_stage_query spec columns rid batch_id ingested_at (vn_raw vs)) (\<lambda>query.
      Inr \<lparr>ds_columns = columns, ds_query = query,
           ds_duplicates = (if st_dedupe_applied query then duplicates else 0), ds_null_keys = 0,
           ds_views = vs\<rparr>))"

text \<open>\<open>int(rows * 0.9)\<close>, a product of floats, is the parameter \<open>nine_tenths\<close>.\<close>

definition stub_write ::
  "(int \<Rightarrow> int) \<Rightarrow> int \<Rightarrow> int \<Rightarrow> string list \<Rightarrow> run_spec \<Rightarrow> string option \<Rightarrow> load_result res" where
  "stub_write nine_tenths source_count duplicates columns spec view =
     (let rows = source_count - (if needs_dedupe spec then duplicates else 0) in
      bindE (if is_merge (rs_target spec)
             then bindE (build_merge_sql spec (columns @
                 [''_ingested_at'', ''_ingested_date'', ''_run_id'', ''_batch_id'', ''_source_op'', ''_first_ingested_at''])
                 (if present view then text_of view else ''staged'')) (\<lambda>s. Inr [s])
             else Inr []) (\<lambda>statements.
      Inr ((new_load_result spec)\<lparr>lr_metrics := \<lparr>lm_rows_inserted = Some (nine_tenths rows),
             lm_rows_updated = Some (rows - nine_tenths rows), lm_rows_deleted = None, lm_rows_written = Some rows\<rparr>,
           lr_table_created := True, lr_statements := statements\<rparr>)))"

text \<open>What \<open>StubSpark\<close> answers to every query.\<close>

definition stub_rows :: "pyval list list" where
  "stub_rows = [[VInt 0]]"

section \<open>The printed SQL of a table\<close>

definition banner :: "string \<Rightarrow> string" where
  "banner text =
     (let rule = replicate 78 (CHR ''='') in [newline] @ rule @ [newline] @ text @ [newline] @ rule)"

definition ruled :: "string \<Rightarrow> nat \<Rightarrow> string" where
  "ruled title n = ''--- '' @ title @ '' '' @ replicate n (CHR ''-'')"

definition text_or_None :: "string option \<Rightarrow> string" where
  "text_or_None s = (case s of None \<Rightarrow> ''None'' | Some t \<Rightarrow> t)"

definition shown_window :: "run_spec \<Rightarrow> watermark_window" where
  "shown_window spec =
     (let scn = uses_scn (incremental spec) in
      \<lparr>ww_lower_bound = Some (if scn then ''58100000'' else ''2026-08-24 02:00:00.000000''),
       ww_stored_value = Some stored_watermark, ww_overlap_applied = (\<not> scn), ww_is_first_run = False\<rparr>)"

definition shown_header :: "run_spec \<Rightarrow> string \<Rightarrow> string \<Rightarrow> string list" where
  "shown_header spec fqn env =
     [banner (''SQL the framework would issue for '' @ fqn @ '' ['' @ env @ '']''),
      ''target        : '' @ target_fqn (rs_target spec),
      ''mode          : '' @ ex_mode (rs_extraction spec) @ '' / '' @ tg_write_mode (rs_target spec),
      ''config hash   : '' @ take 12 (rs_config_hash spec),
      ''stored mark   : '' @ stored_watermark,
      ''overlap       : '' @ text_or_None (in_overlap (incremental spec)) @ '' -> lower bound rewound'' @ [newline]]"

definition show_sql_for :: "config_lib \<Rightarrow> (int \<Rightarrow> int) \<Rightarrow> string \<Rightarrow> string \<Rightarrow> string \<Rightarrow> unit cmd" where
  "show_sql_for lib nine_tenths root' fqn env =
     bindC (liftC (build_run_spec lib root' fqn env)) (\<lambda>spec.
     bindC (sayC (shown_header spec fqn env)) (\<lambda>_.
     bindC (liftC (stub_extract 1200 spec (shown_window spec))) (\<lambda>extract.
     bindC (sayC [ruled ''1. Oracle source query'' 43, sq_sql (er_query extract)]) (\<lambda>_.
     bindC (liftC (stub_stage 200 (stub_columns spec) spec ''dev-20260824T100000-abc123'' ''b1'' demo_now None)) (\<lambda>stage.
     bindC (sayC [[newline] @ ruled ''2. Staging (audit columns + dedupe before merge)'' 18, st_sql (ds_query stage)]) (\<lambda>_.
     bindC (liftC (stub_write nine_tenths 1200 200 (stub_columns spec) spec (Some (vn_staged (ds_views stage))))) (\<lambda>load.
     case lr_statements load of
       s # _ \<Rightarrow> sayC [[newline] @ ruled ''3. Delta MERGE'' 51, s]
     | [] \<Rightarrow> sayC [[newline] @ ruled ''3. Delta write'' 51,
          tg_write_mode (rs_target spec) @ '' into '' @ target_fqn (rs_target spec)])))))))"

section \<open>What is printed of a run\<close>

definition demo_outcome_line :: "task_outcome \<Rightarrow> string" where
  "demo_outcome_line o' =
     ''  '' @ pad_right 26 (to_table_fqn o') @ '' '' @ pad_right 10 (task_status_value (to_status o')) @ '' rows='' @
     (case tm_rows_written (to_metrics o') of None \<Rightarrow> ''None'' | Some n \<Rightarrow> str_int n) @
     '' watermark='' @ (if to_advanced o' then ''advanced'' else ''held'')"

definition demo_result_lines :: "batch_result \<Rightarrow> string list" where
  "demo_result_lines b =
     [''run id   : '' @ br_run_id b, ''status   : '' @ run_status_value (br_status b)] @
     map demo_outcome_line (br_outcomes b)"

text \<open>\<open>text.split()\<close>: the words between white space.\<close>

fun words_of :: "string \<Rightarrow> string \<Rightarrow> string list" where
  "words_of w [] = (if w = [] then [] else [w])"
| "words_of w (c # s) =
     (if is_space c then (if w = [] then words_of [] s else w # words_of [] s) else words_of (w @ [c]) s)"

definition control_write_line :: "string \<Rightarrow> string res" where
  "control_write_line statement =
     (case words_of [] statement of
        [] \<Rightarrow> Inl IndexError
      | verb # _ \<Rightarrow>
          Inr (''  '' @ pad_right 8 verb @ '' '' @
            (case find (\<lambda>w. contains_str w ''.'' \<and> contains_str w ''control'') (words_of [] statement) of
               None \<Rightarrow> [] | Some w \<Rightarrow> w)))"

text \<open>A line for each element, printed as it is made.\<close>

fun say_eachC :: "('a \<Rightarrow> string res) \<Rightarrow> 'a list \<Rightarrow> unit cmd" where
  "say_eachC f [] = retC ()"
| "say_eachC f (x # xs) = bindC (liftC (f x)) (\<lambda>l. bindC (sayC [l]) (\<lambda>_. say_eachC f xs))"

definition insert_line :: "string \<times> sql_row list \<Rightarrow> string" where
  "insert_line = (\<lambda>(table, rows). ''  INSERT   '' @ table @ '' ('' @ str_len rows @ '' row(s))'')"

definition rows_into :: "string \<Rightarrow> recording \<Rightarrow> sql_row list" where
  "rows_into ending c =
     concat (map snd (filter (\<lambda>(table, _). starts_with (rev table) (rev ending)) (rq_inserted c)))"

definition cell :: "sql_row \<Rightarrow> string \<Rightarrow> pyval res" where
  "cell row k = (case dict_get row k of None \<Rightarrow> Inl (PyKeyError k) | Some v \<Rightarrow> Inr v)"

definition pad_left :: "nat \<Rightarrow> string \<Rightarrow> string" where
  "pad_left n s = replicate (n - length s) (CHR '' '') @ s"

definition audit_line :: "sql_row \<Rightarrow> string res" where
  "audit_line row =
     bindE (cell row ''table_fqn'') (\<lambda>table.
     bindE (cell row ''sequence'') (\<lambda>seq.
     bindE (cell row ''event_type'') (\<lambda>ty.
     Inr (''  '' @ pad_left 3 (py_str seq) @ ''  '' @ pad_right 22 (py_str ty) @ '' '' @
       (if truthy table then py_str table else ''-'')))))"

definition check_line :: "sql_row \<Rightarrow> string res" where
  "check_line row =
     (let details = row_value row ''details'';
          detail = (if truthy details then '' -- '' @ py_str details else []) in
      bindE (cell row ''table_fqn'') (\<lambda>table.
      bindE (cell row ''check_name'') (\<lambda>name.
      bindE (cell row ''status'') (\<lambda>status.
      Inr (''  '' @ pad_right 26 (py_str table) @ '' '' @ pad_right 24 (py_str name) @ '' '' @
        py_str status @ detail)))))"

definition demo_note :: string where
  "demo_note = [newline] @ ''NOTE: the JDBC read and the Delta write were stubbed. This shows what the '' @
     ''framework decides and emits, not that Delta behaves as assumed.''"

text \<open>From the result of the batch and the recording of its client to the lines and the code.\<close>

definition report_run :: "batch_result \<Rightarrow> recording \<Rightarrow> int cmd" where
  "report_run result c =
     bindC (sayC (demo_result_lines result)) (\<lambda>_.
     bindC (sayC [banner ''Control-plane writes this run produced'']) (\<lambda>_.
     bindC (say_eachC control_write_line (recorded_statements c)) (\<lambda>_.
     bindC (sayC (map insert_line (rq_inserted c))) (\<lambda>_.
     bindC (sayC [banner (''Audit trail ('' @ str_len (rows_into ''audit_log'' c) @ '' events)'')]) (\<lambda>_.
     bindC (say_eachC audit_line (rows_into ''audit_log'' c)) (\<lambda>_.
     bindC (sayC [banner (''Reconciliation ('' @ str_len (rows_into ''reconciliation'' c) @ '' checks)'')]) (\<lambda>_.
     bindC (say_eachC check_line (rows_into ''reconciliation'' c)) (\<lambda>_.
     bindC (sayC [demo_note]) (\<lambda>_.
     retC (if run_status_value (br_status result) = ''SUCCEEDED'' then 0 else 1))))))))))"

section \<open>Lemmas\<close>

lemma stage_dedupes:
  "build_stage_query spec columns rid b t view = Inr q \<Longrightarrow> st_dedupe_applied q = needs_dedupe spec"
  using build_stage_query_Inr by blast

lemma stub_stage_figures:
  "stub_stage dups columns spec rid b t views = Inr stage \<Longrightarrow>
   ds_duplicates stage = (if needs_dedupe spec then dups else 0) \<and> ds_null_keys stage = 0"
  by (auto simp: stub_stage_def res_simps Let_def stage_dedupes)

lemma stub_write_figures:
  "stub_write nine n dups columns spec view = Inr load \<Longrightarrow>
   \<exists>rows. rows = n - (if needs_dedupe spec then dups else 0) \<and>
     lr_metrics load = \<lparr>lm_rows_inserted = Some (nine rows), lm_rows_updated = Some (rows - nine rows),
       lm_rows_deleted = None, lm_rows_written = Some rows\<rparr>"
  by (auto simp: stub_write_def res_simps Let_def)

text \<open>The client gives back the parameters it was told last, whatever the mark was before.\<close>

lemma demo_client_echoes:
  assumes "contains_str s ''control.watermarks''" "contains_str q ''control.watermarks''"
    "dict_get ps ''watermark_value'' = Some v" "dict_get ps ''table_fqn'' = Some t" "dict_get ps ''env'' = Some e"
    "dict_get qs ''table_fqn'' = Some t" "dict_get qs ''env'' = Some e"
    "demo_execute s (Some ps) c = (r, c')"
  shows "r = Inr () \<and> fst (demo_query q (Some qs) c') = [ps]"
proof -
  have "ps \<noteq> []" using assms(3) by (auto simp: dict_get_def)
  with assms show ?thesis
    by (auto simp: demo_execute_def demo_query_def required_param_def param_or_none_def Let_def)
qed

text \<open>
  The stand-in for the loader lists the columns as the source has them; the loader lists those
  of the staged frame, which the column case of the target has changed.
\<close>

definition lower_case_spec :: run_spec where
  "lower_case_spec = (sample_spec ''full'' ''merge'')
     \<lparr>rs_target := (default_target ''c'' ''s'' ''t'')\<lparr>tg_merge_keys := [''ID''], tg_merge_guard := ''none'',
        tg_column_case := ''lower''\<rparr>\<rparr>"

lemma demo_merge_is_not_the_merge:
  "stub_columns lower_case_spec = [''ID'', ''TS'', ''PAYLOAD'']"
  "stub_stage dups [''ID'', ''TS'', ''PAYLOAD''] lower_case_spec rid b t views = Inr stage \<Longrightarrow>
   st_columns (ds_query stage) = [''id'', ''ts'', ''payload''] @ audit_columns"
  "build_merge_plan lower_case_spec ([''ID'', ''TS'', ''PAYLOAD''] @ audit_columns) view = Inr p \<Longrightarrow>
   pl_columns p = [''ID'', ''TS'', ''PAYLOAD''] @ audit_columns"
proof -
  show "stub_columns lower_case_spec = [''ID'', ''TS'', ''PAYLOAD'']" by code_simp
  have names: "map source_column_name [''ID'', ''TS'', ''PAYLOAD''] = [''ID'', ''TS'', ''PAYLOAD'']"
    "normalize_columns [''ID'', ''TS'', ''PAYLOAD''] ''lower'' = [''id'', ''ts'', ''payload'']" by code_simp+
  have spec: "tg_column_case (rs_target lower_case_spec) = ''lower''" "tg_add_audit_columns (rs_target lower_case_spec)"
    by (simp_all add: lower_case_spec_def default_target_def)
  show "st_columns (ds_query stage) = [''id'', ''ts'', ''payload''] @ audit_columns"
    if "stub_stage dups [''ID'', ''TS'', ''PAYLOAD''] lower_case_spec rid b t views = Inr stage"
    using that names spec
    by (auto simp: stub_stage_def res_simps Let_def build_stage_query_def split: if_splits)
  show "pl_columns p = [''ID'', ''TS'', ''PAYLOAD''] @ audit_columns"
    if "build_merge_plan lower_case_spec ([''ID'', ''TS'', ''PAYLOAD''] @ audit_columns) view = Inr p"
    using that by (auto dest!: build_merge_plan_Inr)
qed

section \<open>Properties\<close>

text \<open>The figures of the stand-ins agree with each other as those of a good run must: for every
  specification and whatever counts they are set to, the report on what they say they read,
  collapsed and wrote, with the zeros the stand-in for Spark answers to the expectations, has
  no failed check, and the rows inserted and updated are the rows written.\<close>

theorem demo_figures_reconcile:
  assumes "stub_extract n spec window = Inr extract"
    "stub_stage dups (er_columns extract) spec rid b t views = Inr stage"
    "stub_write nine n dups (ds_columns stage) spec view = Inr load"
    "list_all2 (\<lambda>x k. bindE (first_cell stub_rows) py_int = Inr k) (qu_expectations (rs_quality spec)) violations"
  shows "report_ok (full_report spec (er_source_count extract) (Some (ds_duplicates stage)) (Some (ds_null_keys stage))
      (lm_rows_written (lr_metrics load)) violations) \<and>
    (\<exists>i u w. lm_rows_inserted (lr_metrics load) = Some i \<and> lm_rows_updated (lr_metrics load) = Some u \<and>
      lm_rows_written (lr_metrics load) = Some w \<and> i + u = w)"
proof -
  have zero: "length violations = length (qu_expectations (rs_quality spec))" "\<forall>i < length violations. violations ! i = 0"
    using assms(4) by (auto simp: list_all2_conv_all_nth stub_rows_def first_cell_def)
  have "er_source_count extract = Some n" using assms(1) by (auto simp: stub_extract_def res_simps Let_def)
  with stub_stage_figures [OF assms(2)] stub_write_figures [OF assms(3)] zero show ?thesis
    by (auto simp: report_ok_exactly int_or_zero_def)
qed

definition plain_spec :: run_spec where
  "plain_spec = (sample_spec ''full'' ''append'')
     \<lparr>rs_target := (default_target ''c'' ''s'' ''t'')\<lparr>tg_write_mode := ''append'', tg_add_audit_columns := False\<rparr>\<rparr>"

lemma demo_figures_reconcile_witness:
  "\<exists>extract stage load.
     stub_extract 1200 plain_spec (shown_window plain_spec) = Inr extract \<and>
     stub_stage 200 (er_columns extract) plain_spec ''r'' ''b'' demo_now None = Inr stage \<and>
     stub_write (\<lambda>n. n * 9 div 10) 1200 200 (ds_columns stage) plain_spec None = Inr load \<and>
     report_ok (full_report plain_spec (er_source_count extract) (Some (ds_duplicates stage))
       (Some (ds_null_keys stage)) (lm_rows_written (lr_metrics load)) [])"
proof -
  have "case stub_extract 1200 plain_spec (shown_window plain_spec) of
      Inl e \<Rightarrow> False
    | Inr extract \<Rightarrow>
        (case stub_stage 200 (er_columns extract) plain_spec ''r'' ''b'' demo_now None of
           Inl e \<Rightarrow> False
         | Inr stage \<Rightarrow> is_ok (stub_write (\<lambda>n. n * 9 div 10) 1200 200 (ds_columns stage) plain_spec None))"
    by code_simp
  then obtain ex stage load where run:
    "stub_extract 1200 plain_spec (shown_window plain_spec) = Inr ex"
    "stub_stage 200 (er_columns ex) plain_spec ''r'' ''b'' demo_now None = Inr stage"
    "stub_write (\<lambda>n. n * 9 div 10) 1200 200 (ds_columns stage) plain_spec None = Inr load"
    by (auto simp: is_ok_iff split: sum.splits)
  have "qu_expectations (rs_quality plain_spec) = []"
    by (simp add: plain_spec_def sample_spec_def default_quality_def)
  with demo_figures_reconcile [OF run, of "[]"] run show ?thesis by auto
qed

end
