(* ===== verification/Spec2Isabelle.thy ===== *)
theory Spec2Isabelle
  imports CliRun Tools Logging SqlClient Workers Demo
begin

text \<open>
  A verification library for the metadata-driven ingestion framework under
  src/src/ingestion_framework.

  The program moves tables from Oracle to Delta.  A configuration (config/) becomes a run
  specification (engine/run_spec.py); a batch (orchestration/batch_runner.py) orders its
  tables by dependency and runs each with retries (orchestration/runner.py): read the
  watermark (control/watermark.py), extract (engine/extractor.py with the SQL of
  engine/sql_builder.py), stage (engine/transformer.py), load (engine/loader.py), reconcile
  (engine/reconciler.py), and only then move the watermark and close the task
  (control/control_store.py), leaving a trail of audit events (control/audit.py) and alerts
  (observability/alerts.py).  The command line (cli.py) is the way in: it builds the
  specifications from the tree of configuration files, an engine on the Spark session
  (orchestration/factory.py) and the batch, and turns what came of it into lines and an exit
  code.  Beside it stand what is generated from the same configuration, the Workflow jobs
  (orchestration/bundle.py) and the dashboard queries (observability/monitoring.py).

  The theories, from the leaves up.

  \<^item> Prelude, PyTime, PyValues, Tables: results with Python's exceptions as values
    (\<open>res\<close>), insertion-ordered dictionaries, strings, dates and times with their text forms,
    the dynamically typed scalars (\<open>pyval\<close>) with decimals, and the keyed tables behind the
    MERGE statements of the control plane.
  \<^item> Duration (utils/duration.py); Watermark (control/watermark.py): canonical forms, the
    window with its overlap, the guarded MERGE of a mark.
  \<^item> ControlSchema, ControlStore, EventLog (control/schema.py, control_store.py, audit.py):
    the control tables, the task state machine, run status, the event buffer with faults of
    its insert.
  \<^item> RunSpec, SqlBuilder, Transformer, Loader, Reconciler, Alerts, Extractor: the records of
    a run and the pure part of every stage; the MERGE of a load is also modelled by its
    effect on the rows of the target.
  \<^item> World, EngineCalls, Runner, BatchRunner: the composition.  The state of the world
    (\<open>world\<close>) is the control tables, the audit log, the commits, views and settings of Spark,
    the reads, alerts and pauses; an action is a function of the state that returns a value
    or the exception that escapes, with the state it leaves.  The environment (\<open>env\<close>) holds
    what is not in the repository: the clock, identifiers, secrets, query files, the answers
    of Oracle and Spark, the alert senders, the order in which the thread pool takes the tables
    of a level, and a schedule of faults that may strike any call before or after its effect.
  \<^item> AuditRace, Workers: the thread pool of \<open>_run_level\<close>.  The statements of \<open>emit\<close> and \<open>flush\<close>
    (control/audit.py) as steps of any of several workers on the one log; the statements on the
    control tables as values, clients that send them in turns (locale \<open>private_rows\<close>).
    A level whose tables the pool takes as whole steps, in any order, is part of BatchRunner.
  \<^item> ConfigMerge, ConfigResolve, SpecConfig, ConfigValidate (config/merger.py, resolver.py with
    the files of loader.py, \<open>RunSpec.from_config\<close>, validator.py): the layers and their list
    strategies, identity, derived defaults and placeholders, the conversion into a
    specification, and the semantic checks.
  \<^item> ConfigTree (the YAML constructors and the discovery of loader.py, config/__init__.py): from
    the nodes of a document to configuration values, from a tree of files to the tables, their
    specifications and their reports.
  \<^item> Bundle, Monitoring (orchestration/bundle.py, observability/monitoring.py): jobs, tasks and
    edges as configuration values; the text of the queries, and the rows four of them select
    as functions of the control tables.
  \<^item> CliArgs, Json, Cli, CliRun (cli.py, orchestration/factory.py): the declared options and what
    argparse makes of a list of arguments; the commands, which act on the lines printed and the
    world; what they promise.
  \<^item> Logging, SqlClient, Tools (observability/logger.py, control/sql_client.py, tools/): records
    and JSON lines, the requests to a session and the recording client, the two generators.
  \<^item> Demo (examples/simulated_run.py): its client and stand-ins, the SQL it prints for a table
    and what it prints of a run.

  What the lemmas show.  Data: round trips of durations and watermarks, order and equivalence
  of the watermark guard, literals that cannot break out of their quotes.  Stages: windows
  that partition the marks, a MERGE that updates only what its guard lets and that may be
  replayed, reports that are ok exactly when every check is.  Control plane: histories of
  tasks, retries as appended attempts, monotone marks, a complete and bounded event buffer.
  Composition, by frame rules over actions (\<open>keeps\<close>, \<open>loads_only\<close>, both interpretations of the
  locale \<open>world_order\<close>): whatever fails, a mark moves only after one committed load and a
  report without failures; attempts and runs are always closed; retries are bounded;
  dependents of failed tables do not run; every table of a batch is reported once.
  Concurrency: one worker's steps are whole calls, workers that take turns come to some order of
  whole calls, and without turns events are lost; a run of a table sends statements about its
  own rows only, tables in any interleaving of such statements come to what each comes to alone,
  and a level on the pool reports in the order of submission.
  Configuration: later layers win, merging is idempotent, keyed lists keep keys unique, what
  resolves has no placeholder left, what the loader accepts is well formed, and what validates
  becomes a specification that cannot fail for what was checked, with the one exception stated
  and shown.  Generated artefacts: the jobs run every enabled table once, their task graphs have
  no cycle, table health counts a retried run once.  Command line: the commands that only look
  leave the world as it was (\<open>looks\<close>, with its rules), code 0 of \<open>run\<close> and \<open>backfill\<close> means what it
  says under any faults, \<open>run\<close> returns when its infrastructure answers; and the command of a
  generated task is refused.

  Recursion.  Every loop of the code is structural recursion or has a termination proof, the
  levels of a batch by the number of tables left and the merge by the size of the override;
  the retry loop counts down the attempts left.  The passes of the interpolation are bounded by
  the code itself, which raises when five do not suffice; no other fuel is used.

  Bounds of the model.  A text is a list of characters, its case mapping is that of ASCII; a
  year is printed without padding as \<open>%Y\<close> does; a float carries its exact value and its
  \<open>repr\<close>, and the product of a duration in milliseconds is a parameter; the limits of the decimal
  context on exponents are left out; template values are assumed to have no backslash, which
  \<open>re.sub\<close> would interpret; Spark's names are compared with case; a lazy read and its collect
  are one call; the pause between attempts ends; the keys of configuration mappings are
  strings, and a configuration value that the JSON schema would refuse for its type is an
  error of the conversion and of the validation.

  Not modelled. The interleaving of the statements of whole runs: with several workers
  \<open>run_batchA\<close> takes the tables of a level in any order, each as one step, and the
  interleavings of AuditRace and Workers are those of the audit log and of the control tables
  alone, without the calls to Oracle and Spark, whose sessions are outside the repository;
  the log lines inside the runners and the logging alert sender, whose form is in
  Logging and whose text nothing depends on; of argparse the separator \<open>--\<close> and the
  texts of usage and help; what the YAML library composes and dumps, the JSON schema, the digest
  and \<open>repr\<close> of a configuration (parameters); several control planes in one world:
  all statements go to the tables of the world, whatever their catalog and schema; the wrapping
  of dbutils; of examples/simulated_run.py the batch it runs on an engine of stand-ins, and its
  parser.
\<close>

end
